(* ===== verification/Go_Base.thy ===== *)
theory Go_Base
  imports Main "HOL-Library.Word"
begin

text \<open>
  The Go values every component shares: bytes and 32-bit integers, errors as
  values, results, byte slices with the bounds check of the language, the
  big-endian integers of \<^verbatim>\<open>encoding/binary\<close>, and the read side of
  \<^verbatim>\<open>bytes.Reader\<close>.  A Go string is a byte sequence and is modelled by
  \<open>string\<close>, whose characters are bytes; \<open>str\<close> and \<open>bytes_of\<close> are the
  conversions \<^verbatim>\<open>string(b)\<close> and \<^verbatim>\<open>[]byte(s)\<close>.
\<close>

unbundle bit_operations_syntax

section \<open>Collections of facts\<close>

named_theorems go_simps \<open>evaluation of the modelled standard library\<close>
named_theorems inv_intros \<open>operations that keep a component's invariant\<close>

section \<open>Errors and results\<close>

text \<open>
  \<open>Errorf f as\<close> is \<^verbatim>\<open>fmt.Errorf(f, as...)\<close> (also \<^verbatim>\<open>errors.New\<close>),
  \<open>Wrapf f as e\<close> is the same with a trailing \<^verbatim>\<open>%w\<close> that wraps \<open>e\<close>,
  \<open>Status c f as\<close> is \<^verbatim>\<open>status.Errorf\<close> of gRPC, \<open>EOF\<close> is \<^verbatim>\<open>io.EOF\<close>
  and \<open>Ext m\<close> is an error that comes from code outside this development.
\<close>

datatype goerr =
    Errorf string "string list"
  | Wrapf string "string list" goerr
  | Status string string "string list"
  | EOF
  | Ext string

type_synonym 'a res = "goerr + 'a"

definition bind_res :: "'a res \<Rightarrow> ('a \<Rightarrow> 'b res) \<Rightarrow> 'b res" where
  "bind_res r f = (case r of Inl e \<Rightarrow> Inl e | Inr x \<Rightarrow> f x)"

fun is_err :: "'a res \<Rightarrow> bool" where
  "is_err (Inl e) = True"
| "is_err (Inr x) = False"

lemma bind_res_Inl [simp]: "bind_res (Inl e) f = Inl e"
  by (simp add: bind_res_def)

lemma bind_res_Inr [simp]: "bind_res (Inr x) f = f x"
  by (simp add: bind_res_def)

lemma bind_res_eq_Inr: "bind_res r f = Inr y \<longleftrightarrow> (\<exists>x. r = Inr x \<and> f x = Inr y)"
  by (cases r) auto

lemma bind_res_eq_Inl:
  "bind_res r f = Inl e \<longleftrightarrow> r = Inl e \<or> (\<exists>x. r = Inr x \<and> f x = Inl e)"
  by (cases r) auto

lemma is_err_iff: "is_err r \<longleftrightarrow> (\<exists>e. r = Inl e)"
  by (cases r) auto

text \<open>
  A function that may also panic: \<open>Panics\<close> is the run-time panic (it ends the
  process unless recovered, and nothing under \<^verbatim>\<open>src/\<close> recovers), \<open>Fails e\<close> the
  non-nil error and \<open>Returns x\<close> the result with a nil error.
\<close>

datatype 'a outcome = Panics | Fails goerr | Returns 'a

definition bind_out :: "'a outcome \<Rightarrow> ('a \<Rightarrow> 'b outcome) \<Rightarrow> 'b outcome" where
  "bind_out r f = (case r of Panics \<Rightarrow> Panics | Fails e \<Rightarrow> Fails e | Returns x \<Rightarrow> f x)"

fun out_of :: "'a res \<Rightarrow> 'a outcome" where
  "out_of (Inl e) = Fails e"
| "out_of (Inr x) = Returns x"

lemma bind_out_simps [simp]:
  "bind_out Panics f = Panics"
  "bind_out (Fails e) f = Fails e"
  "bind_out (Returns x) f = f x"
  by (simp_all add: bind_out_def)

lemma bind_out_eq_Returns:
  "bind_out r f = Returns y \<longleftrightarrow> (\<exists>x. r = Returns x \<and> f x = Returns y)"
  by (cases r) auto

lemma out_of_eq_Returns [simp]: "out_of r = Returns x \<longleftrightarrow> r = Inr x"
  by (cases r) auto

lemma out_of_not_Panics [simp]: "out_of r \<noteq> Panics"
  by (cases r) auto

section \<open>Bytes, strings and 32-bit integers\<close>

type_synonym byte = "8 word"
type_synonym bytes = "byte list"
type_synonym u32 = "32 word"

definition str :: "bytes \<Rightarrow> string" where
  "str b = map (\<lambda>x. char_of (unat x)) b"

definition bytes_of :: "string \<Rightarrow> bytes" where
  "bytes_of s = map (\<lambda>c. word_of_nat (of_char c)) s"

lemma bytes_of_str [simp]: "bytes_of (str b) = b"
proof (induction b)
  case (Cons x b)
  have "unat x mod 256 = unat x"
    using unsigned_less [where w = x and 'a = nat] by simp
  with Cons show ?case
    by (simp add: bytes_of_def str_def)
qed (simp add: bytes_of_def str_def)

lemma str_bytes_of [simp]: "str (bytes_of s) = s"
proof (induction s)
  case (Cons c s)
  have "(of_char c :: nat) < 256"
    by (metis nat_of_char_less_256)
  then have "unat (word_of_nat (of_char c) :: 8 word) = of_char c"
    by (simp add: unat_of_nat)
  with Cons show ?case
    by (simp add: bytes_of_def str_def)
qed (simp add: bytes_of_def str_def)

lemma str_inject [simp]: "str a = str b \<longleftrightarrow> a = b"
  by (metis bytes_of_str)

lemma bytes_of_inject [simp]: "bytes_of a = bytes_of b \<longleftrightarrow> a = b"
  by (metis str_bytes_of)

lemma str_eq_Nil [simp]: "str b = [] \<longleftrightarrow> b = []"
  by (simp add: str_def)

lemma bytes_of_eq_Nil [simp]: "bytes_of s = [] \<longleftrightarrow> s = []"
  by (simp add: bytes_of_def)

lemma length_str [simp]: "length (str b) = length b"
  by (simp add: str_def)

lemma length_bytes_of [simp]: "length (bytes_of s) = length s"
  by (simp add: bytes_of_def)

text \<open>\<^verbatim>\<open>binary.BigEndian.Uint32\<close> and \<^verbatim>\<open>PutUint32\<close>.\<close>

definition be_uint32 :: "byte \<Rightarrow> byte \<Rightarrow> byte \<Rightarrow> byte \<Rightarrow> u32" where
  "be_uint32 a b c d =
     push_bit 24 (ucast a) OR push_bit 16 (ucast b) OR push_bit 8 (ucast c) OR ucast d"

definition put_uint32 :: "u32 \<Rightarrow> bytes" where
  "put_uint32 w = [ucast (drop_bit 24 w), ucast (drop_bit 16 w), ucast (drop_bit 8 w), ucast w]"

lemma length_put_uint32 [simp]: "length (put_uint32 w) = 4"
  by (simp add: put_uint32_def)

lemma be_uint32_put:
  "be_uint32 (ucast (drop_bit 24 w)) (ucast (drop_bit 16 w)) (ucast (drop_bit 8 w)) (ucast w) = w"
proof (rule bit_word_eqI)
  fix n
  assume "n < LENGTH(32)"
  then consider "n < 8" | "8 \<le> n \<and> n < 16" | "16 \<le> n \<and> n < 24" | "24 \<le> n \<and> n < 32"
    by fastforce
  then show "bit (be_uint32 (ucast (drop_bit 24 w)) (ucast (drop_bit 16 w))
      (ucast (drop_bit 8 w)) (ucast w)) n = bit w n"
    by cases (auto simp: be_uint32_def bit_simps)
qed

lemma put_be_uint32 [simp]: "put_uint32 (be_uint32 a b c d) = [a, b, c, d]"
proof -
  have "ucast (drop_bit 24 (be_uint32 a b c d)) = a" "ucast (drop_bit 16 (be_uint32 a b c d)) = b"
    "ucast (drop_bit 8 (be_uint32 a b c d)) = c" "ucast (be_uint32 a b c d) = d"
    by (rule bit_word_eqI; auto simp: be_uint32_def bit_simps dest: bit_imp_le_length)+
  then show ?thesis
    by (simp add: put_uint32_def)
qed

section \<open>Slices\<close>

text \<open>
  \<open>slice b i j\<close> is \<^verbatim>\<open>b[i:j]\<close> and \<open>slice_from b i\<close> is \<^verbatim>\<open>b[i:]\<close>;
  \<open>None\<close> is the run-time panic.  The buffers the hooks get are exactly sized,
  so the bound of \<^verbatim>\<open>b[i:j]\<close> is the length.
\<close>

definition slice :: "'a list \<Rightarrow> nat \<Rightarrow> nat \<Rightarrow> 'a list option" where
  "slice b i j = (if i \<le> j \<and> j \<le> length b then Some (take (j - i) (drop i b)) else None)"

definition slice_from :: "'a list \<Rightarrow> nat \<Rightarrow> 'a list option" where
  "slice_from b i = slice b i (length b)"

lemma slice_Some [simp]:
  "i \<le> j \<Longrightarrow> j \<le> length b \<Longrightarrow> slice b i j = Some (take (j - i) (drop i b))"
  by (simp add: slice_def)

lemma slice_None_iff: "slice b i j = None \<longleftrightarrow> \<not> (i \<le> j \<and> j \<le> length b)"
  by (simp add: slice_def)

lemma slice_from_Some [simp]: "i \<le> length b \<Longrightarrow> slice_from b i = Some (drop i b)"
  by (simp add: slice_from_def)

lemma slice_from_None_iff: "slice_from b i = None \<longleftrightarrow> length b < i"
  by (auto simp: slice_from_def slice_def)

text \<open>\<^verbatim>\<open>binary.BigEndian.Uint32(b[i:i+4])\<close>.\<close>

definition uint32_at :: "bytes \<Rightarrow> nat \<Rightarrow> u32 option" where
  "uint32_at b i =
     (if i + 4 \<le> length b
      then Some (be_uint32 (b ! i) (b ! (i + 1)) (b ! (i + 2)) (b ! (i + 3))) else None)"

lemma uint32_at_None_iff: "uint32_at b i = None \<longleftrightarrow> length b < i + 4"
  by (auto simp: uint32_at_def)

lemma uint32_at_append_put:
  "length p = i \<Longrightarrow> uint32_at (p @ put_uint32 w @ r) i = Some w"
  by (simp add: uint32_at_def put_uint32_def nth_append be_uint32_put)

lemma split_uint32_at:
  assumes "length p \<ge> 4"
  obtains w where "uint32_at p 0 = Some w" "p = put_uint32 w @ drop 4 p"
proof -
  from assms obtain a b c d r where "p = a # b # c # d # r"
    by (cases p; cases "tl p"; cases "tl (tl p)"; cases "tl (tl (tl p))") auto
  then show thesis
    using that by (simp add: uint32_at_def)
qed

lemma uint32_at_drop: "uint32_at p (i + j) = uint32_at (drop i p) j"
  by (auto simp: uint32_at_def add.assoc)

section \<open>bytes.Reader\<close>

text \<open>
  The state of a \<^verbatim>\<open>bytes.Reader\<close> is the unread rest.  \<open>read_byte\<close> is
  \<^verbatim>\<open>ReadByte\<close>; \<open>read_u32\<close> is \<^verbatim>\<open>binary.Read\<close> of a \<^verbatim>\<open>uint32\<close>, which on a short
  reader consumes what is there and fails; \<open>reader_read n\<close> is \<^verbatim>\<open>Read\<close> into a
  zeroed buffer of \<open>n\<close> bytes, which fails on an exhausted reader and otherwise
  fills a prefix of the buffer.
\<close>

definition read_byte :: "bytes \<Rightarrow> byte option \<times> bytes" where
  "read_byte r = (case r of [] \<Rightarrow> (None, []) | b # r' \<Rightarrow> (Some b, r'))"

definition read_u32 :: "bytes \<Rightarrow> u32 option \<times> bytes" where
  "read_u32 r = (case uint32_at r 0 of None \<Rightarrow> (None, []) | Some w \<Rightarrow> (Some w, drop 4 r))"

definition reader_read :: "nat \<Rightarrow> bytes \<Rightarrow> bytes option \<times> bytes" where
  "reader_read n r =
     (if r = [] then (None, [])
      else (Some (take n r @ replicate (n - length r) 0), drop n r))"

lemma read_u32_put [simp]: "read_u32 (put_uint32 w @ r) = (Some w, r)"
  using uint32_at_append_put [of "[]" 0 w r] by (simp add: read_u32_def)

lemma read_u32_short: "length r < 4 \<Longrightarrow> read_u32 r = (None, [])"
  by (simp add: read_u32_def uint32_at_def)

lemma reader_read_exact:
  "b \<noteq> [] \<Longrightarrow> reader_read (length b) (b @ r) = (Some b, r)"
  by (simp add: reader_read_def)

text \<open>The SSH wire form of a string: a 32-bit length and the bytes.\<close>

definition put_sshstring :: "bytes \<Rightarrow> bytes" where
  "put_sshstring b = put_uint32 (word_of_nat (length b)) @ b"

lemma length_put_sshstring [simp]: "length (put_sshstring b) = 4 + length b"
  by (simp add: put_sshstring_def)

definition get_sshstring :: "bytes \<Rightarrow> (bytes \<times> bytes) option" where
  "get_sshstring r =
     (case uint32_at r 0 of
        None \<Rightarrow> None
      | Some n \<Rightarrow>
          if unat n \<le> length (drop 4 r)
          then Some (take (unat n) (drop 4 r), drop (unat n) (drop 4 r)) else None)"

lemma get_put_sshstring [simp]:
  assumes "length b < 2 ^ 32"
  shows "get_sshstring (put_sshstring b @ r) = Some (b, r)"
proof -
  have "unat (word_of_nat (length b) :: u32) = length b"
    using assms by (simp add: unat_of_nat)
  then show ?thesis
    using uint32_at_append_put [of "[]" 0 "word_of_nat (length b)" "b @ r"]
    by (simp add: get_sshstring_def put_sshstring_def)
qed

section \<open>Association lists as Go maps with an iteration order\<close>

text \<open>
  Where the code ranges over a map, the map is an association list with distinct
  keys whose order is the (unspecified) order of that iteration; a theorem that
  holds for every such list holds for every order the runtime may choose.
\<close>

definition keys :: "('k \<times> 'v) list \<Rightarrow> 'k list" where
  "keys m = map fst m"

definition gomap :: "('k \<times> 'v) list \<Rightarrow> bool" where
  "gomap m = distinct (keys m)"

fun put :: "('k \<times> 'v) list \<Rightarrow> 'k \<Rightarrow> 'v \<Rightarrow> ('k \<times> 'v) list" where
  "put [] k v = [(k, v)]"
| "put ((k', v') # m) k v = (if k' = k then (k, v) # m else (k', v') # put m k v)"

definition del :: "('k \<times> 'v) list \<Rightarrow> 'k \<Rightarrow> ('k \<times> 'v) list" where
  "del m k = filter (\<lambda>e. fst e \<noteq> k) m"

lemma map_of_put [simp]: "map_of (put m k v) = (map_of m)(k \<mapsto> v)"
  by (induction m k v rule: put.induct) (auto simp: fun_upd_twist)

lemma map_of_del [simp]: "map_of (del m k) = (map_of m)(k := None)"
  by (induction m) (auto simp: del_def fun_eq_iff)

lemma set_keys_put [simp]: "set (keys (put m k v)) = insert k (set (keys m))"
  by (induction m k v rule: put.induct) (auto simp: keys_def)

lemma gomap_put [intro]: "gomap m \<Longrightarrow> gomap (put m k v)"
proof (induction m k v rule: put.induct)
  case (2 k' v' m k v)
  then show ?case
    using set_keys_put [of m k v] by (auto simp: gomap_def keys_def)
qed (simp add: gomap_def keys_def)

lemma gomap_del [intro]: "gomap m \<Longrightarrow> gomap (del m k)"
  by (induction m) (auto simp: gomap_def keys_def del_def)

lemma set_keys_del [simp]: "set (keys (del m k)) = set (keys m) - {k}"
  by (auto simp: keys_def del_def)

lemma gomap_Nil [simp]: "gomap []"
  by (simp add: gomap_def keys_def)

lemma set_keys_dom: "set (keys m) = dom (map_of m)"
  by (simp add: keys_def dom_map_of_conv_image_fst)

lemma set_del: "set (del m k) = {e \<in> set m. fst e \<noteq> k}"
  by (auto simp: del_def)

lemma gomap_mem: "gomap m \<Longrightarrow> (k, v) \<in> set m \<longleftrightarrow> map_of m k = Some v"
  by (auto simp: gomap_def keys_def map_of_is_SomeI dest: map_of_SomeD)

lemma del_put_fresh: "k \<notin> set (keys m) \<Longrightarrow> del (put m k v) k = m"
proof (induction m k v rule: put.induct)
  case (2 k' v' m k v)
  then show ?case
    by (auto simp: keys_def del_def)
qed (simp add: del_def)

lemma distinct_set_single: "distinct xs \<Longrightarrow> set xs = {x} \<Longrightarrow> xs = [x]"
  by (cases xs rule: remdups_adj.cases) auto

lemma gomap_unique: "gomap m \<Longrightarrow> e \<in> set m \<Longrightarrow> e' \<in> set m \<Longrightarrow> fst e = fst e' \<Longrightarrow> e = e'"
  by (metis gomap_mem prod.collapse option.inject)

lemma gomap_ran: "gomap m \<Longrightarrow> set (map snd m) = ran (map_of m)"
  by (force simp: ran_def gomap_mem [symmetric])

lemma length_del_le: "length (del m k) \<le> length m"
  by (simp add: del_def)

lemma length_put:
  "length (put m k v) = (if k \<in> set (keys m) then length m else Suc (length m))"
  by (induction m k v rule: put.induct) (auto simp: keys_def)

section \<open>Invariants of step relations\<close>

text \<open>The interface between a component modelled by a step relation and the properties of its runs.\<close>

locale step_invariant =
  fixes init :: "'s \<Rightarrow> bool" and step :: "'s \<Rightarrow> 's \<Rightarrow> bool" and inv :: "'s \<Rightarrow> bool"
  assumes init_inv: "init s \<Longrightarrow> inv s"
    and step_inv: "inv s \<Longrightarrow> step s s' \<Longrightarrow> inv s'"
begin

lemma run_inv: "inv s \<Longrightarrow> step\<^sup>*\<^sup>* s s' \<Longrightarrow> inv s'"
  by (rotate_tac, induction rule: rtranclp_induct) (auto intro: step_inv)

lemma reachable_inv: "init s \<Longrightarrow> step\<^sup>*\<^sup>* s s' \<Longrightarrow> inv s'"
  using init_inv run_inv by blast

end

end
