(* ===== verification/Go_Strings.thy ===== *)
theory Go_Strings
  imports Go_Base "HOL-Library.Sublist"
begin

text \<open>
  The parts of the Go standard library the program uses on strings:
  \<^verbatim>\<open>strings\<close> (index, split, join, prefix, trim), \<^verbatim>\<open>strconv\<close> (\<^verbatim>\<open>Itoa\<close>,
  \<^verbatim>\<open>ParseInt\<close>, base 10), \<^verbatim>\<open>net.SplitHostPort\<close> and \<^verbatim>\<open>net.JoinHostPort\<close>,
  with the round trips the components rest on.
\<close>

section \<open>strings\<close>

fun index_byte :: "'a \<Rightarrow> 'a list \<Rightarrow> nat option" where
  "index_byte c [] = None"
| "index_byte c (x # xs) = (if x = c then Some 0 else map_option Suc (index_byte c xs))"

definition last_index_byte :: "'a \<Rightarrow> 'a list \<Rightarrow> nat option" where
  "last_index_byte c s = map_option (\<lambda>i. length s - 1 - i) (index_byte c (rev s))"

definition has_prefix :: "string \<Rightarrow> string \<Rightarrow> bool" where
  "has_prefix s p = (take (length p) s = p)"

definition trim_prefix :: "string \<Rightarrow> string \<Rightarrow> string" where
  "trim_prefix s p = (if has_prefix s p then drop (length p) s else s)"

text \<open>\<^verbatim>\<open>strings.Split(s, sep)\<close> and \<^verbatim>\<open>strings.SplitN(s, sep, n)\<close> for a one-byte separator.\<close>

fun split_on :: "'a \<Rightarrow> 'a list \<Rightarrow> 'a list list" where
  "split_on c [] = [[]]"
| "split_on c (x # xs) =
     (if x = c then [] # split_on c xs
      else (case split_on c xs of [] \<Rightarrow> [[x]] | p # ps \<Rightarrow> (x # p) # ps))"

text \<open>\<^verbatim>\<open>strings.Cut(s, sep)\<close> for a one-byte separator: \<open>None\<close> is \<^verbatim>\<open>found == false\<close>.\<close>

definition cut :: "'a \<Rightarrow> 'a list \<Rightarrow> ('a list \<times> 'a list) option" where
  "cut c s = map_option (\<lambda>i. (take i s, drop (Suc i) s)) (index_byte c s)"

fun join :: "'a list \<Rightarrow> 'a list list \<Rightarrow> 'a list" where
  "join sep [] = []"
| "join sep [x] = x"
| "join sep (x # y # ys) = x @ sep @ join sep (y # ys)"

text \<open>The ASCII white space of \<^verbatim>\<open>strings.TrimSpace\<close>.\<close>

definition is_space :: "char \<Rightarrow> bool" where
  "is_space c \<longleftrightarrow> c \<in> {CHR 0x09, CHR 0x0A, CHR 0x0B, CHR 0x0C, CHR 0x0D, CHR '' ''}"

definition trim_space :: "string \<Rightarrow> string" where
  "trim_space s = rev (dropWhile is_space (rev (dropWhile is_space s)))"

text \<open>The ASCII part of \<^verbatim>\<open>strings.ToLower\<close> and \<^verbatim>\<open>strings.EqualFold\<close>.\<close>

definition to_lower :: "char \<Rightarrow> char" where
  "to_lower c = (if 65 \<le> (of_char c :: int) \<and> (of_char c :: int) \<le> 90 then char_of (of_char c + 32 :: int) else c)"

lemma index_byte_None_iff [simp]: "index_byte c s = None \<longleftrightarrow> c \<notin> set s"
  by (induction s) auto

lemma index_byte_Some_lt: "index_byte c s = Some i \<Longrightarrow> i < length s \<and> s ! i = c \<and> c \<notin> set (take i s)"
  by (induction s arbitrary: i) (auto split: if_splits)

lemma index_byte_append [simp]:
  "c \<notin> set xs \<Longrightarrow> index_byte c (xs @ c # ys) = Some (length xs)"
  by (induction xs) auto

lemma last_index_byte_None_iff [simp]: "last_index_byte c s = None \<longleftrightarrow> c \<notin> set s"
  by (simp add: last_index_byte_def)

lemma index_byte_None [simp]: "c \<notin> set s \<Longrightarrow> index_byte c s = None"
  by simp

lemma last_index_byte_None [simp]: "c \<notin> set s \<Longrightarrow> last_index_byte c s = None"
  by simp

lemma last_index_byte_append [simp]:
  "c \<notin> set ys \<Longrightarrow> last_index_byte c (xs @ c # ys) = Some (length xs)"
  by (simp add: last_index_byte_def)

lemma last_index_byte_Some:
  assumes "last_index_byte c s = Some i"
  shows "s = take i s @ c # drop (Suc i) s \<and> c \<notin> set (drop (Suc i) s) \<and> i < length s"
proof -
  from assms obtain j where j: "index_byte c (rev s) = Some j" "i = length s - 1 - j"
    by (auto simp: last_index_byte_def)
  from index_byte_Some_lt [OF j(1)] have *: "j < length s" "rev s ! j = c" "c \<notin> set (take j (rev s))"
    by auto
  then have "s ! i = c" "i < length s"
    by (auto simp: j(2) rev_nth)
  moreover have "set (drop (Suc i) s) = set (take j (rev s))"
    using * by (simp add: j(2) take_rev Suc_diff_Suc)
  ultimately show ?thesis
    using * id_take_nth_drop [of i s] by auto
qed

lemma cut_append [simp]: "c \<notin> set xs \<Longrightarrow> cut c (xs @ c # ys) = Some (xs, ys)"
  by (simp add: cut_def)

lemma cut_None_iff [simp]: "cut c s = None \<longleftrightarrow> c \<notin> set s"
  by (simp add: cut_def)

lemma cut_Some: "cut c s = Some (a, b) \<Longrightarrow> s = a @ c # b \<and> c \<notin> set a"
  by (auto simp: cut_def dest!: index_byte_Some_lt) (metis id_take_nth_drop)

lemma split_on_not_Nil [simp]: "split_on c s \<noteq> []"
  by (induction s) (auto split: list.splits)

lemma join_split_on [simp]: "join [c] (split_on c s) = s"
proof (induction s)
  case (Cons x s)
  show ?case
  proof (cases "split_on c s")
    case (Cons p ps)
    with Cons.IH show ?thesis
      by (cases ps) auto
  qed simp
qed simp

lemma split_on_no_sep: "p \<in> set (split_on c s) \<Longrightarrow> c \<notin> set p"
proof (induction s arbitrary: p)
  case (Cons x s)
  show ?case
  proof (cases "split_on c s")
    case (Cons q qs)
    with Cons.IH Cons.prems show ?thesis
      by (auto split: if_splits)
  qed simp
qed simp

lemma split_on_single: "c \<notin> set s \<Longrightarrow> split_on c s = [s]"
  by (induction s) auto

lemma split_on_append_sep: "c \<notin> set s \<Longrightarrow> split_on c (s @ c # t) = s # split_on c t"
  by (induction s) auto

lemma split_on_join:
  "ps \<noteq> [] \<Longrightarrow> (\<forall>p \<in> set ps. c \<notin> set p) \<Longrightarrow> split_on c (join [c] ps) = ps"
proof (induction ps rule: induct_list012)
  case (3 x y zs)
  then show ?case
    by (simp add: split_on_append_sep)
qed (auto simp: split_on_single)

lemma has_prefix_append [simp]: "has_prefix (p @ s) p"
  by (simp add: has_prefix_def)

lemma has_prefix_iff: "has_prefix s p \<longleftrightarrow> prefix p s"
  by (metis append_eq_conv_conj append_take_drop_id has_prefix_def prefix_def)

section \<open>strconv\<close>

definition digit :: "int \<Rightarrow> char" where
  "digit d = char_of (48 + d)"

definition is_digit :: "char \<Rightarrow> bool" where
  "is_digit c \<longleftrightarrow> 48 \<le> (of_char c :: int) \<and> (of_char c :: int) \<le> 57"

definition digit_val :: "char \<Rightarrow> int" where
  "digit_val c = of_char c - 48"

function utoa :: "int \<Rightarrow> string" where
  "utoa n = (if n < 10 then [digit n] else utoa (n div 10) @ [digit (n mod 10)])"
  by auto

termination
  by (relation "measure nat") auto

declare utoa.simps [simp del]

definition itoa :: "int \<Rightarrow> string" where
  "itoa i = (if i < 0 then CHR ''-'' # utoa (- i) else utoa i)"

text \<open>
  \<^verbatim>\<open>strconv.ParseUint(s, 10, w)\<close>: the loop stops at the first byte that is not a
  digit and at the first prefix whose value does not fit.
\<close>

fun parse_uint_loop :: "int \<Rightarrow> int \<Rightarrow> string \<Rightarrow> int res" where
  "parse_uint_loop mx acc [] = Inr acc"
| "parse_uint_loop mx acc (c # cs) =
     (if \<not> is_digit c then Inl (Errorf ''invalid syntax'' [])
      else if mx < acc * 10 + digit_val c then Inl (Errorf ''value out of range'' [])
      else parse_uint_loop mx (acc * 10 + digit_val c) cs)"

definition parse_uint :: "nat \<Rightarrow> string \<Rightarrow> int res" where
  "parse_uint w s =
     (if s = [] then Inl (Errorf ''invalid syntax'' []) else parse_uint_loop (2 ^ w - 1) 0 s)"

definition parse_int :: "nat \<Rightarrow> string \<Rightarrow> int res" where
  "parse_int w s =
     (let neg = (s \<noteq> [] \<and> hd s = CHR ''-'');
          t = (if s \<noteq> [] \<and> hd s \<in> {CHR ''-'', CHR ''+''} then tl s else s)
      in bind_res (parse_uint w t) (\<lambda>un.
           if \<not> neg \<and> 2 ^ (w - 1) \<le> un \<or> neg \<and> 2 ^ (w - 1) < un
           then Inl (Errorf ''value out of range'' [])
           else Inr (if neg then - un else un)))"

lemma of_char_digit: "0 \<le> d \<Longrightarrow> d < 10 \<Longrightarrow> (of_char (digit d) :: int) = 48 + d"
  by (simp add: digit_def)

lemma is_digit_digit [simp]: "0 \<le> d \<Longrightarrow> d < 10 \<Longrightarrow> is_digit (digit d)"
  by (simp add: is_digit_def of_char_digit)

lemma digit_val_digit [simp]: "0 \<le> d \<Longrightarrow> d < 10 \<Longrightarrow> digit_val (digit d) = d"
  by (simp add: digit_val_def of_char_digit)

lemma is_digit_in:
  "is_digit c \<Longrightarrow> c \<notin> {CHR '':'', CHR ''['', CHR '']'', CHR ''-'', CHR ''+'', CHR ''/''}"
  by (auto simp: is_digit_def)

lemma utoa_not_Nil [simp]: "utoa n \<noteq> []"
  by (subst utoa.simps) simp

lemma utoa_digits: "0 \<le> n \<Longrightarrow> c \<in> set (utoa n) \<Longrightarrow> is_digit c"
proof (induction n rule: utoa.induct)
  case (1 n)
  show ?case
  proof (cases "n < 10")
    case True
    with 1(2,3) show ?thesis by (subst (asm) utoa.simps) simp
  next
    case False
    then have "c \<in> set (utoa (n div 10)) \<or> c = digit (n mod 10)"
      using 1(3) by (subst (asm) utoa.simps) auto
    with False 1(1) show ?thesis by auto
  qed
qed

lemma parse_uint_loop_append:
  "parse_uint_loop mx acc (s @ t) = bind_res (parse_uint_loop mx acc s) (\<lambda>a. parse_uint_loop mx a t)"
  by (induction mx acc s rule: parse_uint_loop.induct) auto

lemma parse_uint_loop_utoa: "0 \<le> n \<Longrightarrow> n \<le> mx \<Longrightarrow> parse_uint_loop mx 0 (utoa n) = Inr n"
proof (induction n rule: utoa.induct)
  case (1 n)
  show ?case
  proof (cases "n < 10")
    case True
    with 1 show ?thesis by (subst utoa.simps) simp
  next
    case False
    with 1 have "parse_uint_loop mx 0 (utoa (n div 10)) = Inr (n div 10)"
      by simp
    with False 1(3) show ?thesis
      by (subst utoa.simps) (simp add: parse_uint_loop_append)
  qed
qed

lemma hd_utoa: "0 \<le> n \<Longrightarrow> hd (utoa n) \<notin> {CHR ''-'', CHR ''+''}"
  using is_digit_in [OF utoa_digits [OF _ hd_in_set [OF utoa_not_Nil]]] by blast

lemma parse_int_itoa:
  assumes "- (2 ^ 31) \<le> i" "i < 2 ^ 31"
  shows "parse_int 32 (itoa i) = Inr i"
proof (cases "i < 0")
  case True
  then have "parse_uint 32 (utoa (- i)) = Inr (- i)"
    using assms parse_uint_loop_utoa [of "- i" "2 ^ 32 - 1"] by (simp add: parse_uint_def)
  with True assms show ?thesis
    by (simp add: parse_int_def itoa_def Let_def)
next
  case False
  then have "parse_uint 32 (utoa i) = Inr i"
    using assms parse_uint_loop_utoa [of i "2 ^ 32 - 1"] by (simp add: parse_uint_def)
  with False assms hd_utoa [of i] show ?thesis
    by (simp add: parse_int_def itoa_def Let_def)
qed

lemma parse_uint_utoa: "0 \<le> n \<Longrightarrow> n < 2 ^ w \<Longrightarrow> parse_uint w (utoa n) = Inr n"
  using parse_uint_loop_utoa [of n "2 ^ w - 1"] by (simp add: parse_uint_def)

lemma itoa_chars: "c \<in> set (itoa i) \<Longrightarrow> c \<notin> {CHR '':'', CHR ''['', CHR '']'', CHR ''/''}"
proof -
  assume "c \<in> set (itoa i)"
  then have "c = CHR ''-'' \<or> is_digit c"
    using utoa_digits [of "- i" c] utoa_digits [of i c] by (auto simp: itoa_def split: if_splits)
  then show ?thesis
    using is_digit_in by auto
qed

section \<open>net.SplitHostPort and net.JoinHostPort\<close>

definition addr_err :: "string \<Rightarrow> string \<Rightarrow> 'a res" where
  "addr_err addr why = Inl (Errorf ''address %s: %s'' [addr, why])"

definition has :: "char \<Rightarrow> string \<Rightarrow> bool" where
  "has c s = (index_byte c s \<noteq> None)"

definition split_host_port :: "string \<Rightarrow> (string \<times> string) res" where
  "split_host_port hp =
    (case last_index_byte (CHR '':'') hp of
       None \<Rightarrow> addr_err hp ''missing port in address''
     | Some i \<Rightarrow>
         let finish = (\<lambda>host j k.
               if has (CHR ''['') (drop j hp) then addr_err hp ''unexpected '[' in address''
               else if has (CHR '']'') (drop k hp) then addr_err hp ''unexpected ']' in address''
               else Inr (host, drop (Suc i) hp))
         in if hp ! 0 = CHR ''['' then
              (case index_byte (CHR '']'') hp of
                 None \<Rightarrow> addr_err hp ''missing ']' in address''
               | Some e \<Rightarrow>
                   if Suc e = length hp then addr_err hp ''missing port in address''
                   else if Suc e = i then finish (take (e - 1) (drop 1 hp)) 1 (Suc e)
                   else if hp ! Suc e = CHR '':'' then addr_err hp ''too many colons in address''
                   else addr_err hp ''missing port in address'')
            else if has (CHR '':'') (take i hp) then addr_err hp ''too many colons in address''
            else finish (take i hp) 0 0)"

definition join_host_port :: "string \<Rightarrow> string \<Rightarrow> string" where
  "join_host_port host port =
     (if has (CHR '':'') host then ''['' @ host @ '']:'' @ port else host @ '':'' @ port)"

lemma has_iff [simp]: "has c s \<longleftrightarrow> c \<in> set s"
  by (simp add: has_def)

lemma split_join_host_port:
  assumes "set h \<inter> {CHR ''['', CHR '']''} = {}"
    and "set p \<inter> {CHR '':'', CHR ''['', CHR '']''} = {}"
  shows "split_host_port (join_host_port h p) = Inr (h, p)"
proof (cases "CHR '':'' \<in> set h")
  case True
  let ?hp = "CHR ''['' # h @ CHR '']'' # CHR '':'' # p"
  have "last_index_byte (CHR '':'') ?hp = Some (length h + 2)"
    using last_index_byte_append [of "CHR '':''" p "CHR ''['' # h @ [CHR '']'']"] assms(2) by simp
  moreover have "index_byte (CHR '']'') ?hp = Some (length h + 1)"
    using index_byte_append [of "CHR '']''" "CHR ''['' # h" "CHR '':'' # p"] assms(1) by simp
  ultimately show ?thesis
    using True assms by (auto simp: split_host_port_def join_host_port_def Let_def)
next
  case False
  have hd: "(h @ CHR '':'' # p) ! 0 \<noteq> CHR ''[''"
    using assms(1) by (cases h) auto
  have "last_index_byte (CHR '':'') (h @ CHR '':'' # p) = Some (length h)"
    using assms(2) by simp
  with False hd assms show ?thesis
    by (auto simp: split_host_port_def join_host_port_def Let_def)
qed

lemma split_host_port_no_colon:
  "CHR '':'' \<notin> set hp \<Longrightarrow> split_host_port hp = addr_err hp ''missing port in address''"
  by (simp add: split_host_port_def)

end
