(* ===== verification/Plugin_Api.thy ===== *)
theory Plugin_Api
  imports Go_Strings
begin

text \<open>
  The plugin interface of \<^verbatim>\<open>libplugin\<close>: the messages a plugin and the daemon
  exchange (\<^verbatim>\<open>plugin.proto\<close>), the names of the authentication methods, the
  helpers of \<^verbatim>\<open>util.go\<close> and the address a reply of a plugin stands for
  (\<^verbatim>\<open>plugin_ext.go\<close>).

  A Go map that is only looked up and merged is a map \<open>string \<rightharpoonup> string\<close>; the nil
  map and the empty map are the same value, as for every reader in the code.
  A bytes field of a message is nil on the receiving side exactly when it is empty.
\<close>

section \<open>Messages\<close>

type_synonym strmap = "string \<rightharpoonup> string"

record conn_meta =
  UserName :: string
  FromAddr :: string
  UniqId :: string
  Metadata :: strmap

definition GetMeta :: "'a conn_meta_scheme \<Rightarrow> string \<Rightarrow> string" where
  "GetMeta c k = (case Metadata c k of None \<Rightarrow> '''' | Some v \<Rightarrow> v)"

datatype upstream_auth =
    NoneAuth
  | PasswordAuth string
  | PrivateKeyAuth (PrivateKey: bytes) (CaPublicKey: bytes)
  | RemoteSignerAuth string
  | NextPluginAuth strmap
  | RetryCurrentPluginAuth strmap

record upstream =
  Host :: string
  Port :: int
  UpUserName :: string
  IgnoreHostKey :: bool
  Uri :: string
  KnownHostsData :: bytes
  UpEnv :: strmap
  Auth :: "upstream_auth option"

definition empty_upstream :: upstream where
  "empty_upstream = \<lparr>Host = '''', Port = 0, UpUserName = '''', IgnoreHostKey = False, Uri = '''',
     KnownHostsData = [], UpEnv = Map.empty, Auth = None\<rparr>"

text \<open>
  The messages of the keyboard-interactive stream.  \<open>peer\<close> is the program at the
  other end of such a stream: it sends a message, waits for one, or ends the
  stream (\<open>PStop None\<close> is a clean end, read as \<^verbatim>\<open>io.EOF\<close>).
\<close>

datatype ki_msg =
    PromptRequest (PrName: string) (PrInstruction: string) (PrQuestions: "(string \<times> bool) list")
  | UserResponse "string list"
  | MetaRequest
  | MetaResponse "conn_meta"
  | FinishRequest "upstream option"

datatype peer =
    PStop "goerr option"
  | PSend ki_msg peer
  | PRecv "ki_msg \<Rightarrow> peer"

section \<open>Authentication methods\<close>

text \<open>\<^verbatim>\<open>AuthMethod\<close> is an \<^verbatim>\<open>int32\<close>; \<open>-1\<close> stands for an unknown name.\<close>

type_synonym auth_method = int

abbreviation AuthMethod_NONE :: auth_method where "AuthMethod_NONE \<equiv> 0"
abbreviation AuthMethod_PASSWORD :: auth_method where "AuthMethod_PASSWORD \<equiv> 1"
abbreviation AuthMethod_PUBLICKEY :: auth_method where "AuthMethod_PUBLICKEY \<equiv> 2"
abbreviation AuthMethod_KEYBOARD_INTERACTIVE :: auth_method where
  "AuthMethod_KEYBOARD_INTERACTIVE \<equiv> 3"

definition AuthMethodTypeToName :: "auth_method \<Rightarrow> string" where
  "AuthMethodTypeToName a =
     (if a = AuthMethod_NONE then ''none''
      else if a = AuthMethod_PASSWORD then ''password''
      else if a = AuthMethod_PUBLICKEY then ''publickey''
      else if a = AuthMethod_KEYBOARD_INTERACTIVE then ''keyboard-interactive''
      else '''')"

definition AuthMethodFromName :: "string \<Rightarrow> auth_method" where
  "AuthMethodFromName n =
     (if n = ''none'' then AuthMethod_NONE
      else if n = ''password'' then AuthMethod_PASSWORD
      else if n = ''publickey'' then AuthMethod_PUBLICKEY
      else if n = ''keyboard-interactive'' then AuthMethod_KEYBOARD_INTERACTIVE
      else - 1)"

text \<open>The loop \<^verbatim>\<open>for _, method := range ms { m := TypeToName(method); if m == "" { continue } ... }\<close>,
  which both ends of the wire use.\<close>

definition method_names :: "auth_method list \<Rightarrow> string list" where
  "method_names ms = filter (\<lambda>m. m \<noteq> '''') (map AuthMethodTypeToName ms)"

section \<open>util.go and plugin_ext.go\<close>

text \<open>The named results \<^verbatim>\<open>(host, port, err)\<close> are all returned, also with an error.\<close>

definition SplitHostPortForSSH :: "string \<Rightarrow> string \<times> int \<times> goerr option" where
  "SplitHostPortForSSH addr =
    (let (host, port, err, done) =
       (case split_host_port addr of
          Inr (h, p) \<Rightarrow>
            (case parse_int 32 p of
               Inl e \<Rightarrow> (h, 0, Some e, True)
             | Inr n \<Rightarrow> (h, n, None, False))
        | Inl e \<Rightarrow>
            (if addr \<noteq> '''' then
               (case split_host_port (addr @ '':22'') of
                  Inr _ \<Rightarrow> (addr, 22, None, False)
                | Inl e' \<Rightarrow> (addr, 0, Some e', False))
             else (addr, 0, Some e, False)))
     in if done then (host, port, err)
        else if host = '''' then (host, port, Some (Errorf ''empty addr'' []))
        else (host, port, err))"

text \<open>\<^verbatim>\<open>DialForSSH\<close> calls \<^verbatim>\<open>net.Dial("tcp", addr)\<close>; the dialler is the parameter.\<close>

definition DialForSSH :: "(string \<Rightarrow> string \<Rightarrow> 'conn res) \<Rightarrow> string \<Rightarrow> 'conn res" where
  "DialForSSH net_dial addr =
     net_dial ''tcp''
       (if is_err (split_host_port addr) \<and> addr \<noteq> '''' \<and> \<not> is_err (split_host_port (addr @ '':22''))
        then addr @ '':22'' else addr)"

definition GetOrGenerateUri :: "upstream \<Rightarrow> string" where
  "GetOrGenerateUri x =
     (if Uri x \<noteq> '''' then Uri x
      else let port = (if Port x \<le> 0 then 22 else Port x)
           in ''tcp://'' @ join_host_port (Host x) (itoa port))"

definition CreatePasswordAuth :: "bytes \<Rightarrow> upstream_auth" where
  "CreatePasswordAuth password = PasswordAuth (str password)"

definition CreatePrivateKeyAuth :: "bytes \<Rightarrow> bytes list \<Rightarrow> upstream_auth" where
  "CreatePrivateKeyAuth key optionalSignedCaPublicKey =
     PrivateKeyAuth key (case optionalSignedCaPublicKey of [] \<Rightarrow> [] | c # _ \<Rightarrow> c)"

section \<open>Properties\<close>

lemma AuthMethodFromName_TypeToName [simp]:
  "AuthMethodTypeToName a \<noteq> '''' \<Longrightarrow> AuthMethodFromName (AuthMethodTypeToName a) = a"
  by (simp add: AuthMethodTypeToName_def AuthMethodFromName_def split: if_splits)

lemma AuthMethodTypeToName_FromName [simp]:
  "AuthMethodFromName n \<noteq> - 1 \<Longrightarrow> AuthMethodTypeToName (AuthMethodFromName n) = n"
  by (simp add: AuthMethodTypeToName_def AuthMethodFromName_def split: if_splits)

lemma AuthMethodFromName_known:
  "AuthMethodFromName n \<noteq> - 1 \<Longrightarrow> n \<noteq> ''''"
  by (auto simp: AuthMethodFromName_def)

lemma method_names_map_FromName [simp]:
  "\<forall>n \<in> set ns. AuthMethodFromName n \<noteq> - 1 \<Longrightarrow> method_names (map AuthMethodFromName ns) = ns"
  by (induction ns) (auto simp: method_names_def AuthMethodFromName_known)

lemma SplitHostPortForSSH_port:
  assumes "h \<noteq> ''''" "set h \<inter> {CHR ''['', CHR '']''} = {}" "- (2 ^ 31) \<le> p" "p < 2 ^ 31"
  shows "SplitHostPortForSSH (join_host_port h (itoa p)) = (h, p, None)"
proof -
  have "split_host_port (join_host_port h (itoa p)) = Inr (h, itoa p)"
    using itoa_chars [of _ p] assms(2) by (intro split_join_host_port) auto
  then show ?thesis
    using assms by (simp add: SplitHostPortForSSH_def parse_int_itoa Let_def)
qed

lemma SplitHostPortForSSH_default:
  assumes "h \<noteq> ''''" "set h \<inter> {CHR '':'', CHR ''['', CHR '']''} = {}"
  shows "SplitHostPortForSSH h = (h, 22, None)"
proof -
  have "split_host_port (h @ '':22'') = Inr (h, ''22'')"
    using split_join_host_port [of h "''22''"] assms by (auto simp: join_host_port_def)
  moreover have "split_host_port h = addr_err h ''missing port in address''"
    using assms by (simp add: split_host_port_no_colon)
  ultimately show ?thesis
    using assms by (simp add: SplitHostPortForSSH_def addr_err_def Let_def)
qed

text \<open>
  The target a plugin names is the address the daemon dials.  For a host
  without brackets (a name, an IPv4 or an IPv6 address) and a port, the
  \<^verbatim>\<open>host:port\<close> form (with brackets around an IPv6 address) is split into that host and that port
  without error, and the URI generated for the upstream with that host and port is
  \<^verbatim>\<open>tcp://\<close> followed by the same \<^verbatim>\<open>host:port\<close>; a bare name or IPv4 address gets port 22.
\<close>

theorem ssh_target_uri:
  assumes "h \<noteq> ''''" "set h \<inter> {CHR ''['', CHR '']''} = {}" "0 < p" "p < 2 ^ 31"
  shows "SplitHostPortForSSH (join_host_port h (itoa p)) = (h, p, None)
    \<and> GetOrGenerateUri (empty_upstream\<lparr>Host := h, Port := p\<rparr>) = ''tcp://'' @ join_host_port h (itoa p)
    \<and> (CHR '':'' \<notin> set h \<longrightarrow> SplitHostPortForSSH h = (h, 22, None))"
  using assms SplitHostPortForSSH_port [of h p] SplitHostPortForSSH_default [of h]
  by (auto simp: GetOrGenerateUri_def empty_upstream_def)

theorem ssh_target_uri_witness:
  "SplitHostPortForSSH (join_host_port ''::1'' (itoa 2222)) = (''::1'', 2222, None)
    \<and> GetOrGenerateUri (empty_upstream\<lparr>Host := ''::1'', Port := 2222\<rparr>) =
        ''tcp://'' @ join_host_port ''::1'' (itoa 2222)"
  using ssh_target_uri [of "''::1''" 2222] by simp

text \<open>
  An IPv6 literal in brackets without a port keeps its brackets: the host that is
  returned is not the one \<^verbatim>\<open>[::1]:22\<close> gives, and the URI generated from it has
  the brackets twice, an address that cannot be split again.
\<close>

lemma bracketed_host_without_port:
  "SplitHostPortForSSH ''[::1]'' = (''[::1]'', 22, None)"
  "SplitHostPortForSSH ''[::1]:22'' = (''::1'', 22, None)"
  "GetOrGenerateUri (empty_upstream\<lparr>Host := ''[::1]'', Port := 22\<rparr>) = ''tcp://[[::1]]:22''"
  "is_err (split_host_port ''[[::1]]:22'')"
  by code_simp+

end
