(* ===== verification/Plugin_Server.thy ===== *)
theory Plugin_Server
  imports Plugin_Api
begin

text \<open>
  The plugin side of the wire, \<^verbatim>\<open>libplugin/pluginbase.go\<close>: the gRPC server that a
  plugin runs around its callbacks.  A callback acts on the plugin's own state
  \<open>'s\<close>; an absent callback is \<open>None\<close>, as the nil function value is.
\<close>

section \<open>SshPiperPluginConfig\<close>

type_synonym ('s, 'a) act = "'s \<Rightarrow> 's \<times> 'a"

text \<open>
  The keyboard-interactive callback of a plugin asks questions through the
  function it is given: \<open>KiAsk user instruction question echo k\<close> calls it and goes on
  with its answer, \<open>KiDone r\<close> is its return value.
\<close>

datatype ki_prog =
    KiDone "upstream option res"
  | KiAsk string string string bool "string res \<Rightarrow> ki_prog"

record 's plugin_config =
  NewConnectionCallback :: "(conn_meta \<Rightarrow> ('s, unit res) act) option"
  NextAuthMethodsCallback :: "(conn_meta \<Rightarrow> ('s, string list res) act) option"
  NoClientAuthCallback :: "(conn_meta \<Rightarrow> ('s, upstream option res) act) option"
  PasswordCallback :: "(conn_meta \<Rightarrow> bytes \<Rightarrow> ('s, upstream option res) act) option"
  PublicKeyCallback :: "(conn_meta \<Rightarrow> bytes \<Rightarrow> ('s, upstream option res) act) option"
  KeyboardInteractiveCallback :: "(conn_meta \<Rightarrow> ki_prog) option"
  UpstreamAuthFailureCallback ::
    "(conn_meta \<Rightarrow> string \<Rightarrow> goerr \<Rightarrow> string list \<Rightarrow> ('s, unit) act) option"
  BannerCallback :: "(conn_meta \<Rightarrow> ('s, string) act) option"
  VerifyHostKeyCallback :: "(conn_meta \<Rightarrow> string \<Rightarrow> string \<Rightarrow> bytes \<Rightarrow> ('s, unit res) act) option"
  PipeCreateErrorCallback :: "(string \<Rightarrow> goerr \<Rightarrow> ('s, unit) act) option"
  PipeStartCallback :: "(conn_meta \<Rightarrow> ('s, unit) act) option"
  PipeErrorCallback :: "(conn_meta \<Rightarrow> goerr \<Rightarrow> ('s, unit) act) option"
  CreateConnCallback :: bool

definition empty_plugin_config :: "'s plugin_config" where
  "empty_plugin_config = \<lparr>NewConnectionCallback = None, NextAuthMethodsCallback = None,
     NoClientAuthCallback = None, PasswordCallback = None, PublicKeyCallback = None,
     KeyboardInteractiveCallback = None, UpstreamAuthFailureCallback = None,
     BannerCallback = None, VerifyHostKeyCallback = None, PipeCreateErrorCallback = None,
     PipeStartCallback = None, PipeErrorCallback = None, CreateConnCallback = False\<rparr>"

definition unimplemented :: "string \<Rightarrow> 'a res" where
  "unimplemented m = Inl (Status ''Unimplemented'' (''method '' @ m @ '' not implemented'') [])"

section \<open>The RPC handlers\<close>

definition on :: "bool \<Rightarrow> 'a \<Rightarrow> 'a list" where
  "on b x = (if b then [x] else [])"

definition ListCallbacks :: "'s plugin_config \<Rightarrow> string list" where
  "ListCallbacks c =
     on (NewConnectionCallback c \<noteq> None) ''NewConnection'' @
     on (CreateConnCallback c) ''CreateConn'' @
     on (NextAuthMethodsCallback c \<noteq> None) ''NextAuthMethods'' @
     on (NoClientAuthCallback c \<noteq> None) ''NoneAuth'' @
     on (PasswordCallback c \<noteq> None) ''PasswordAuth'' @
     on (PublicKeyCallback c \<noteq> None) ''PublicKeyAuth'' @
     on (KeyboardInteractiveCallback c \<noteq> None) ''KeyboardInteractiveAuth'' @
     on (UpstreamAuthFailureCallback c \<noteq> None) ''UpstreamAuthFailure'' @
     on (BannerCallback c \<noteq> None) ''Banner'' @
     on (VerifyHostKeyCallback c \<noteq> None) ''VerifyHostKey'' @
     on (PipeStartCallback c \<noteq> None) ''PipeStart'' @
     on (PipeErrorCallback c \<noteq> None) ''PipeError'' @
     on (PipeCreateErrorCallback c \<noteq> None) ''PipeCreateError''"

definition srv_NewConnection :: "'s plugin_config \<Rightarrow> conn_meta \<Rightarrow> ('s, unit res) act" where
  "srv_NewConnection c meta s =
     (case NewConnectionCallback c of
        None \<Rightarrow> (s, unimplemented ''NewConnection'')
      | Some f \<Rightarrow> f meta s)"

fun to_methods :: "string list \<Rightarrow> auth_method list res" where
  "to_methods [] = Inr []"
| "to_methods (m # ms) =
     (if AuthMethodFromName m = - 1
      then Inl (Status ''InvalidArgument'' ''unknown method %s'' [m])
      else bind_res (to_methods ms) (\<lambda>r. Inr (AuthMethodFromName m # r)))"

definition srv_NextAuthMethods :: "'s plugin_config \<Rightarrow> conn_meta \<Rightarrow> ('s, auth_method list res) act" where
  "srv_NextAuthMethods c meta s =
     (case NextAuthMethodsCallback c of
        None \<Rightarrow> (s, unimplemented ''NextAuthMethods'')
      | Some f \<Rightarrow> (case f meta s of (s', r) \<Rightarrow> (s', bind_res r to_methods)))"

definition srv_NoneAuth :: "'s plugin_config \<Rightarrow> conn_meta \<Rightarrow> ('s, upstream option res) act" where
  "srv_NoneAuth c meta s =
     (case NoClientAuthCallback c of
        None \<Rightarrow> (s, unimplemented ''NoneAuth'')
      | Some f \<Rightarrow> f meta s)"

definition srv_PasswordAuth ::
  "'s plugin_config \<Rightarrow> conn_meta \<Rightarrow> bytes \<Rightarrow> ('s, upstream option res) act" where
  "srv_PasswordAuth c meta password s =
     (case PasswordCallback c of
        None \<Rightarrow> (s, unimplemented ''PasswordAuth'')
      | Some f \<Rightarrow> f meta password s)"

definition srv_PublicKeyAuth ::
  "'s plugin_config \<Rightarrow> conn_meta \<Rightarrow> bytes \<Rightarrow> ('s, upstream option res) act" where
  "srv_PublicKeyAuth c meta key s =
     (case PublicKeyCallback c of
        None \<Rightarrow> (s, unimplemented ''PublicKeyAuth'')
      | Some f \<Rightarrow> f meta key s)"

text \<open>
  The challenge function the handler passes to the callback: it sends a prompt,
  returns at once when there is no question, and otherwise waits for one message
  that must be a response with exactly one answer.  \<open>ki_serve\<close> runs the callback
  with that function and ends with the finish message.
\<close>

fun ki_answer :: "ki_msg \<Rightarrow> string res" where
  "ki_answer (UserResponse [a]) = Inr a"
| "ki_answer (UserResponse as) =
     Inl (Status ''InvalidArgument'' ''expected 1 answer, got %d'' [utoa (int (length as))])"
| "ki_answer _ = Inl (Status ''InvalidArgument'' ''missing user input'' [])"

primrec ki_serve :: "ki_prog \<Rightarrow> peer" where
  "ki_serve (KiDone r) =
     (case r of Inl e \<Rightarrow> PStop (Some e) | Inr u \<Rightarrow> PSend (FinishRequest u) (PStop None))"
| "ki_serve (KiAsk user instruction question echo k) =
     PSend (PromptRequest user instruction (on (question \<noteq> '''') (question, echo)))
       (if question = '''' then ki_serve (k (Inr ''''))
        else PRecv (\<lambda>m. ki_serve (k (ki_answer m))))"

definition srv_KeyboardInteractiveAuth :: "'s plugin_config \<Rightarrow> peer" where
  "srv_KeyboardInteractiveAuth c =
     (case KeyboardInteractiveCallback c of
        None \<Rightarrow> PStop (Some (Status ''Unimplemented'' ''method KeyboardInteractiveAuth not implemented'' []))
      | Some f \<Rightarrow>
          PSend MetaRequest (PRecv (\<lambda>m.
            case m of
              MetaResponse meta \<Rightarrow> ki_serve (f meta)
            | _ \<Rightarrow> PStop (Some (Status ''InvalidArgument'' ''missing meta'' [])))))"

definition srv_UpstreamAuthFailureNotice ::
  "'s plugin_config \<Rightarrow> conn_meta \<Rightarrow> string \<Rightarrow> string \<Rightarrow> auth_method list \<Rightarrow> ('s, unit res) act" where
  "srv_UpstreamAuthFailureNotice c meta method err allowed s =
     (case UpstreamAuthFailureCallback c of
        None \<Rightarrow> (s, unimplemented ''UpstreamAuthFailureNotice'')
      | Some f \<Rightarrow> (fst (f meta method (Errorf ''%v'' [err]) (method_names allowed) s), Inr ()))"

definition srv_Banner :: "'s plugin_config \<Rightarrow> conn_meta \<Rightarrow> ('s, string res) act" where
  "srv_Banner c meta s =
     (case BannerCallback c of
        None \<Rightarrow> (s, unimplemented ''Banner'')
      | Some f \<Rightarrow> (case f meta s of (s', msg) \<Rightarrow> (s', Inr msg)))"

definition srv_VerifyHostKey ::
  "'s plugin_config \<Rightarrow> conn_meta \<Rightarrow> string \<Rightarrow> string \<Rightarrow> bytes \<Rightarrow> ('s, bool res) act" where
  "srv_VerifyHostKey c meta hostname netaddr key s =
     (case VerifyHostKeyCallback c of
        None \<Rightarrow> (s, unimplemented ''VerifyHostKey'')
      | Some f \<Rightarrow> (case f meta hostname netaddr key s of
            (s', Inl e) \<Rightarrow> (s', Inl e)
          | (s', Inr _) \<Rightarrow> (s', Inr True)))"

definition srv_PipeStartNotice :: "'s plugin_config \<Rightarrow> conn_meta \<Rightarrow> ('s, unit res) act" where
  "srv_PipeStartNotice c meta s =
     (case PipeStartCallback c of
        None \<Rightarrow> (s, unimplemented ''PipeStartNotice'')
      | Some f \<Rightarrow> (fst (f meta s), Inr ()))"

definition srv_PipeErrorNotice :: "'s plugin_config \<Rightarrow> conn_meta \<Rightarrow> string \<Rightarrow> ('s, unit res) act" where
  "srv_PipeErrorNotice c meta err s =
     (case PipeErrorCallback c of
        None \<Rightarrow> (s, unimplemented ''PipeErrorNotice'')
      | Some f \<Rightarrow> (fst (f meta (Errorf ''%v'' [err]) s), Inr ()))"

definition srv_PipeCreateErrorNotice :: "'s plugin_config \<Rightarrow> string \<Rightarrow> string \<Rightarrow> ('s, unit res) act" where
  "srv_PipeCreateErrorNotice c from err s =
     (case PipeCreateErrorCallback c of
        None \<Rightarrow> (s, unimplemented ''PipeCreateErrorNotice'')
      | Some f \<Rightarrow> (fst (f from (Errorf ''%v'' [err]) s), Inr ()))"

text \<open>
  The log lines of a plugin go through a channel of capacity 1000 with a
  non-blocking send: a line that finds the channel full is dropped.
\<close>

definition log_send :: "string list \<Rightarrow> string \<Rightarrow> string list" where
  "log_send chan line = (if length chan < 1000 then chan @ [line] else chan)"

section \<open>Lemmas\<close>

lemma set_on [simp]: "set (on b x) = (if b then {x} else {})"
  by (cases b) (simp_all add: on_def)

lemma to_methods_ok:
  "to_methods ns = Inr ms \<longleftrightarrow> (\<forall>n \<in> set ns. AuthMethodFromName n \<noteq> - 1) \<and> ms = map AuthMethodFromName ns"
proof (induction ns arbitrary: ms)
  case (Cons n ns)
  show ?case
    by (cases "AuthMethodFromName n = - 1") (auto simp add: bind_res_eq_Inr Cons.IH)
qed auto

lemma to_methods_names:
  "to_methods ns = Inr ms \<Longrightarrow> method_names ms = ns"
  by (auto simp: to_methods_ok)

end
