(* ===== verification/Grpc_Plugin.thy ===== *)
theory Grpc_Plugin
  imports Plugin_Api
begin

text \<open>
  The daemon side of the wire, \<^verbatim>\<open>cmd/sshpiperd/internal/plugin/grpc.go\<close>: a plugin
  seen through its RPC client, the callbacks it installs for the SSH server, and
  how a reply of the plugin becomes an upstream connection.

  The RPC client is a record of functions from requests to replies.  The SSH
  library, the dialler, \<^verbatim>\<open>url.Parse\<close> and the known-hosts parser are the fields of
  \<open>ssh_env\<close>; \<open>'k\<close> is the type of keys, signers and certificates and \<open>'c\<close> that of
  connections.  Log output is not part of the model.
\<close>

section \<open>Challenge contexts\<close>

record conn =
  User :: string
  RemoteAddr :: string

record plugin_conn_meta = conn_meta +
  Env :: strmap

text \<open>\<^verbatim>\<open>ssh.ChallengeContext\<close> is an interface; the code distinguishes its own two implementations
  (\<^verbatim>\<open>*PluginConnMeta\<close> and \<^verbatim>\<open>*chainConnMeta\<close>, with the field \<^verbatim>\<open>current\<close>) and panics on others.\<close>

datatype challenge_ctx =
    PluginCtx plugin_conn_meta
  | ChainCtx plugin_conn_meta nat
  | OtherCtx

fun ctx_upd :: "(plugin_conn_meta \<Rightarrow> plugin_conn_meta) \<Rightarrow> challenge_ctx \<Rightarrow> challenge_ctx" where
  "ctx_upd f (PluginCtx m) = PluginCtx (f m)"
| "ctx_upd f (ChainCtx m n) = ChainCtx (f m) n"
| "ctx_upd f OtherCtx = OtherCtx"

fun ctx_meta :: "challenge_ctx \<Rightarrow> plugin_conn_meta option" where
  "ctx_meta (PluginCtx m) = Some m"
| "ctx_meta (ChainCtx m n) = Some m"
| "ctx_meta OtherCtx = None"

text \<open>\<^verbatim>\<open>toMeta\<close>: the user name of the connection is written into the context; \<open>None\<close> is the panic.\<close>

definition toMeta :: "challenge_ctx \<Rightarrow> conn \<Rightarrow> (challenge_ctx \<times> conn_meta) option" where
  "toMeta ctx c =
     (case ctx_meta ctx of
        None \<Rightarrow> None
      | Some m \<Rightarrow> Some (ctx_upd (UserName_update (\<lambda>_. User c)) ctx,
                       conn_meta.truncate (m\<lparr>UserName := User c\<rparr>)))"

definition GetUniqueID :: "challenge_ctx \<Rightarrow> string option" where
  "GetUniqueID ctx = map_option UniqId (ctx_meta ctx)"

definition UpstreamEnv :: "challenge_ctx \<Rightarrow> strmap" where
  "UpstreamEnv ctx = (case ctx_meta ctx of None \<Rightarrow> Map.empty | Some m \<Rightarrow> Env m)"

definition setUpstreamEnv :: "challenge_ctx \<Rightarrow> strmap \<Rightarrow> challenge_ctx" where
  "setUpstreamEnv ctx env = ctx_upd (Env_update (\<lambda>_. env)) ctx"

section \<open>The environment and the plugin\<close>

type_synonym hostkey_cb = "string \<Rightarrow> string \<Rightarrow> bytes \<Rightarrow> goerr option"

datatype 'k auth_item = ANone | APassword string | APublicKeys 'k

record ('k, 'c) ssh_upstream =
  UConn :: 'c
  Address :: string
  CUser :: string
  HostKeyCallback :: hostkey_cb
  CAuth :: "'k auth_item list"

record url =
  Scheme :: string
  UHost :: string
  Opaque :: string

record ('k, 'c) ssh_env =
  ParsePrivateKey :: "bytes \<Rightarrow> 'k res"
  ParseAuthorizedKey :: "bytes \<Rightarrow> 'k res"
  AsCertificate :: "'k \<Rightarrow> 'k option"
  NewCertSigner :: "'k \<Rightarrow> 'k \<Rightarrow> 'k res"
  RemoteSigner :: "string \<Rightarrow> 'k res"
  UrlParse :: "string \<Rightarrow> url res"
  NetDial :: "string \<Rightarrow> string \<Rightarrow> 'c res"
  GrpcDial :: "string \<Rightarrow> 'c res"
  KnownHosts :: "bytes \<Rightarrow> hostkey_cb res"

record rpc_client =
  ListCallbacks_rpc :: "string list res"
  NewConnection_rpc :: "conn_meta \<Rightarrow> unit res"
  NextAuthMethods_rpc :: "conn_meta \<Rightarrow> auth_method list res"
  NoneAuth_rpc :: "conn_meta \<Rightarrow> upstream option res"
  PasswordAuth_rpc :: "conn_meta \<Rightarrow> bytes \<Rightarrow> upstream option res"
  PublicKeyAuth_rpc :: "conn_meta \<Rightarrow> bytes \<Rightarrow> upstream option res"
  KeyboardInteractiveAuth_rpc :: "peer res"
  Banner_rpc :: "conn_meta \<Rightarrow> string res"
  VerifyHostKey_rpc :: "conn_meta \<Rightarrow> string \<Rightarrow> string \<Rightarrow> bytes \<Rightarrow> bool res"

type_synonym 'a step = "challenge_ctx \<times> 'a outcome"

record grpc_plugin =
  PName :: string
  OnNextPlugin :: "(challenge_ctx \<Rightarrow> strmap \<Rightarrow> unit step) option"
  client :: rpc_client
  hasNewConnectionCallback :: bool
  hasCreateConnCallback :: bool
  hasVerifyHostKeyCallback :: bool

definition DialGrpc :: "rpc_client \<Rightarrow> grpc_plugin" where
  "DialGrpc cl = \<lparr>PName = '''', OnNextPlugin = None, client = cl,
     hasNewConnectionCallback = False, hasCreateConnCallback = False, hasVerifyHostKeyCallback = False\<rparr>"

definition with_meta :: "challenge_ctx \<Rightarrow> conn \<Rightarrow> (challenge_ctx \<Rightarrow> conn_meta \<Rightarrow> 'a step) \<Rightarrow> 'a step" where
  "with_meta ctx c f = (case toMeta ctx c of None \<Rightarrow> (ctx, Panics) | Some (ctx', m) \<Rightarrow> f ctx' m)"

section \<open>From a reply to an upstream\<close>

definition dialUpstream :: "('k, 'c) ssh_env \<Rightarrow> grpc_plugin \<Rightarrow> string \<Rightarrow> ('c \<times> string) res" where
  "dialUpstream E g uri =
    (if length uri = 0 then Inl (Errorf ''empty upstream uri'' [])
     else if hasCreateConnCallback g then
       bind_res (GrpcDial E uri) (\<lambda>cn.
         Inr (cn, case UrlParse E uri of
                    Inr u \<Rightarrow> (if UHost u \<noteq> '''' then UHost u else uri)
                  | Inl _ \<Rightarrow> uri))
     else (case UrlParse E uri of
         Inl e \<Rightarrow> Inl (Wrapf ''invalid upstream uri: %w'' [] e)
       | Inr u \<Rightarrow>
           let addr = (if UHost u = '''' then Opaque u else UHost u)
           in if addr = '''' then Inl (Errorf ''invalid upstream uri, missing address: %s'' [uri])
              else bind_res (NetDial E (Scheme u) addr) (\<lambda>cn. Inr (cn, addr))))"

definition buildHostKeyCallback ::
  "('k, 'c) ssh_env \<Rightarrow> grpc_plugin \<Rightarrow> conn_meta \<Rightarrow> upstream \<Rightarrow> hostkey_cb" where
  "buildHostKeyCallback E g meta u =
    (if hasVerifyHostKeyCallback g then
       (\<lambda>hostname addr key.
          case VerifyHostKey_rpc (client g) meta hostname addr key of
            Inl e \<Rightarrow> Some e
          | Inr verified \<Rightarrow>
              if \<not> verified then Some (Errorf ''host key verification failed'' []) else None)
     else if length (KnownHostsData u) = 0 then (\<lambda>_ _ _. None)
     else (case KnownHosts E (KnownHostsData u) of
         Inl e \<Rightarrow> (\<lambda>_ _ _. Some (Wrapf ''failed to parse known_hosts data: %w'' [] e))
       | Inr cb \<Rightarrow> cb))"

definition private_key_signer :: "('k, 'c) ssh_env \<Rightarrow> bytes \<Rightarrow> bytes \<Rightarrow> 'k res" where
  "private_key_signer E key ca =
     bind_res (ParsePrivateKey E key) (\<lambda>private.
       if ca = [] then Inr private
       else bind_res (ParseAuthorizedKey E ca) (\<lambda>caPublicKey.
         case AsCertificate E caPublicKey of
           None \<Rightarrow> Inl (Errorf ''failed to convert the caPublicKey to an ssh.Certificate'' [])
         | Some cert \<Rightarrow> NewCertSigner E cert private))"

text \<open>The four \<^verbatim>\<open>if\<close>s on the members of the oneof and the fallback to none auth.\<close>

definition upstream_auths :: "('k, 'c) ssh_env \<Rightarrow> upstream \<Rightarrow> 'k auth_item list res" where
  "upstream_auths E u =
     (case Auth u of
        Some NoneAuth \<Rightarrow> Inr [ANone]
      | Some (PasswordAuth p) \<Rightarrow> Inr [APassword p]
      | Some (PrivateKeyAuth key ca) \<Rightarrow> bind_res (private_key_signer E key ca) (\<lambda>s. Inr [APublicKeys s])
      | Some (RemoteSignerAuth m) \<Rightarrow> bind_res (RemoteSigner E m) (\<lambda>s. Inr [APublicKeys s])
      | _ \<Rightarrow> Inr [ANone])"

text \<open>\<^verbatim>\<open>createUpstream\<close> in two parts: the delegation to the next plugin, and from \<^verbatim>\<open>toMeta\<close> on.\<close>

definition upstream_body ::
  "('k, 'c) ssh_env \<Rightarrow> grpc_plugin \<Rightarrow> upstream option \<Rightarrow> challenge_ctx \<Rightarrow> conn_meta
     \<Rightarrow> ('k, 'c) ssh_upstream option step" where
  "upstream_body E g up ctx meta =
    (case Option.bind up Auth of
       Some (RetryCurrentPluginAuth m) \<Rightarrow>
         (ctx_upd (Metadata_update (\<lambda>md. md ++ m)) ctx, Fails (Errorf ''client retry requested'' []))
     | _ \<Rightarrow>
         (case up of
            None \<Rightarrow> (ctx, Panics)
          | Some u \<Rightarrow>
              (case upstream_auths E u of
                 Inl e \<Rightarrow> (ctx, Fails e)
               | Inr auths \<Rightarrow>
                   (case dialUpstream E g (GetOrGenerateUri u) of
                      Inl e \<Rightarrow> (ctx, Fails e)
                    | Inr (cn, addr) \<Rightarrow>
                        (setUpstreamEnv ctx (UpEnv u),
                         Returns (Some \<lparr>UConn = cn, Address = addr, CUser = UpUserName u,
                           HostKeyCallback = buildHostKeyCallback E g meta u, CAuth = auths\<rparr>))))))"

definition createUpstream ::
  "('k, 'c) ssh_env \<Rightarrow> grpc_plugin \<Rightarrow> conn \<Rightarrow> challenge_ctx \<Rightarrow> upstream option
     \<Rightarrow> ('k, 'c) ssh_upstream option step" where
  "createUpstream E g c ctx up =
    (case Option.bind up Auth of
       Some (NextPluginAuth m) \<Rightarrow>
         (case OnNextPlugin g of
            None \<Rightarrow> (ctx, Fails (Errorf ''next plugin is not supported'' []))
          | Some f \<Rightarrow> (case f ctx m of (ctx', r) \<Rightarrow> (ctx', bind_out r (\<lambda>_. Returns None))))
     | _ \<Rightarrow> with_meta ctx c (upstream_body E g up))"

section \<open>The callbacks\<close>

definition NewConnection :: "grpc_plugin \<Rightarrow> plugin_conn_meta \<Rightarrow> goerr option" where
  "NewConnection g meta =
     (if hasNewConnectionCallback g
      then (case NewConnection_rpc (client g) (conn_meta.truncate meta) of Inl e \<Rightarrow> Some e | Inr _ \<Rightarrow> None)
      else None)"

definition new_conn_meta :: "string \<Rightarrow> conn \<Rightarrow> plugin_conn_meta" where
  "new_conn_meta uiq c = \<lparr>UserName = User c, FromAddr = RemoteAddr c, UniqId = uiq,
     Metadata = Map.empty, Env = Map.empty\<rparr>"

definition GrpcPlugin_CreateChallengeContext :: "grpc_plugin \<Rightarrow> string res \<Rightarrow> conn \<Rightarrow> challenge_ctx res" where
  "GrpcPlugin_CreateChallengeContext g uuid c =
     bind_res uuid (\<lambda>uiq.
       let meta = new_conn_meta uiq c
       in case NewConnection g meta of
            Some e \<Rightarrow> Inl e
          | None \<Rightarrow> Inr (PluginCtx meta))"

definition GrpcPlugin_NextAuthMethodsRemote :: "grpc_plugin \<Rightarrow> conn \<Rightarrow> challenge_ctx \<Rightarrow> string list step" where
  "GrpcPlugin_NextAuthMethodsRemote g c ctx =
     with_meta ctx c (\<lambda>ctx' meta.
       (ctx', out_of (bind_res (NextAuthMethods_rpc (client g) meta) (\<lambda>ms. Inr (method_names ms)))))"

text \<open>
  The failure of an upstream attempt; \<open>NoMoreMethods\<close> is \<^verbatim>\<open>ssh.NoMoreMethodsErr\<close>.  The list
  handed to the plugin starts with \<^verbatim>\<open>len(Allowed)\<close> zero values, since \<^verbatim>\<open>make\<close> gives the
  slice that length and the loop appends to it.
\<close>

datatype auth_failure = NoMoreMethods (Tried: string) (Allowed: "string list") | OtherFailure string

fun failure_text :: "auth_failure \<Rightarrow> string" where
  "failure_text (NoMoreMethods t _) = t"
| "failure_text (OtherFailure t) = t"

definition allowed_methods :: "auth_failure \<Rightarrow> auth_method list" where
  "allowed_methods e =
     (case e of
        NoMoreMethods _ al \<Rightarrow>
          replicate (length al) 0 @ filter (\<lambda>m. m \<noteq> - 1) (map AuthMethodFromName al)
      | OtherFailure _ \<Rightarrow> [])"

datatype notice =
    UpstreamAuthFailureNotice conn_meta string string "auth_method list"
  | PipeStartNotice conn_meta
  | PipeErrorNotice conn_meta string
  | PipeCreateErrorNotice string string

definition GrpcPlugin_UpstreamAuthFailureCallbackRemote ::
  "conn \<Rightarrow> string \<Rightarrow> auth_failure \<Rightarrow> challenge_ctx \<Rightarrow> notice step" where
  "GrpcPlugin_UpstreamAuthFailureCallbackRemote c method e ctx =
     with_meta ctx c (\<lambda>ctx' meta.
       (ctx', Returns (UpstreamAuthFailureNotice meta method (failure_text e) (allowed_methods e))))"

definition GrpcPlugin_PipeStartCallback :: "conn \<Rightarrow> challenge_ctx \<Rightarrow> notice step" where
  "GrpcPlugin_PipeStartCallback c ctx = with_meta ctx c (\<lambda>ctx' meta. (ctx', Returns (PipeStartNotice meta)))"

definition GrpcPlugin_PipeErrorCallback :: "conn \<Rightarrow> challenge_ctx \<Rightarrow> string \<Rightarrow> notice step" where
  "GrpcPlugin_PipeErrorCallback c ctx err =
     with_meta ctx c (\<lambda>ctx' meta. (ctx', Returns (PipeErrorNotice meta err)))"

definition GrpcPlugin_PipeCreateErrorCallback :: "string \<Rightarrow> string \<Rightarrow> notice" where
  "GrpcPlugin_PipeCreateErrorCallback remote err = PipeCreateErrorNotice remote err"

definition GrpcPlugin_DownstreamBannerCallback :: "grpc_plugin \<Rightarrow> conn \<Rightarrow> challenge_ctx \<Rightarrow> string step" where
  "GrpcPlugin_DownstreamBannerCallback g c ctx =
     with_meta ctx c (\<lambda>ctx' meta.
       (ctx', Returns (case Banner_rpc (client g) meta of Inl _ \<Rightarrow> '''' | Inr m \<Rightarrow> m)))"

definition reply_upstream ::
  "('k, 'c) ssh_env \<Rightarrow> grpc_plugin \<Rightarrow> conn \<Rightarrow> challenge_ctx \<Rightarrow> (conn_meta \<Rightarrow> upstream option res)
     \<Rightarrow> ('k, 'c) ssh_upstream option step" where
  "reply_upstream E g c ctx rpc =
     with_meta ctx c (\<lambda>ctx' meta.
       case rpc meta of
         Inl e \<Rightarrow> (ctx', Fails e)
       | Inr u \<Rightarrow> createUpstream E g c ctx' u)"

definition GrpcPlugin_NoClientAuthCallback ::
  "('k, 'c) ssh_env \<Rightarrow> grpc_plugin \<Rightarrow> conn \<Rightarrow> challenge_ctx \<Rightarrow> ('k, 'c) ssh_upstream option step" where
  "GrpcPlugin_NoClientAuthCallback E g c ctx = reply_upstream E g c ctx (NoneAuth_rpc (client g))"

definition GrpcPlugin_PasswordCallback ::
  "('k, 'c) ssh_env \<Rightarrow> grpc_plugin \<Rightarrow> conn \<Rightarrow> bytes \<Rightarrow> challenge_ctx \<Rightarrow> ('k, 'c) ssh_upstream option step" where
  "GrpcPlugin_PasswordCallback E g c password ctx =
     reply_upstream E g c ctx (\<lambda>meta. PasswordAuth_rpc (client g) meta password)"

definition GrpcPlugin_PublicKeyCallback ::
  "('k, 'c) ssh_env \<Rightarrow> grpc_plugin \<Rightarrow> conn \<Rightarrow> bytes \<Rightarrow> challenge_ctx \<Rightarrow> ('k, 'c) ssh_upstream option step" where
  "GrpcPlugin_PublicKeyCallback E g c key ctx =
     reply_upstream E g c ctx (\<lambda>meta. PublicKeyAuth_rpc (client g) meta key)"

text \<open>
  The loop of \<^verbatim>\<open>KeyboardInteractiveCallback\<close> over the messages of the peer.  \<open>ask\<close> is the SSH
  client's challenge function, on the state \<open>'d\<close> of the user at the other end; \<open>q\<close>
  holds the messages sent to the peer that it has not read yet; \<open>send\<close> is the error of a
  \<^verbatim>\<open>stream.Send\<close>, if any.  \<open>None\<close> is the case in which both ends wait for the other.
\<close>

type_synonym 'd challenge = "string \<Rightarrow> string \<Rightarrow> string list \<Rightarrow> bool list \<Rightarrow> 'd \<Rightarrow> 'd \<times> string list res"

primrec ki_loop ::
  "('k, 'c) ssh_env \<Rightarrow> grpc_plugin \<Rightarrow> conn \<Rightarrow> 'd challenge \<Rightarrow> (ki_msg \<Rightarrow> goerr option) \<Rightarrow> peer
     \<Rightarrow> ki_msg list \<Rightarrow> challenge_ctx \<Rightarrow> 'd \<Rightarrow> ('d \<times> ('k, 'c) ssh_upstream option step) option" where
  "ki_loop E g c ask send (PStop e) = (\<lambda>q ctx d.
     Some (d, ctx, case e of None \<Rightarrow> Returns None | Some e \<Rightarrow> Fails e))"
| "ki_loop E g c ask send (PRecv f) = (\<lambda>q ctx d.
     case q of [] \<Rightarrow> None | m # q' \<Rightarrow> ki_loop E g c ask send (f m) q' ctx d)"
| "ki_loop E g c ask send (PSend msg k) = (\<lambda>q ctx d.
     case msg of
       PromptRequest name instruction qs \<Rightarrow>
         (case ask name instruction (map fst qs) (map snd qs) d of
            (d', Inl e) \<Rightarrow> Some (d', ctx, Fails e)
          | (d', Inr ans) \<Rightarrow>
              if qs = [] then ki_loop E g c ask send k q ctx d'
              else (case send (UserResponse ans) of
                  Some e \<Rightarrow> Some (d', ctx, Fails e)
                | None \<Rightarrow> ki_loop E g c ask send k (q @ [UserResponse ans]) ctx d'))
     | MetaRequest \<Rightarrow>
         (case toMeta ctx c of
            None \<Rightarrow> Some (d, ctx, Panics)
          | Some (ctx', meta) \<Rightarrow>
              (case send (MetaResponse meta) of
                 Some e \<Rightarrow> Some (d, ctx', Fails e)
               | None \<Rightarrow> ki_loop E g c ask send k (q @ [MetaResponse meta]) ctx' d))
     | FinishRequest (Some u) \<Rightarrow> Some (d, createUpstream E g c ctx (Some u))
     | FinishRequest None \<Rightarrow>
         Some (d, ctx, Fails (Errorf ''auth failed: finish req does not contain upstream'' []))
     | _ \<Rightarrow> ki_loop E g c ask send k q ctx d)"

definition GrpcPlugin_KeyboardInteractiveCallback ::
  "('k, 'c) ssh_env \<Rightarrow> grpc_plugin \<Rightarrow> conn \<Rightarrow> 'd challenge \<Rightarrow> (ki_msg \<Rightarrow> goerr option)
     \<Rightarrow> challenge_ctx \<Rightarrow> 'd \<Rightarrow> ('d \<times> ('k, 'c) ssh_upstream option step) option" where
  "GrpcPlugin_KeyboardInteractiveCallback E g c ask send ctx d =
     (case KeyboardInteractiveAuth_rpc (client g) of
        Inl e \<Rightarrow> Some (d, ctx, Fails e)
      | Inr p \<Rightarrow> ki_loop E g c ask send p [] ctx d)"

section \<open>Installing the callbacks\<close>

text \<open>
  \<^verbatim>\<open>GrpcPluginConfig\<close>.  A callback is a closure over the pointer to its plugin, so
  it takes the plugin as it is when the callback runs.
\<close>

record ('k, 'c, 'd) grpc_config =
  cfg_CreateChallengeContext :: "(grpc_plugin \<Rightarrow> string res \<Rightarrow> conn \<Rightarrow> challenge_ctx res) option"
  cfg_NextAuthMethods :: "(grpc_plugin \<Rightarrow> conn \<Rightarrow> challenge_ctx \<Rightarrow> string list step) option"
  cfg_NoClientAuthCallback ::
    "(grpc_plugin \<Rightarrow> conn \<Rightarrow> challenge_ctx \<Rightarrow> ('k, 'c) ssh_upstream option step) option"
  cfg_PasswordCallback ::
    "(grpc_plugin \<Rightarrow> conn \<Rightarrow> bytes \<Rightarrow> challenge_ctx \<Rightarrow> ('k, 'c) ssh_upstream option step) option"
  cfg_PublicKeyCallback ::
    "(grpc_plugin \<Rightarrow> conn \<Rightarrow> bytes \<Rightarrow> challenge_ctx \<Rightarrow> ('k, 'c) ssh_upstream option step) option"
  cfg_KeyboardInteractiveCallback ::
    "(grpc_plugin \<Rightarrow> conn \<Rightarrow> 'd challenge \<Rightarrow> (ki_msg \<Rightarrow> goerr option) \<Rightarrow> challenge_ctx \<Rightarrow> 'd
        \<Rightarrow> ('d \<times> ('k, 'c) ssh_upstream option step) option) option"
  cfg_UpstreamAuthFailureCallback ::
    "(conn \<Rightarrow> string \<Rightarrow> auth_failure \<Rightarrow> challenge_ctx \<Rightarrow> notice step) option"
  cfg_DownstreamBannerCallback :: "(grpc_plugin \<Rightarrow> conn \<Rightarrow> challenge_ctx \<Rightarrow> string step) option"
  cfg_PipeStartCallback :: "(conn \<Rightarrow> challenge_ctx \<Rightarrow> notice step) option"
  cfg_PipeErrorCallback :: "(conn \<Rightarrow> challenge_ctx \<Rightarrow> string \<Rightarrow> notice step) option"
  cfg_PipeCreateErrorCallback :: "(string \<Rightarrow> string \<Rightarrow> notice) option"

definition empty_grpc_config :: "('k, 'c, 'd) grpc_config" where
  "empty_grpc_config = \<lparr>cfg_CreateChallengeContext = None, cfg_NextAuthMethods = None,
     cfg_NoClientAuthCallback = None, cfg_PasswordCallback = None, cfg_PublicKeyCallback = None,
     cfg_KeyboardInteractiveCallback = None, cfg_UpstreamAuthFailureCallback = None,
     cfg_DownstreamBannerCallback = None, cfg_PipeStartCallback = None, cfg_PipeErrorCallback = None,
     cfg_PipeCreateErrorCallback = None\<rparr>"

type_synonym ('k, 'c, 'd) installed = "grpc_plugin \<times> ('k, 'c, 'd) grpc_config"

definition install_one ::
  "('k, 'c) ssh_env \<Rightarrow> string \<Rightarrow> ('k, 'c, 'd) installed \<Rightarrow> ('k, 'c, 'd) installed option" where
  "install_one E cb gc =
    (let (g, cf) = gc in
     if cb = ''NewConnection'' then Some (g\<lparr>hasNewConnectionCallback := True\<rparr>, cf)
     else if cb = ''CreateConn'' then Some (g\<lparr>hasCreateConnCallback := True\<rparr>, cf)
     else if cb = ''NextAuthMethods'' then
       Some (g, cf\<lparr>cfg_NextAuthMethods := Some GrpcPlugin_NextAuthMethodsRemote\<rparr>)
     else if cb = ''NoneAuth'' then
       Some (g, cf\<lparr>cfg_NoClientAuthCallback := Some (GrpcPlugin_NoClientAuthCallback E)\<rparr>)
     else if cb = ''PasswordAuth'' then
       Some (g, cf\<lparr>cfg_PasswordCallback := Some (GrpcPlugin_PasswordCallback E)\<rparr>)
     else if cb = ''PublicKeyAuth'' then
       Some (g, cf\<lparr>cfg_PublicKeyCallback := Some (GrpcPlugin_PublicKeyCallback E)\<rparr>)
     else if cb = ''KeyboardInteractiveAuth'' then
       Some (g, cf\<lparr>cfg_KeyboardInteractiveCallback := Some (GrpcPlugin_KeyboardInteractiveCallback E)\<rparr>)
     else if cb = ''UpstreamAuthFailure'' then
       Some (g, cf\<lparr>cfg_UpstreamAuthFailureCallback := Some GrpcPlugin_UpstreamAuthFailureCallbackRemote\<rparr>)
     else if cb = ''Banner'' then
       Some (g, cf\<lparr>cfg_DownstreamBannerCallback := Some GrpcPlugin_DownstreamBannerCallback\<rparr>)
     else if cb = ''VerifyHostKey'' then Some (g\<lparr>hasVerifyHostKeyCallback := True\<rparr>, cf)
     else if cb = ''PipeStart'' then
       Some (g, cf\<lparr>cfg_PipeStartCallback := Some GrpcPlugin_PipeStartCallback\<rparr>)
     else if cb = ''PipeError'' then
       Some (g, cf\<lparr>cfg_PipeErrorCallback := Some GrpcPlugin_PipeErrorCallback\<rparr>)
     else if cb = ''PipeCreateError'' then
       Some (g, cf\<lparr>cfg_PipeCreateErrorCallback := Some GrpcPlugin_PipeCreateErrorCallback\<rparr>)
     else None)"

fun install_loop ::
  "('k, 'c) ssh_env \<Rightarrow> string list \<Rightarrow> ('k, 'c, 'd) installed \<Rightarrow> ('k, 'c, 'd) installed \<times> goerr option" where
  "install_loop E [] gc = (gc, None)"
| "install_loop E (cb # cbs) gc =
     (case install_one E cb gc of
        None \<Rightarrow> (gc, Some (Errorf ''unknown callback %s'' [cb]))
      | Some gc' \<Rightarrow> install_loop E cbs gc')"

definition InstallPiperConfig ::
  "('k, 'c) ssh_env \<Rightarrow> grpc_plugin \<Rightarrow> ('k, 'c, 'd) grpc_config \<Rightarrow> ('k, 'c, 'd) installed \<times> goerr option" where
  "InstallPiperConfig E g config =
     (case ListCallbacks_rpc (client g) of
        Inl e \<Rightarrow> ((g, config), Some e)
      | Inr cbs \<Rightarrow>
          install_loop E cbs
            (g, config\<lparr>cfg_CreateChallengeContext := Some GrpcPlugin_CreateChallengeContext\<rparr>))"

definition CreatePiperConfig ::
  "('k, 'c) ssh_env \<Rightarrow> grpc_plugin \<Rightarrow> ('k, 'c, 'd) installed \<times> goerr option" where
  "CreatePiperConfig E g = InstallPiperConfig E g empty_grpc_config"

section \<open>Lemmas\<close>

lemma ctx_upd_OtherCtx_iff [simp]: "ctx_upd f ctx = OtherCtx \<longleftrightarrow> ctx = OtherCtx"
  by (cases ctx) auto

lemma ctx_meta_None_iff [simp]: "ctx_meta ctx = None \<longleftrightarrow> ctx = OtherCtx"
  by (cases ctx) auto

lemma ctx_meta_upd [simp]: "ctx_meta (ctx_upd f ctx) = map_option f (ctx_meta ctx)"
  by (cases ctx) auto

lemma UpstreamEnv_upd [simp]:
  "UpstreamEnv (ctx_upd (UserName_update f) ctx) = UpstreamEnv ctx"
  "UpstreamEnv (ctx_upd (Metadata_update h) ctx) = UpstreamEnv ctx"
  by (cases ctx; simp add: UpstreamEnv_def)+

lemma UpstreamEnv_set [simp]: "ctx \<noteq> OtherCtx \<Longrightarrow> UpstreamEnv (setUpstreamEnv ctx env) = env"
  by (cases ctx) (auto simp: UpstreamEnv_def setUpstreamEnv_def)

lemma setUpstreamEnv_OtherCtx_iff [simp]: "setUpstreamEnv ctx env = OtherCtx \<longleftrightarrow> ctx = OtherCtx"
  by (simp add: setUpstreamEnv_def)

lemma toMeta_SomeD:
  assumes "toMeta ctx c = Some (ctx', meta)"
  shows "ctx \<noteq> OtherCtx \<and> ctx' \<noteq> OtherCtx \<and> UpstreamEnv ctx' = UpstreamEnv ctx \<and> UserName meta = User c"
  using assms by (auto simp: toMeta_def conn_meta.defs split: option.splits)

lemma toMeta_None_iff [simp]: "toMeta ctx c = None \<longleftrightarrow> ctx = OtherCtx"
  by (auto simp: toMeta_def split: option.splits)

text \<open>Facts about \<^verbatim>\<open>toMeta\<close> that the callbacks share.\<close>

lemma with_meta_cases:
  assumes "with_meta ctx c f = (ctx', r)"
  obtains "ctx = OtherCtx" "ctx' = ctx" "r = Panics"
  | ctx1 meta where "toMeta ctx c = Some (ctx1, meta)" "f ctx1 meta = (ctx', r)"
  using assms by (auto simp: with_meta_def split: option.splits)

text \<open>What the single authentication item of an upstream has to be.\<close>

definition auth_item_for :: "('k, 'c) ssh_env \<Rightarrow> upstream_auth option \<Rightarrow> 'k auth_item \<Rightarrow> bool" where
  "auth_item_for E a i =
     (case a of
        Some (PasswordAuth p) \<Rightarrow> i = APassword p
      | Some (PrivateKeyAuth key ca) \<Rightarrow> (\<exists>s. private_key_signer E key ca = Inr s \<and> i = APublicKeys s)
      | Some (RemoteSignerAuth m) \<Rightarrow> (\<exists>s. RemoteSigner E m = Inr s \<and> i = APublicKeys s)
      | _ \<Rightarrow> i = ANone)"

lemma upstream_auths_spec:
  "upstream_auths E u = Inr as \<longleftrightarrow> (\<exists>i. as = [i] \<and> auth_item_for E (Auth u) i)"
  by (auto simp: upstream_auths_def auth_item_for_def bind_res_eq_Inr
      split: option.splits upstream_auth.splits)

lemma createUpstream_Some:
  assumes "createUpstream E g c ctx up = (ctx', Returns (Some v))"
  obtains u meta auths ctx1 where
    "up = Some u" "toMeta ctx c = Some (ctx1, meta)" "upstream_auths E u = Inr (CAuth v)"
    "dialUpstream E g (GetOrGenerateUri u) = Inr (UConn v, Address v)"
    "CUser v = UpUserName u" "HostKeyCallback v = buildHostKeyCallback E g meta u"
    "ctx' = setUpstreamEnv ctx1 (UpEnv u)"
  using assms
  by (auto simp: createUpstream_def upstream_body_def with_meta_def bind_out_eq_Returns bind_out_def
      split: option.splits upstream_auth.splits sum.splits prod.splits outcome.splits)

text \<open>
  C3: what an upstream connection is.  Whenever a plugin's reply leads to an upstream,
  the connection is the one dialled for the URI of that very reply, the upstream user is the
  reply's user name, exactly one authentication item is offered and it is the one the
  reply carries (a failing key or signer never falls back to another method), and the
  environment recorded for the session is exactly the reply's, whatever an earlier attempt left.
\<close>

theorem createUpstream_from_reply:
  assumes "createUpstream E g c ctx up = (ctx', Returns (Some v))"
  shows "\<exists>u i. up = Some u
    \<and> dialUpstream E g (GetOrGenerateUri u) = Inr (UConn v, Address v)
    \<and> CUser v = UpUserName u
    \<and> CAuth v = [i] \<and> auth_item_for E (Auth u) i
    \<and> UpstreamEnv ctx' = UpEnv u"
proof -
  from assms obtain u meta ctx1 where
    "up = Some u" "toMeta ctx c = Some (ctx1, meta)" "upstream_auths E u = Inr (CAuth v)"
    "dialUpstream E g (GetOrGenerateUri u) = Inr (UConn v, Address v)"
    "CUser v = UpUserName u" "ctx' = setUpstreamEnv ctx1 (UpEnv u)"
    by (rule createUpstream_Some)
  then show ?thesis
    by (auto simp: upstream_auths_spec dest: toMeta_SomeD)
qed

text \<open>A concrete environment, for evaluation: keys are numbers and a connection is the pair of
  network and address that was dialled.\<close>

definition demo_env :: "(nat, string \<times> string) ssh_env" where
  "demo_env = \<lparr>ParsePrivateKey = (\<lambda>b. if b = [] then Inl (Ext ''no key found'') else Inr (length b)),
     ParseAuthorizedKey = (\<lambda>b. Inr (length b)), AsCertificate = (\<lambda>k. if k = 1 then None else Some k),
     NewCertSigner = (\<lambda>c k. Inr (c + k)), RemoteSigner = (\<lambda>m. Inr (length m)),
     UrlParse = (\<lambda>u. Inr \<lparr>Scheme = take 3 u, UHost = drop 6 u, Opaque = ''''\<rparr>),
     NetDial = (\<lambda>n a. Inr (n, a)), GrpcDial = (\<lambda>u. Inr (''grpc'', u)),
     KnownHosts = (\<lambda>b. Inr (\<lambda>_ _ k. if k = b then None else Some (Ext ''key is unknown'')))\<rparr>"

definition demo_client :: rpc_client where
  "demo_client = \<lparr>ListCallbacks_rpc = Inr [''PasswordAuth''], NewConnection_rpc = (\<lambda>_. Inr ()),
     NextAuthMethods_rpc = (\<lambda>_. Inr []), NoneAuth_rpc = (\<lambda>_. Inr None),
     PasswordAuth_rpc = (\<lambda>_ p. Inr (Some (empty_upstream\<lparr>Host := ''h'', UpUserName := ''root'',
        UpEnv := [''A'' \<mapsto> ''1''], Auth := Some (CreatePasswordAuth p)\<rparr>))),
     PublicKeyAuth_rpc = (\<lambda>_ _. Inr None), KeyboardInteractiveAuth_rpc = Inl (Ext ''none''),
     Banner_rpc = (\<lambda>_. Inr ''''), VerifyHostKey_rpc = (\<lambda>_ _ _ _. Inr False)\<rparr>"

definition demo_conn :: conn where
  "demo_conn = \<lparr>User = ''bob'', RemoteAddr = ''10.0.0.1:22''\<rparr>"

definition demo_upstream :: upstream where
  "demo_upstream = empty_upstream\<lparr>Host := ''h'', UpUserName := ''root'', UpEnv := [''A'' \<mapsto> ''1''],
     Auth := Some (PasswordAuth ''pw'')\<rparr>"

theorem createUpstream_from_reply_witness:
  "let r = createUpstream demo_env (DialGrpc demo_client) demo_conn
             (PluginCtx (new_conn_meta ''id'' demo_conn)) (Some demo_upstream)
   in \<exists>v i. snd r = Returns (Some v) \<and> UConn v = (''tcp'', ''h:22'') \<and> CUser v = ''root''
        \<and> CAuth v = [i] \<and> UpstreamEnv (fst r) = [''A'' \<mapsto> ''1'']"
proof -
  let ?r = "createUpstream demo_env (DialGrpc demo_client) demo_conn
              (PluginCtx (new_conn_meta ''id'' demo_conn)) (Some demo_upstream)"
  have "itoa 22 = ''22''" by code_simp
  then have d: "dialUpstream demo_env (DialGrpc demo_client) (GetOrGenerateUri demo_upstream) =
      Inr ((''tcp'', ''h:22''), ''h:22'')"
    by (simp add: dialUpstream_def demo_env_def DialGrpc_def demo_upstream_def empty_upstream_def
        GetOrGenerateUri_def join_host_port_def Let_def)
  then obtain ctx' v where v: "?r = (ctx', Returns (Some v))"
    by (auto simp: createUpstream_def upstream_body_def with_meta_def toMeta_def demo_upstream_def upstream_auths_def
        empty_upstream_def)
  from createUpstream_from_reply [OF v] d obtain i where
    "UConn v = (''tcp'', ''h:22'')" "CUser v = UpUserName demo_upstream" "CAuth v = [i]"
    "UpstreamEnv ctx' = UpEnv demo_upstream"
    by auto
  then show ?thesis
    unfolding v by (simp add: Let_def demo_upstream_def empty_upstream_def)
qed


text \<open>
  A reply without an upstream is dereferenced: the three callbacks that hand the
  reply on unchecked panic, where the keyboard-interactive loop reports an error.
\<close>

lemma nil_upstream_panics:
  "PasswordAuth_rpc (client g) meta pw = Inr None \<Longrightarrow> toMeta ctx c = Some (ctx', meta) \<Longrightarrow>
     snd (GrpcPlugin_PasswordCallback E g c pw ctx) = Panics"
  by (auto simp: GrpcPlugin_PasswordCallback_def reply_upstream_def with_meta_def createUpstream_def
      upstream_body_def
      split: option.splits prod.splits dest!: toMeta_SomeD)

text \<open>The notice about a failed upstream attempt lists \<^verbatim>\<open>none\<close> once per allowed method.\<close>

lemma allowed_methods_spurious:
  "method_names (allowed_methods (NoMoreMethods t [''password'', ''publickey''])) =
     [''none'', ''none'', ''password'', ''publickey'']"
  by code_simp

lemma allowed_methods_count:
  "length al \<le> length (filter (\<lambda>m. m = AuthMethod_NONE) (allowed_methods (NoMoreMethods t al)))"
  by (simp add: allowed_methods_def)

end
