(* ===== verification/Chain_Plugins.thy ===== *)
theory Chain_Plugins
  imports Grpc_Plugin
begin

text \<open>
  The chain of plugins, \<^verbatim>\<open>cmd/sshpiperd/internal/plugin/chain.go\<close>: authentication is handed
  from one plugin to the next, and notices go to all of them.
\<close>

section \<open>Operations\<close>

record ('k, 'c, 'd) chain =
  pluginsCallback :: "('k, 'c, 'd) grpc_config list"
  plugins :: "grpc_plugin list"

definition empty_chain :: "('k, 'c, 'd) chain" where
  "empty_chain = \<lparr>pluginsCallback = [], plugins = []\<rparr>"

definition onNextPlugin :: "('k, 'c, 'd) chain \<Rightarrow> challenge_ctx \<Rightarrow> strmap \<Rightarrow> unit step" where
  "onNextPlugin cp ctx meta =
     (case ctx of
        ChainCtx m cur \<Rightarrow>
          let m' = m\<lparr>Metadata := Metadata m ++ meta\<rparr>
          in if cur + 1 \<ge> length (pluginsCallback cp)
             then (ChainCtx m' cur, Fails (Errorf ''no more plugins'' []))
             else (ChainCtx m' (cur + 1), Returns ())
      | _ \<Rightarrow> (ctx, Panics))"

definition Append ::
  "('k, 'c) ssh_env \<Rightarrow> ('k, 'c, 'd) chain \<Rightarrow> grpc_plugin \<Rightarrow> ('k, 'c, 'd) chain \<times> goerr option" where
  "Append E cp p =
     (case CreatePiperConfig E p of
        (_, Some e) \<Rightarrow> (cp, Some e)
      | ((p', config), None) \<Rightarrow>
          (cp\<lparr>pluginsCallback := pluginsCallback cp @ [config], plugins := plugins cp @ [p']\<rparr>, None))"

text \<open>
  The method value \<^verbatim>\<open>cp.onNextPlugin\<close> that \<^verbatim>\<open>Append\<close> stores in a plugin reads the chain when it
  is called, so a plugin of the chain is read together with the chain.
\<close>

definition plugin_at :: "('k, 'c, 'd) chain \<Rightarrow> nat \<Rightarrow> grpc_plugin" where
  "plugin_at cp i = (plugins cp ! i)\<lparr>OnNextPlugin := Some (onNextPlugin cp)\<rparr>"

fun new_connections :: "grpc_plugin list \<Rightarrow> plugin_conn_meta \<Rightarrow> goerr option" where
  "new_connections [] meta = None"
| "new_connections (p # ps) meta =
     (case NewConnection p meta of Some e \<Rightarrow> Some e | None \<Rightarrow> new_connections ps meta)"

definition Chain_CreateChallengeContext ::
  "('k, 'c, 'd) chain \<Rightarrow> string res \<Rightarrow> conn \<Rightarrow> challenge_ctx res" where
  "Chain_CreateChallengeContext cp uuid c =
     bind_res uuid (\<lambda>uiq.
       let meta = new_conn_meta uiq c
       in case new_connections (plugins cp) meta of
            Some e \<Rightarrow> Inl e
          | None \<Rightarrow> Inr (ChainCtx meta 0))"

text \<open>Every callback starts with the type assertion \<^verbatim>\<open>challengeCtx.(*chainConnMeta)\<close> and the index
  \<^verbatim>\<open>cp.pluginsCallback[current]\<close>; both panic.\<close>

definition with_current ::
  "('k, 'c, 'd) chain \<Rightarrow> challenge_ctx \<Rightarrow> (grpc_plugin \<Rightarrow> ('k, 'c, 'd) grpc_config \<Rightarrow> 'a step) \<Rightarrow> 'a step" where
  "with_current cp ctx f =
     (case ctx of
        ChainCtx m cur \<Rightarrow>
          if cur < length (pluginsCallback cp)
          then f (plugin_at cp cur) (pluginsCallback cp ! cur) else (ctx, Panics)
      | _ \<Rightarrow> (ctx, Panics))"

definition Chain_NextAuthMethods :: "('k, 'c, 'd) chain \<Rightarrow> conn \<Rightarrow> challenge_ctx \<Rightarrow> string list step" where
  "Chain_NextAuthMethods cp c ctx =
     with_current cp ctx (\<lambda>p config.
       case cfg_NextAuthMethods config of
         Some f \<Rightarrow> f p c ctx
       | None \<Rightarrow>
           (ctx, Returns
             ((if cfg_NoClientAuthCallback config \<noteq> None then [''none''] else []) @
              (if cfg_PasswordCallback config \<noteq> None then [''password''] else []) @
              (if cfg_PublicKeyCallback config \<noteq> None then [''publickey''] else []) @
              (if cfg_KeyboardInteractiveCallback config \<noteq> None then [''keyboard-interactive''] else []))))"

definition not_implemented :: "string \<Rightarrow> 'a outcome" where
  "not_implemented m = Fails (Errorf (m @ '' auth callback is not implemented'') [])"

definition Chain_NoClientAuthCallback ::
  "('k, 'c, 'd) chain \<Rightarrow> conn \<Rightarrow> challenge_ctx \<Rightarrow> ('k, 'c) ssh_upstream option step" where
  "Chain_NoClientAuthCallback cp c ctx =
     with_current cp ctx (\<lambda>p cur.
       case cfg_NoClientAuthCallback cur of
         None \<Rightarrow> (ctx, not_implemented ''none'')
       | Some f \<Rightarrow> f p c ctx)"

definition Chain_PasswordCallback ::
  "('k, 'c, 'd) chain \<Rightarrow> conn \<Rightarrow> bytes \<Rightarrow> challenge_ctx \<Rightarrow> ('k, 'c) ssh_upstream option step" where
  "Chain_PasswordCallback cp c password ctx =
     with_current cp ctx (\<lambda>p cur.
       case cfg_PasswordCallback cur of
         None \<Rightarrow> (ctx, not_implemented ''password'')
       | Some f \<Rightarrow> f p c password ctx)"

definition Chain_PublicKeyCallback ::
  "('k, 'c, 'd) chain \<Rightarrow> conn \<Rightarrow> bytes \<Rightarrow> challenge_ctx \<Rightarrow> ('k, 'c) ssh_upstream option step" where
  "Chain_PublicKeyCallback cp c key ctx =
     with_current cp ctx (\<lambda>p cur.
       case cfg_PublicKeyCallback cur of
         None \<Rightarrow> (ctx, not_implemented ''publickey'')
       | Some f \<Rightarrow> f p c key ctx)"

definition Chain_KeyboardInteractiveCallback ::
  "('k, 'c, 'd) chain \<Rightarrow> conn \<Rightarrow> 'd challenge \<Rightarrow> (ki_msg \<Rightarrow> goerr option) \<Rightarrow> challenge_ctx \<Rightarrow> 'd
     \<Rightarrow> ('d \<times> ('k, 'c) ssh_upstream option step) option" where
  "Chain_KeyboardInteractiveCallback cp c ask send ctx d =
     (case ctx of
        ChainCtx m cur \<Rightarrow>
          if cur < length (pluginsCallback cp)
          then (case cfg_KeyboardInteractiveCallback (pluginsCallback cp ! cur) of
                  None \<Rightarrow> Some (d, ctx, not_implemented ''keyboard-interactive'')
                | Some f \<Rightarrow> f (plugin_at cp cur) c ask send ctx d)
          else Some (d, ctx, Panics)
      | _ \<Rightarrow> Some (d, ctx, Panics))"

definition Chain_DownstreamBannerCallback :: "('k, 'c, 'd) chain \<Rightarrow> conn \<Rightarrow> challenge_ctx \<Rightarrow> string step" where
  "Chain_DownstreamBannerCallback cp c ctx =
     with_current cp ctx (\<lambda>p cur.
       case cfg_DownstreamBannerCallback cur of
         Some f \<Rightarrow> f p c ctx
       | None \<Rightarrow> (ctx, Returns ''''))"

text \<open>The notices, to every plugin that has the callback, in the order of the chain.\<close>

fun broadcast ::
  "('g \<Rightarrow> (challenge_ctx \<Rightarrow> notice step) option) \<Rightarrow> 'g list \<Rightarrow> challenge_ctx \<Rightarrow> notice list step" where
  "broadcast sel [] ctx = (ctx, Returns [])"
| "broadcast sel (p # ps) ctx =
     (case sel p of
        None \<Rightarrow> broadcast sel ps ctx
      | Some f \<Rightarrow>
          (case f ctx of
             (ctx', Returns n) \<Rightarrow>
               (case broadcast sel ps ctx' of (ctx'', r) \<Rightarrow> (ctx'', bind_out r (\<lambda>ns. Returns (n # ns))))
           | (ctx', Panics) \<Rightarrow> (ctx', Panics)
           | (ctx', Fails e) \<Rightarrow> (ctx', Fails e)))"

definition Chain_UpstreamAuthFailureCallback ::
  "('k, 'c, 'd) chain \<Rightarrow> conn \<Rightarrow> string \<Rightarrow> auth_failure \<Rightarrow> challenge_ctx \<Rightarrow> notice list step" where
  "Chain_UpstreamAuthFailureCallback cp c method e ctx =
     broadcast (\<lambda>p. map_option (\<lambda>f. f c method e) (cfg_UpstreamAuthFailureCallback p)) (pluginsCallback cp) ctx"

definition Chain_PipeStartCallback :: "('k, 'c, 'd) chain \<Rightarrow> conn \<Rightarrow> challenge_ctx \<Rightarrow> notice list step" where
  "Chain_PipeStartCallback cp c ctx =
     broadcast (\<lambda>p. map_option (\<lambda>f. f c) (cfg_PipeStartCallback p)) (pluginsCallback cp) ctx"

definition Chain_PipeErrorCallback ::
  "('k, 'c, 'd) chain \<Rightarrow> conn \<Rightarrow> challenge_ctx \<Rightarrow> string \<Rightarrow> notice list step" where
  "Chain_PipeErrorCallback cp c ctx err =
     broadcast (\<lambda>p. map_option (\<lambda>f ctx. f c ctx err) (cfg_PipeErrorCallback p)) (pluginsCallback cp) ctx"

definition Chain_PipeCreateErrorCallback :: "('k, 'c, 'd) chain \<Rightarrow> string \<Rightarrow> string \<Rightarrow> notice list" where
  "Chain_PipeCreateErrorCallback cp remote err =
     concat (map (\<lambda>p. case cfg_PipeCreateErrorCallback p of None \<Rightarrow> [] | Some f \<Rightarrow> [f remote err])
       (pluginsCallback cp))"

section \<open>Chains that the daemon builds\<close>

text \<open>The daemon starts from the empty chain and appends its plugins one by one.\<close>

inductive built :: "('k, 'c) ssh_env \<Rightarrow> ('k, 'c, 'd) chain \<Rightarrow> bool" for E where
  built_empty: "built E empty_chain"
| built_append: "built E cp \<Longrightarrow> Append E cp p = (cp', None) \<Longrightarrow> built E cp'"

text \<open>A configuration that \<^verbatim>\<open>InstallPiperConfig\<close> filled in: each callback is absent or the plugin's.\<close>

definition config_from :: "('k, 'c) ssh_env \<Rightarrow> ('k, 'c, 'd) grpc_config \<Rightarrow> bool" where
  "config_from E cf \<longleftrightarrow>
     cfg_NextAuthMethods cf \<in> {None, Some GrpcPlugin_NextAuthMethodsRemote}
   \<and> cfg_NoClientAuthCallback cf \<in> {None, Some (GrpcPlugin_NoClientAuthCallback E)}
   \<and> cfg_PasswordCallback cf \<in> {None, Some (GrpcPlugin_PasswordCallback E)}
   \<and> cfg_PublicKeyCallback cf \<in> {None, Some (GrpcPlugin_PublicKeyCallback E)}
   \<and> cfg_KeyboardInteractiveCallback cf \<in> {None, Some (GrpcPlugin_KeyboardInteractiveCallback E)}
   \<and> cfg_UpstreamAuthFailureCallback cf \<in> {None, Some GrpcPlugin_UpstreamAuthFailureCallbackRemote}
   \<and> cfg_DownstreamBannerCallback cf \<in> {None, Some GrpcPlugin_DownstreamBannerCallback}
   \<and> cfg_PipeStartCallback cf \<in> {None, Some GrpcPlugin_PipeStartCallback}
   \<and> cfg_PipeErrorCallback cf \<in> {None, Some GrpcPlugin_PipeErrorCallback}"

lemma config_fromD:
  assumes "config_from E cf"
  shows "cfg_NextAuthMethods cf = Some f1 \<Longrightarrow> f1 = GrpcPlugin_NextAuthMethodsRemote"
    and "cfg_NoClientAuthCallback cf = Some f2 \<Longrightarrow> f2 = GrpcPlugin_NoClientAuthCallback E"
    and "cfg_PasswordCallback cf = Some f3 \<Longrightarrow> f3 = GrpcPlugin_PasswordCallback E"
    and "cfg_PublicKeyCallback cf = Some f4 \<Longrightarrow> f4 = GrpcPlugin_PublicKeyCallback E"
    and "cfg_KeyboardInteractiveCallback cf = Some f5 \<Longrightarrow> f5 = GrpcPlugin_KeyboardInteractiveCallback E"
    and "cfg_UpstreamAuthFailureCallback cf = Some f6 \<Longrightarrow> f6 = GrpcPlugin_UpstreamAuthFailureCallbackRemote"
    and "cfg_DownstreamBannerCallback cf = Some f7 \<Longrightarrow> f7 = GrpcPlugin_DownstreamBannerCallback"
    and "cfg_PipeStartCallback cf = Some f8 \<Longrightarrow> f8 = GrpcPlugin_PipeStartCallback"
    and "cfg_PipeErrorCallback cf = Some f9 \<Longrightarrow> f9 = GrpcPlugin_PipeErrorCallback"
  using assms unfolding config_from_def by simp_all

lemma install_one_from:
  "install_one E n (g, cf) = Some (g', cf') \<Longrightarrow> config_from E cf \<Longrightarrow>
     config_from E cf' \<and> client g' = client g"
  unfolding install_one_def Let_def prod.case
  by (simp only: option.inject prod.inject option.distinct config_from_def split: if_split_asm; clarsimp)

lemma install_loop_from:
  "install_loop E ns (g, cf) = ((g', cf'), e) \<Longrightarrow> config_from E cf \<Longrightarrow>
     config_from E cf' \<and> client g' = client g"
proof (induction ns arbitrary: g cf)
  case (Cons n ns)
  then show ?case
    by (fastforce dest: install_one_from split: option.splits)
qed simp

lemma CreatePiperConfig_from:
  assumes "CreatePiperConfig E g = ((g', cf), None)"
  shows "config_from E cf \<and> client g' = client g"
proof -
  have *: "config_from E (empty_grpc_config\<lparr>cfg_CreateChallengeContext := f\<rparr>)" for f
    by (simp add: config_from_def empty_grpc_config_def)
  from assms show ?thesis
    by (auto simp: CreatePiperConfig_def InstallPiperConfig_def split: sum.splits
        dest!: install_loop_from intro: *)
qed

lemma built_wf:
  assumes "built E cp"
  shows "length (plugins cp) = length (pluginsCallback cp) \<and> (\<forall>cf \<in> set (pluginsCallback cp). config_from E cf)"
  using assms
proof induction
  case (built_append cp p cp')
  then show ?case
    by (auto simp: Append_def split: prod.splits option.splits dest!: CreatePiperConfig_from)
qed (simp add: empty_chain_def)

lemma built_config: "built E cp \<Longrightarrow> i < length (pluginsCallback cp) \<Longrightarrow> config_from E (pluginsCallback cp ! i)"
  by (simp add: built_wf)

section \<open>How a context evolves\<close>

text \<open>
  \<open>ctx_le n ctx ctx'\<close>: \<open>ctx'\<close> is a later state of the context of the same connection in a chain
  of \<open>n\<close> plugins.
\<close>

definition ctx_le :: "nat \<Rightarrow> challenge_ctx \<Rightarrow> challenge_ctx \<Rightarrow> bool" where
  "ctx_le n ctx ctx' \<longleftrightarrow>
     (\<exists>m cur m' cur'. ctx = ChainCtx m cur \<and> ctx' = ChainCtx m' cur' \<and> cur \<le> cur' \<and> cur' < n
        \<and> UniqId m' = UniqId m \<and> FromAddr m' = FromAddr m \<and> dom (Metadata m) \<subseteq> dom (Metadata m'))"

definition in_chain :: "nat \<Rightarrow> challenge_ctx \<Rightarrow> bool" where
  "in_chain n ctx \<longleftrightarrow> (\<exists>m cur. ctx = ChainCtx m cur \<and> cur < n)"

lemma ctx_le_refl: "in_chain n ctx \<Longrightarrow> ctx_le n ctx ctx"
  by (auto simp: in_chain_def ctx_le_def)

lemma ctx_le_trans: "ctx_le n a b \<Longrightarrow> ctx_le n b c \<Longrightarrow> ctx_le n a c"
  by (fastforce simp: ctx_le_def)

lemma ctx_le_in_chain: "ctx_le n a b \<Longrightarrow> in_chain n b"
  by (auto simp: ctx_le_def in_chain_def)

lemma ctx_le_UserName: "in_chain n ctx \<Longrightarrow> ctx_le n ctx (ctx_upd (UserName_update f) ctx)"
  by (auto simp: in_chain_def ctx_le_def)

lemma ctx_le_Metadata: "in_chain n ctx \<Longrightarrow> ctx_le n ctx (ctx_upd (Metadata_update (\<lambda>md. md ++ m)) ctx)"
  by (auto simp: in_chain_def ctx_le_def)

lemma ctx_le_setUpstreamEnv: "in_chain n ctx \<Longrightarrow> ctx_le n ctx (setUpstreamEnv ctx env)"
  by (auto simp: in_chain_def ctx_le_def setUpstreamEnv_def)

lemma in_chain_not_Other: "in_chain n ctx \<Longrightarrow> ctx \<noteq> OtherCtx"
  by (auto simp: in_chain_def)

lemma ctx_le_toMeta: "in_chain n ctx \<Longrightarrow> toMeta ctx c = Some (ctx', meta) \<Longrightarrow> ctx_le n ctx ctx'"
  by (auto simp: toMeta_def ctx_le_UserName split: option.splits)

lemma ctx_le_onNextPlugin:
  "in_chain (length (pluginsCallback cp)) ctx \<Longrightarrow> onNextPlugin cp ctx m = (ctx', r) \<Longrightarrow>
     ctx_le (length (pluginsCallback cp)) ctx ctx' \<and> r \<noteq> Panics"
  by (auto simp: in_chain_def onNextPlugin_def ctx_le_def Let_def split: if_splits)

lemma ctx_le_with_meta:
  assumes "with_meta ctx c f = (ctx', r)" "in_chain n ctx"
    and "\<And>ctx1 meta. toMeta ctx c = Some (ctx1, meta) \<Longrightarrow> f ctx1 meta = (ctx', r) \<Longrightarrow> in_chain n ctx1 \<Longrightarrow> ctx_le n ctx1 ctx'"
  shows "ctx_le n ctx ctx'"
  using assms(1)
proof (cases rule: with_meta_cases)
  case 1
  with assms(2) show ?thesis
    by (auto dest: in_chain_not_Other)
next
  case (2 ctx1 meta)
  then have "ctx_le n ctx ctx1"
    using assms(2) by (blast intro: ctx_le_toMeta)
  moreover from this have "ctx_le n ctx1 ctx'"
    using 2 assms(3) ctx_le_in_chain by blast
  ultimately show ?thesis
    by (rule ctx_le_trans)
qed

lemma plugin_at_simps [simp]:
  "OnNextPlugin (plugin_at cp i) = Some (onNextPlugin cp)"
  "client (plugin_at cp i) = client (plugins cp ! i)"
  by (simp_all add: plugin_at_def)

lemma ctx_le_upstream_body:
  "upstream_body E g up ctx meta = (ctx', r) \<Longrightarrow> in_chain n ctx \<Longrightarrow> ctx_le n ctx ctx'"
  by (auto simp: upstream_body_def split: option.splits upstream_auth.splits sum.splits
      intro: ctx_le_refl ctx_le_Metadata ctx_le_setUpstreamEnv)

lemma createUpstream_not_next:
  "\<forall>m. Option.bind up Auth \<noteq> Some (NextPluginAuth m) \<Longrightarrow>
     createUpstream E g c ctx up = with_meta ctx c (upstream_body E g up)"
  by (auto simp: createUpstream_def split: option.splits upstream_auth.splits)

lemma createUpstream_next:
  "up = Some u \<Longrightarrow> Auth u = Some (NextPluginAuth m) \<Longrightarrow> onNextPlugin cp ctx m = (ctx', r) \<Longrightarrow>
     createUpstream E (plugin_at cp i) c ctx up = (ctx', bind_out r (\<lambda>_. Returns None))"
  by (simp add: createUpstream_def)

lemma ctx_le_createUpstream:
  assumes "createUpstream E (plugin_at cp i) c ctx up = (ctx', r)"
    and "in_chain (length (pluginsCallback cp)) ctx" (is "in_chain ?n ctx")
  shows "ctx_le ?n ctx ctx'"
proof (cases "\<exists>m. Option.bind up Auth = Some (NextPluginAuth m)")
  case True
  then show ?thesis
    using assms(1) ctx_le_onNextPlugin [OF assms(2)]
    by (auto simp: createUpstream_def split: prod.splits)
next
  case False
  then have "with_meta ctx c (upstream_body E (plugin_at cp i) up) = (ctx', r)"
    using assms(1) by (simp add: createUpstream_not_next)
  then show ?thesis
    using assms(2) ctx_le_upstream_body by (rule ctx_le_with_meta)
qed

lemma ctx_le_reply_upstream:
  assumes "reply_upstream E (plugin_at cp i) c ctx rpc = (ctx', r)"
    and "in_chain (length (pluginsCallback cp)) ctx" (is "in_chain ?n ctx")
  shows "ctx_le ?n ctx ctx'"
  using assms(1) [unfolded reply_upstream_def] assms(2)
  by (rule ctx_le_with_meta) (auto split: sum.splits intro: ctx_le_refl ctx_le_createUpstream)

lemma ctx_le_ki_loop:
  "ki_loop E (plugin_at cp i) c ask send p q ctx d = Some (d', ctx', r) \<Longrightarrow>
   in_chain (length (pluginsCallback cp)) ctx \<Longrightarrow> ctx_le (length (pluginsCallback cp)) ctx ctx'"
proof (induction p arbitrary: q ctx d)
  case (PStop e)
  then show ?case
    by (auto intro: ctx_le_refl)
next
  case (PRecv f)
  then show ?case
    by (cases q) (auto intro: PRecv.IH [OF rangeI])
next
  case (PSend msg k)
  show ?case
  proof (cases msg)
    case (PromptRequest name instruction qs)
    with PSend show ?thesis
      by (auto split: prod.splits sum.splits if_splits option.splits intro: ctx_le_refl)
  next
    case MetaRequest
    with PSend.prems obtain ctx1 meta where m: "toMeta ctx c = Some (ctx1, meta)"
      by (cases "toMeta ctx c") (auto dest: in_chain_not_Other)
    with PSend.prems have le: "ctx_le (length (pluginsCallback cp)) ctx ctx1"
      by (blast intro: ctx_le_toMeta)
    then have "ctx_le (length (pluginsCallback cp)) ctx1 ctx'"
      using MetaRequest PSend m by (auto split: option.splits intro: ctx_le_refl dest: ctx_le_in_chain)
    with le show ?thesis
      by (rule ctx_le_trans)
  next
    case (FinishRequest u)
    with PSend.prems show ?thesis
      by (auto split: option.splits intro: ctx_le_refl ctx_le_createUpstream)
  qed (use PSend in auto)
qed

section \<open>Sessions of authentication\<close>

text \<open>
  What the SSH server may do with a connection: ask for the next methods or the banner, offer one
  of the four kinds of credentials, or report a failed upstream attempt, in any order and any
  number of times.
\<close>

inductive auth_step ::
  "('k, 'c, 'd) chain \<Rightarrow> conn \<Rightarrow> challenge_ctx \<Rightarrow> challenge_ctx \<Rightarrow> bool" for cp c where
  methods: "Chain_NextAuthMethods cp c ctx = (ctx', r) \<Longrightarrow> auth_step cp c ctx ctx'"
| banner: "Chain_DownstreamBannerCallback cp c ctx = (ctx', r) \<Longrightarrow> auth_step cp c ctx ctx'"
| none: "Chain_NoClientAuthCallback cp c ctx = (ctx', r) \<Longrightarrow> auth_step cp c ctx ctx'"
| password: "Chain_PasswordCallback cp c pw ctx = (ctx', r) \<Longrightarrow> auth_step cp c ctx ctx'"
| publickey: "Chain_PublicKeyCallback cp c key ctx = (ctx', r) \<Longrightarrow> auth_step cp c ctx ctx'"
| keyboard: "Chain_KeyboardInteractiveCallback cp c ask send ctx d = Some (d', ctx', r) \<Longrightarrow>
    auth_step cp c ctx ctx'"
| failure: "Chain_UpstreamAuthFailureCallback cp c method e ctx = (ctx', r) \<Longrightarrow> auth_step cp c ctx ctx'"

lemma with_current_eq:
  "in_chain (length (pluginsCallback cp)) ctx \<Longrightarrow>
     \<exists>cur < length (pluginsCallback cp). with_current cp ctx f = f (plugin_at cp cur) (pluginsCallback cp ! cur)"
  by (auto simp: in_chain_def with_current_def)

lemma ctx_le_with_meta_same:
  "with_meta ctx c (\<lambda>ctx' meta. (ctx', h meta)) = (ctx', r) \<Longrightarrow> in_chain n ctx \<Longrightarrow> ctx_le n ctx ctx'"
  by (erule ctx_le_with_meta) (auto intro: ctx_le_refl)

lemma ctx_le_broadcast:
  assumes "\<forall>p \<in> set ps. \<forall>f. sel p = Some f \<longrightarrow>
      (\<forall>ctx ctx' r. f ctx = (ctx', r) \<longrightarrow> in_chain n ctx \<longrightarrow> ctx_le n ctx ctx')"
    and "broadcast sel ps ctx = (ctx', r)" "in_chain n ctx"
  shows "ctx_le n ctx ctx'"
  using assms
proof (induction ps arbitrary: ctx r)
  case (Cons p ps)
  show ?case
  proof (cases "sel p")
    case (Some f)
    obtain ctx1 r1 where f: "f ctx = (ctx1, r1)"
      by fastforce
    with Some Cons.prems have le: "ctx_le n ctx ctx1"
      by auto
    show ?thesis
    proof (cases r1)
      case (Returns x)
      with Some f Cons.prems(2) obtain r2 where "broadcast sel ps ctx1 = (ctx', r2)"
        by (auto split: prod.splits)
      then have "ctx_le n ctx1 ctx'"
        using Cons.IH Cons.prems(1) ctx_le_in_chain [OF le] by auto
      with le show ?thesis
        by (rule ctx_le_trans)
    qed (use Some f le Cons.prems in auto)
  qed (use Cons in auto)
qed (auto intro: ctx_le_refl)

lemma ctx_le_failure:
  "GrpcPlugin_UpstreamAuthFailureCallbackRemote c method e ctx = (ctx', r) \<Longrightarrow> in_chain n ctx \<Longrightarrow> ctx_le n ctx ctx'"
  unfolding GrpcPlugin_UpstreamAuthFailureCallbackRemote_def by (rule ctx_le_with_meta_same)

lemma auth_step_ctx_le:
  assumes "built E cp" "auth_step cp c ctx ctx'" "in_chain (length (pluginsCallback cp)) ctx"
  shows "ctx_le (length (pluginsCallback cp)) ctx ctx'"
proof -
  let ?n = "length (pluginsCallback cp)"
  from assms(3) obtain m cur where ctx: "ctx = ChainCtx m cur" and cur: "cur < ?n"
    by (auto simp: in_chain_def)
  let ?cf = "pluginsCallback cp ! cur"
  have cf: "config_from E ?cf"
    using assms(1) cur by (rule built_config)
  note here = with_current_def ctx cur
  from assms(2) show ?thesis
  proof cases
    case (methods r)
    then show ?thesis
      using cf assms(3) by (auto simp: Chain_NextAuthMethods_def here GrpcPlugin_NextAuthMethodsRemote_def
          dest!: config_fromD [OF cf] split: option.splits sum.splits intro: ctx_le_refl ctx_le_with_meta_same)
  next
    case (banner r)
    then show ?thesis
      using cf assms(3) by (auto simp: Chain_DownstreamBannerCallback_def here GrpcPlugin_DownstreamBannerCallback_def
          dest!: config_fromD [OF cf] split: option.splits sum.splits intro: ctx_le_refl ctx_le_with_meta_same)
  next
    case (none r)
    then show ?thesis
      using cf assms(3) by (auto simp: Chain_NoClientAuthCallback_def here GrpcPlugin_NoClientAuthCallback_def
          dest!: config_fromD [OF cf] split: option.splits sum.splits intro: ctx_le_refl ctx_le_reply_upstream)
  next
    case (password pw r)
    then show ?thesis
      using cf assms(3) by (auto simp: Chain_PasswordCallback_def here GrpcPlugin_PasswordCallback_def
          dest!: config_fromD [OF cf] split: option.splits sum.splits intro: ctx_le_refl ctx_le_reply_upstream)
  next
    case (publickey key r)
    then show ?thesis
      using cf assms(3) by (auto simp: Chain_PublicKeyCallback_def here GrpcPlugin_PublicKeyCallback_def
          dest!: config_fromD [OF cf] split: option.splits sum.splits intro: ctx_le_refl ctx_le_reply_upstream)
  next
    case (keyboard ask send d d' r)
    then show ?thesis
      using cf assms(3) by (auto simp: Chain_KeyboardInteractiveCallback_def here GrpcPlugin_KeyboardInteractiveCallback_def
          dest!: config_fromD [OF cf] split: option.splits sum.splits intro: ctx_le_refl ctx_le_ki_loop)
  next
    case (failure meth e r)
    have "\<forall>p \<in> set (pluginsCallback cp). config_from E p"
      using built_wf [OF assms(1)] by simp
    then show ?thesis
      using failure assms(3) unfolding Chain_UpstreamAuthFailureCallback_def
      by (elim ctx_le_broadcast [rotated]) (auto dest!: bspec config_fromD(6) intro: ctx_le_failure)
  qed
qed

text \<open>
  C27: the chain position is safe and only moves forward.  For a chain the daemon built and a
  connection whose context was created for it, any sequence of authentication steps keeps the
  position within the chain (the index \<^verbatim>\<open>pluginsCallback[current]\<close> never panics), never moves it
  back, never changes the connection's id or source address, and never loses a metadata key.
\<close>

theorem chain_context_invariant:
  assumes "built E cp" "plugins cp \<noteq> []" "Chain_CreateChallengeContext cp uuid c = Inr ctx"
    and "(auth_step cp c)\<^sup>*\<^sup>* ctx ctx1" "(auth_step cp c)\<^sup>*\<^sup>* ctx1 ctx2"
  shows "\<exists>m1 cur1 m2 cur2. ctx1 = ChainCtx m1 cur1 \<and> ctx2 = ChainCtx m2 cur2
    \<and> cur1 \<le> cur2 \<and> cur2 < length (pluginsCallback cp)
    \<and> uuid = Inr (UniqId m2) \<and> FromAddr m2 = RemoteAddr c
    \<and> dom (Metadata m1) \<subseteq> dom (Metadata m2)"
proof -
  let ?n = "length (pluginsCallback cp)"
  have n: "0 < ?n"
    using built_wf [OF assms(1)] assms(2) by auto
  have run: "ctx_le ?n a b" if "(auth_step cp c)\<^sup>*\<^sup>* a b" "in_chain ?n a" for a b
    using that
    by (induction rule: rtranclp_induct)
      (auto intro: ctx_le_refl ctx_le_trans auth_step_ctx_le [OF assms(1)] dest: ctx_le_in_chain)
  from assms(3) n have c0: "in_chain ?n ctx" "\<exists>m. ctx = ChainCtx m 0 \<and> uuid = Inr (UniqId m) \<and> FromAddr m = RemoteAddr c"
    by (auto simp: Chain_CreateChallengeContext_def bind_res_eq_Inr Let_def new_conn_meta_def in_chain_def
        split: option.splits)
  have "ctx_le ?n ctx ctx1"
    using assms(4) c0(1) by (rule run)
  moreover from this have "ctx_le ?n ctx1 ctx2"
    using assms(5) ctx_le_in_chain run by blast
  ultimately show ?thesis
    using c0(2) by (auto simp: ctx_le_def)
qed

section \<open>Who decides\<close>

text \<open>The three callbacks that put one request to the current plugin, by the credential offered.\<close>

datatype credential = NoCredential | Password bytes | Key bytes

fun offer ::
  "('k, 'c, 'd) chain \<Rightarrow> conn \<Rightarrow> credential \<Rightarrow> challenge_ctx \<Rightarrow> ('k, 'c) ssh_upstream option step" where
  "offer cp c NoCredential ctx = Chain_NoClientAuthCallback cp c ctx"
| "offer cp c (Password pw) ctx = Chain_PasswordCallback cp c pw ctx"
| "offer cp c (Key k) ctx = Chain_PublicKeyCallback cp c k ctx"

fun plugin_reply :: "rpc_client \<Rightarrow> credential \<Rightarrow> conn_meta \<Rightarrow> upstream option res" where
  "plugin_reply cl NoCredential meta = NoneAuth_rpc cl meta"
| "plugin_reply cl (Password pw) meta = PasswordAuth_rpc cl meta pw"
| "plugin_reply cl (Key k) meta = PublicKeyAuth_rpc cl meta k"

lemma plugin_reply_fun:
  "plugin_reply cl NoCredential = NoneAuth_rpc cl"
  "plugin_reply cl (Password pw) = (\<lambda>meta. PasswordAuth_rpc cl meta pw)"
  "plugin_reply cl (Key k) = (\<lambda>meta. PublicKeyAuth_rpc cl meta k)"
  by (auto simp: fun_eq_iff)

text \<open>What the outcome of an offer says about the reply \<open>rep\<close> of the plugin at position \<open>cur\<close>.\<close>

definition outcome_of_reply ::
  "(conn_meta \<Rightarrow> upstream option res) \<Rightarrow> conn \<Rightarrow> plugin_conn_meta \<Rightarrow> nat \<Rightarrow> challenge_ctx
     \<Rightarrow> ('k, 'c) ssh_upstream option outcome \<Rightarrow> bool" where
  "outcome_of_reply rep c m cur ctx' r =
     (case r of
        Returns (Some v) \<Rightarrow>
          \<exists>meta u m'. UserName meta = User c \<and> rep meta = Inr (Some u) \<and> CUser v = UpUserName u
            \<and> ctx' = ChainCtx m' cur \<and> Env m' = UpEnv u
      | Returns None \<Rightarrow>
          \<exists>meta u nm m'. rep meta = Inr (Some u) \<and> Auth u = Some (NextPluginAuth nm)
            \<and> ctx' = ChainCtx m' (cur + 1) \<and> Metadata m' = Metadata m ++ nm
      | Fails e \<Rightarrow> \<exists>m'. ctx' = ChainCtx m' cur
      | Panics \<Rightarrow> \<exists>meta. rep meta = Inr None)"

lemma toMeta_ChainCtx:
  "toMeta (ChainCtx m cur) c =
     Some (ChainCtx (m\<lparr>UserName := User c\<rparr>) cur, conn_meta.truncate (m\<lparr>UserName := User c\<rparr>))"
  by (simp add: toMeta_def)

lemma createUpstream_outcome:
  assumes "createUpstream E (plugin_at cp i) c (ChainCtx m cur) up = (ctx', r)" "rep meta = Inr up"
    and "UserName meta = User c"
  shows "outcome_of_reply rep c m cur ctx' r"
proof (cases "\<exists>nm. Option.bind up Auth = Some (NextPluginAuth nm)")
  case True
  then obtain u nm where "up = Some u" "Auth u = Some (NextPluginAuth nm)"
    by (auto simp: bind_eq_Some_conv)
  then show ?thesis
    using assms
    by (fastforce simp: createUpstream_def outcome_of_reply_def onNextPlugin_def Let_def
        split: if_splits)
next
  case False
  then have "with_meta (ChainCtx m cur) c (upstream_body E (plugin_at cp i) up) = (ctx', r)"
    using assms(1) by (simp add: createUpstream_not_next)
  then show ?thesis
    using assms(2,3)
    by (auto simp: with_meta_def toMeta_ChainCtx upstream_body_def outcome_of_reply_def setUpstreamEnv_def
        split: option.splits upstream_auth.splits sum.splits intro!: exI [of _ meta])
qed

lemma reply_upstream_outcome:
  assumes "reply_upstream E (plugin_at cp i) c (ChainCtx m cur) rep = (ctx', r)"
  shows "outcome_of_reply rep c m cur ctx' r"
proof -
  let ?m = "m\<lparr>UserName := User c\<rparr>"
  show ?thesis
  proof (cases "rep (conn_meta.truncate ?m)")
    case (Inl e)
    with assms show ?thesis
      by (auto simp: reply_upstream_def with_meta_def toMeta_ChainCtx outcome_of_reply_def)
  next
    case (Inr up)
    then have "createUpstream E (plugin_at cp i) c (ChainCtx ?m cur) up = (ctx', r)"
      using assms by (simp add: reply_upstream_def with_meta_def toMeta_ChainCtx)
    then have "outcome_of_reply rep c ?m cur ctx' r"
      using Inr by (rule createUpstream_outcome) (simp add: conn_meta.defs)
    then show ?thesis
      by (simp add: outcome_of_reply_def split: outcome.splits option.splits)
  qed
qed

text \<open>
  C1: only the plugin at the current position decides.  When a client offers a credential to a
  chain the daemon built, an upstream is created only from the reply of the plugin at the current
  position, for the user of the connection and with that reply's user and environment; the
  position moves, by exactly one and with the reply's metadata merged in, only if that plugin
  delegated to the next one; every error leaves the position unchanged; and the daemon panics
  only if the plugin replied without an error and without an upstream.
\<close>

theorem chain_offer_outcome:
  assumes "built E cp" "cur < length (pluginsCallback cp)"
    and "offer cp c cred (ChainCtx m cur) = (ctx', r)"
  shows "outcome_of_reply (plugin_reply (client (plugins cp ! cur)) cred) c m cur ctx' r"
proof -
  have cf: "config_from E (pluginsCallback cp ! cur)"
    using assms(1,2) by (rule built_config)
  note defs = Chain_NoClientAuthCallback_def Chain_PasswordCallback_def Chain_PublicKeyCallback_def
    with_current_def not_implemented_def GrpcPlugin_NoClientAuthCallback_def
    GrpcPlugin_PasswordCallback_def GrpcPlugin_PublicKeyCallback_def
  note [simp] = plugin_reply_fun
  have none: "outcome_of_reply rep c m cur (ChainCtx m cur) (Fails e)" for rep e
    by (simp add: outcome_of_reply_def)
  show ?thesis
    using assms(2,3) none
    by (cases cred)
      (auto simp: defs dest!: config_fromD [OF cf] split: option.splits dest!: reply_upstream_outcome)
qed

section \<open>A chain of one plugin\<close>

definition demo_chain :: "(nat, string \<times> string, unit) chain" where
  "demo_chain = fst (Append demo_env empty_chain (DialGrpc demo_client))"

definition demo_ctx :: challenge_ctx where
  "demo_ctx = ChainCtx (new_conn_meta ''id'' demo_conn) 0"

lemma demo_append: "Append demo_env empty_chain (DialGrpc demo_client) = (demo_chain, None)"
  by (simp add: demo_chain_def Append_def CreatePiperConfig_def InstallPiperConfig_def DialGrpc_def
      demo_client_def install_one_def split: prod.splits)

lemma demo_chain_built: "built demo_env demo_chain"
  using built_empty demo_append by (rule built_append)

lemma demo_chain_plugins:
  "length (pluginsCallback demo_chain) = 1"
  "plugins demo_chain = [DialGrpc demo_client]"
  by (simp_all add: demo_chain_def Append_def CreatePiperConfig_def InstallPiperConfig_def DialGrpc_def
      demo_client_def install_one_def empty_chain_def)

theorem chain_offer_outcome_witness:
  "\<exists>ctx' r. offer demo_chain demo_conn (Password [1]) demo_ctx = (ctx', r)
     \<and> outcome_of_reply (plugin_reply demo_client (Password [1])) demo_conn
          (new_conn_meta ''id'' demo_conn) 0 ctx' r"
proof -
  obtain ctx' r where "offer demo_chain demo_conn (Password [1]) demo_ctx = (ctx', r)"
    by fastforce
  moreover from chain_offer_outcome [OF demo_chain_built _ this [unfolded demo_ctx_def]]
  have "outcome_of_reply (plugin_reply demo_client (Password [1])) demo_conn
          (new_conn_meta ''id'' demo_conn) 0 ctx' r"
    by (simp add: demo_chain_plugins DialGrpc_def)
  ultimately show ?thesis
    by blast
qed

theorem chain_context_invariant_witness:
  "\<exists>ctx' m cur. auth_step demo_chain demo_conn demo_ctx ctx' \<and> ctx' = ChainCtx m cur
     \<and> cur < length (pluginsCallback demo_chain) \<and> UniqId m = ''id''"
proof -
  obtain ctx' r where "Chain_PasswordCallback demo_chain demo_conn [1] demo_ctx = (ctx', r)"
    by fastforce
  then have step: "auth_step demo_chain demo_conn demo_ctx ctx'"
    by (rule auth_step.password)
  then have steps: "(auth_step demo_chain demo_conn)\<^sup>*\<^sup>* demo_ctx ctx'"
    by blast
  have init: "Chain_CreateChallengeContext demo_chain (Inr ''id'') demo_conn = Inr demo_ctx"
    by (simp add: Chain_CreateChallengeContext_def demo_chain_plugins demo_ctx_def NewConnection_def DialGrpc_def)
  obtain m cur where "ctx' = ChainCtx m cur" "cur < length (pluginsCallback demo_chain)" "UniqId m = ''id''"
    using chain_context_invariant [OF demo_chain_built _ init rtranclp.rtrancl_refl steps]
    by (auto simp: demo_chain_plugins)
  with step show ?thesis
    by blast
qed

end
