(* ===== verification/Host_Keys.thy ===== *)
theory Host_Keys
  imports Go_Strings
begin

text \<open>
  The daemon's host keys and host certificates (\<^verbatim>\<open>generateSshKey\<close>, \<^verbatim>\<open>certSignerFromBytes\<close>, \<^verbatim>\<open>loadCertSigner\<close>,
  \<^verbatim>\<open>findMatchingCert\<close> and \<^verbatim>\<open>loadHostKeys\<close> in \<^verbatim>\<open>cmd/sshpiperd/daemon.go\<close>).

  The file system is a map from paths to contents.  The SSH library, base64, \<^verbatim>\<open>filepath.Glob\<close> and the
  random source are the fields of \<open>host_env\<close>, over the types \<open>'s\<close> of signers, \<open>'p\<close> of public keys and
  \<open>'c\<close> of certificates.
\<close>

section \<open>The environment and the options\<close>

datatype ('p, 'c) authorized_key = PlainKey 'p | Certificate 'c

type_synonym file_system = "string \<rightharpoonup> bytes"

record ('s, 'p, 'c) host_env =
  HDecodeBase64 :: "string \<Rightarrow> bytes res"
  HGlob :: "file_system \<Rightarrow> string \<Rightarrow> string list res"
  HParsePrivateKey :: "bytes \<Rightarrow> 's res"
  HParseAuthorizedKey :: "bytes \<Rightarrow> ('p, 'c) authorized_key res"
  HPublicKey :: "'s \<Rightarrow> 'p"
  HCertType :: "'c \<Rightarrow> u32"
  HCertKey :: "'c \<Rightarrow> 'p"
  HFingerprint :: "'p \<Rightarrow> string"
  HNewCertSigner :: "'c \<Rightarrow> 's \<Rightarrow> 's res"
  HGenerateKey :: "bytes res"
  HMarshalKey :: "bytes \<Rightarrow> bytes res"
  HWriteErr :: "string \<Rightarrow> goerr option"

record key_options =
  server_key :: string
  server_key_data :: string
  server_key_generate_mode :: string
  server_cert :: string
  server_cert_data :: string

abbreviation HostCert :: u32 where "HostCert \<equiv> 2"

definition read_file :: "file_system \<Rightarrow> string \<Rightarrow> bytes res" where
  "read_file fs path = (case fs path of None \<Rightarrow> Inl (Ext ''no such file'') | Some b \<Rightarrow> Inr b)"

section \<open>Loading\<close>

definition generateSshKey ::
  "('s, 'p, 'c) host_env \<Rightarrow> string \<Rightarrow> file_system \<Rightarrow> file_system \<times> goerr option" where
  "generateSshKey E keyfile fs =
     (case bind_res (HGenerateKey E) (HMarshalKey E) of
        Inl e \<Rightarrow> (fs, Some e)
      | Inr pem \<Rightarrow>
          (case HWriteErr E keyfile of
             Some e \<Rightarrow> (fs, Some e)
           | None \<Rightarrow> (fs(keyfile \<mapsto> pem), None)))"

definition certSignerFromBytes :: "('s, 'p, 'c) host_env \<Rightarrow> 's \<Rightarrow> bytes \<Rightarrow> string \<Rightarrow> 's res" where
  "certSignerFromBytes E private certBytes source =
     bind_res (HParseAuthorizedKey E certBytes) (\<lambda>pub.
       case pub of
         PlainKey _ \<Rightarrow> Inl (Errorf ''not a valid ssh certificate: %v'' [source])
       | Certificate cert \<Rightarrow>
           if HCertType E cert \<noteq> HostCert
           then Inl (Errorf ''certificate %v is not a host certificate (got type %d)''
                       [source, utoa (uint (HCertType E cert))])
           else HNewCertSigner E cert private)"

definition loadCertSigner :: "('s, 'p, 'c) host_env \<Rightarrow> file_system \<Rightarrow> 's \<Rightarrow> string \<Rightarrow> 's res" where
  "loadCertSigner E fs private certFile =
     bind_res (read_file fs certFile) (\<lambda>b. certSignerFromBytes E private b certFile)"

text \<open>The empty string is the result when no certificate matches.\<close>

fun findMatchingCert :: "('s, 'p, 'c) host_env \<Rightarrow> file_system \<Rightarrow> 's \<Rightarrow> string list \<Rightarrow> string" where
  "findMatchingCert E fs private [] = ''''"
| "findMatchingCert E fs private (certFile # rest) =
     (case read_file fs certFile of
        Inl _ \<Rightarrow> findMatchingCert E fs private rest
      | Inr certBytes \<Rightarrow>
          (case HParseAuthorizedKey E certBytes of
             Inr (Certificate cert) \<Rightarrow>
               if HCertType E cert \<noteq> HostCert then findMatchingCert E fs private rest
               else if HFingerprint E (HCertKey E cert) = HFingerprint E (HPublicKey E private) then certFile
               else findMatchingCert E fs private rest
           | _ \<Rightarrow> findMatchingCert E fs private rest))"

definition wrap :: "string \<Rightarrow> string list \<Rightarrow> 'a res \<Rightarrow> 'a res" where
  "wrap fmt args r = (case r of Inl e \<Rightarrow> Inl (Wrapf fmt args e) | Inr x \<Rightarrow> Inr x)"

text \<open>
  The certificate options: \<^verbatim>\<open>certBytes\<close> (nil without \<^verbatim>\<open>--server-cert-data\<close>) and \<^verbatim>\<open>certFiles\<close>.
\<close>

definition cert_source ::
  "('s, 'p, 'c) host_env \<Rightarrow> key_options \<Rightarrow> file_system \<Rightarrow> (bytes option \<times> string list) res" where
  "cert_source E opt fs =
     (if server_cert_data opt \<noteq> '''' then
        bind_res (wrap ''failed to decode --server-cert-data: %w'' [] (HDecodeBase64 E (server_cert_data opt)))
          (\<lambda>b. Inr (Some b, []))
      else if server_cert opt \<noteq> '''' then
        bind_res (HGlob E fs (server_cert opt)) (\<lambda>certFiles.
          if certFiles = [] then Inl (Errorf ''--server-cert %q matched no files'' [server_cert opt])
          else Inr (None, certFiles))
      else Inr (None, []))"

text \<open>
  The body both paths share: pair a private key with its certificate, if one is configured.  The key
  is named by its file (\<open>Some f\<close>) or is that of \<^verbatim>\<open>--server-key-data\<close>.
\<close>

definition with_cert ::
  "('s, 'p, 'c) host_env \<Rightarrow> file_system \<Rightarrow> bytes option \<Rightarrow> string list \<Rightarrow> string option \<Rightarrow> 's \<Rightarrow> 's res" where
  "with_cert E fs certBytes certFiles key private =
     (case certBytes of
        Some b \<Rightarrow>
          (case key of
             None \<Rightarrow> wrap ''failed to load host certificate from --server-cert-data: %w'' []
           | Some f \<Rightarrow> wrap ''failed to load host certificate from --server-cert-data for key %v: %w'' [f])
          (certSignerFromBytes E private b ''--server-cert-data'')
      | None \<Rightarrow>
          if certFiles = [] then Inr private
          else let certFile = findMatchingCert E fs private certFiles
               in if certFile = ''''
                  then Inl (case key of
                         None \<Rightarrow> Errorf ''no host certificate in %v matched the provided key fingerprint'' certFiles
                       | Some f \<Rightarrow> Errorf ''no host certificate in %v matched key %v'' (certFiles @ [f]))
                  else wrap ''failed to load host certificate %v: %w'' [certFile] (loadCertSigner E fs private certFile))"

fun load_key_files ::
  "('s, 'p, 'c) host_env \<Rightarrow> file_system \<Rightarrow> bytes option \<Rightarrow> string list \<Rightarrow> string list \<Rightarrow> 's list res" where
  "load_key_files E fs certBytes certFiles [] = Inr []"
| "load_key_files E fs certBytes certFiles (f # fls) =
     bind_res (wrap ''failed to read server key %v: %w'' [f] (read_file fs f)) (\<lambda>b.
     bind_res (wrap ''failed to parse server key %v: %w'' [f] (HParsePrivateKey E b)) (\<lambda>private.
     bind_res (with_cert E fs certBytes certFiles (Some f) private) (\<lambda>s.
     bind_res (load_key_files E fs certBytes certFiles fls) (\<lambda>rest. Inr (s # rest)))))"

definition generate_key :: "key_options \<Rightarrow> string list \<Rightarrow> bool res" where
  "generate_key opt keyFiles =
     (if server_key_generate_mode opt = ''notexist'' then Inr (keyFiles = [])
      else if server_key_generate_mode opt = ''always'' then Inr True
      else if server_key_generate_mode opt = ''disable'' then Inr False
      else Inl (Errorf ''unknown server-key-generate-mode %v'' [server_key_generate_mode opt]))"

definition loadHostKeys ::
  "('s, 'p, 'c) host_env \<Rightarrow> key_options \<Rightarrow> file_system \<Rightarrow> file_system \<times> 's list res" where
  "loadHostKeys E opt fs =
     (case cert_source E opt fs of
        Inl e \<Rightarrow> (fs, Inl e)
      | Inr (certBytes, certFiles) \<Rightarrow>
          if server_key_data opt \<noteq> '''' then
            (fs, bind_res (HDecodeBase64 E (server_key_data opt)) (\<lambda>b.
                 bind_res (HParsePrivateKey E b) (\<lambda>private.
                 bind_res (with_cert E fs certBytes certFiles None private) (\<lambda>s. Inr [s]))))
          else
            (case HGlob E fs (server_key opt) of
               Inl e \<Rightarrow> (fs, Inl e)
             | Inr keyFiles \<Rightarrow>
                 (case generate_key opt keyFiles of
                    Inl e \<Rightarrow> (fs, Inl e)
                  | Inr generate \<Rightarrow>
                      (case (if generate then generateSshKey E (server_key opt) fs else (fs, None)) of
                         (fs', Some e) \<Rightarrow> (fs', Inl e)
                       | (fs', None) \<Rightarrow>
                           let privateKeyFiles = (if generate then [server_key opt] else keyFiles)
                           in (fs',
                               if privateKeyFiles = [] then Inl (Errorf ''no server key found'' [])
                               else if certBytes \<noteq> None \<and> length privateKeyFiles > 1
                               then Inl (Errorf ''--server-cert-data provides a single certificate but %d server keys were found; use --server-cert with a glob pattern for multi-key setups''
                                           [itoa (int (length privateKeyFiles))])
                               else load_key_files E fs' certBytes certFiles privateKeyFiles)))))"

section \<open>Every key gets its certificate\<close>

text \<open>What the options promise of the signer \<open>s\<close> made from a private key.\<close>

definition signer_for :: "('s, 'p, 'c) host_env \<Rightarrow> key_options \<Rightarrow> 's \<Rightarrow> 's \<Rightarrow> bool" where
  "signer_for E opt private s =
     (if server_cert_data opt = '''' \<and> server_cert opt = '''' then s = private
      else \<exists>cert. HCertType E cert = HostCert \<and> HNewCertSigner E cert private = Inr s \<and>
             (server_cert_data opt = '''' \<longrightarrow>
                HFingerprint E (HCertKey E cert) = HFingerprint E (HPublicKey E private)))"

definition key_of_file :: "('s, 'p, 'c) host_env \<Rightarrow> file_system \<Rightarrow> string \<Rightarrow> 's \<Rightarrow> bool" where
  "key_of_file E fs f private \<longleftrightarrow> (\<exists>b. fs f = Some b \<and> HParsePrivateKey E b = Inr private)"

lemma wrap_eq_Inr [simp]: "wrap fmt args r = Inr x \<longleftrightarrow> r = Inr x"
  by (auto simp: wrap_def split: sum.splits)

lemma certSignerFromBytes_Inr:
  assumes "certSignerFromBytes E private b src = Inr s"
  obtains cert where "HParseAuthorizedKey E b = Inr (Certificate cert)" "HCertType E cert = HostCert"
    "HNewCertSigner E cert private = Inr s"
proof (cases "HParseAuthorizedKey E b")
  case (Inr pub)
  then show ?thesis
    using assms that by (cases pub) (auto simp: certSignerFromBytes_def split: if_splits)
qed (use assms in \<open>simp add: certSignerFromBytes_def\<close>)

lemma findMatchingCert_Some:
  assumes "findMatchingCert E fs private fls = f" "f \<noteq> ''''"
  shows "f \<in> set fls \<and> (\<exists>b cert. fs f = Some b \<and> HParseAuthorizedKey E b = Inr (Certificate cert) \<and>
           HCertType E cert = HostCert \<and> HFingerprint E (HCertKey E cert) = HFingerprint E (HPublicKey E private))"
  using assms
proof (induction fls)
  case (Cons g fls)
  then show ?case
    by (auto simp: read_file_def split: option.splits sum.splits authorized_key.splits if_splits)
qed simp

lemma with_cert_signer:
  assumes "cert_source E opt fs0 = Inr (certBytes, certFiles)" "with_cert E fs certBytes certFiles key private = Inr s"
  shows "signer_for E opt private s"
proof (cases "server_cert_data opt = ''''")
  case data: True
  then have b: "certBytes = None"
    using assms(1) by (auto simp: cert_source_def bind_res_eq_Inr split: if_splits)
  show ?thesis
  proof (cases "server_cert opt = ''''")
    case True
    then have "certFiles = []"
      using assms(1) data by (simp add: cert_source_def)
    then show ?thesis
      using assms(2) b True data by (simp add: with_cert_def signer_for_def)
  next
    case False
    then have ne: "certFiles \<noteq> []"
      using assms(1) data by (auto simp: cert_source_def bind_res_eq_Inr split: if_splits)
    define f where "f = findMatchingCert E fs private certFiles"
    from assms(2) b ne have f: "f \<noteq> ''''" and l: "loadCertSigner E fs private f = Inr s"
      by (auto simp: with_cert_def f_def Let_def split: if_splits)
    from findMatchingCert_Some [OF f_def [symmetric] f] obtain c cert
      where "fs f = Some c" "HParseAuthorizedKey E c = Inr (Certificate cert)" "HCertType E cert = HostCert"
        "HFingerprint E (HCertKey E cert) = HFingerprint E (HPublicKey E private)"
      by blast
    then show ?thesis
      using l False data
      by (auto simp: loadCertSigner_def read_file_def signer_for_def elim!: certSignerFromBytes_Inr)
  qed
next
  case False
  then obtain b where "certBytes = Some b"
    using assms(1) by (auto simp: cert_source_def bind_res_eq_Inr split: if_splits)
  then show ?thesis
    using assms(2) False by (cases key) (auto simp: with_cert_def signer_for_def elim!: certSignerFromBytes_Inr)
qed

lemma load_key_files_signers:
  assumes "cert_source E opt fs0 = Inr (certBytes, certFiles)" "load_key_files E fs certBytes certFiles fls = Inr ss"
  shows "\<exists>privates. list_all2 (key_of_file E fs) fls privates \<and> list_all2 (signer_for E opt) privates ss"
  using assms(2)
proof (induction fls arbitrary: ss)
  case (Cons f fls)
  then obtain b k s rest where *: "read_file fs f = Inr b" "HParsePrivateKey E b = Inr k"
      "with_cert E fs certBytes certFiles (Some f) k = Inr s" "load_key_files E fs certBytes certFiles fls = Inr rest"
      "ss = s # rest"
    by (auto simp: bind_res_eq_Inr)
  from Cons.IH [OF *(4)] obtain privates
    where "list_all2 (key_of_file E fs) fls privates" "list_all2 (signer_for E opt) privates rest"
    by blast
  moreover have "key_of_file E fs f k"
    using *(1,2) by (auto simp: key_of_file_def read_file_def split: option.splits)
  ultimately show ?case
    using with_cert_signer [OF assms(1) *(3)] *(5) by (intro exI [of _ "k # privates"]) simp
qed simp

text \<open>
  C28: the daemon never starts with a key that lacks its configured certificate.  When the host keys load, there is at least one
  signer; the signers are those of the private keys in order (the single key of \<^verbatim>\<open>--server-key-data\<close>, or one
  per key file on disk after a possible generation); without certificate options each is the bare key,
  and with them each is bound to a host certificate, never a user certificate, which for
  \<^verbatim>\<open>--server-cert\<close> has the fingerprint of that very key.
\<close>

theorem host_certificates_enforced:
  assumes "loadHostKeys E opt fs = (fs', Inr signers)"
  shows "\<exists>privates. privates \<noteq> [] \<and> list_all2 (signer_for E opt) privates signers \<and>
    (if server_key_data opt \<noteq> ''''
     then \<exists>b private. HDecodeBase64 E (server_key_data opt) = Inr b \<and> HParsePrivateKey E b = Inr private \<and> privates = [private]
     else \<exists>keyFiles generate. HGlob E fs (server_key opt) = Inr keyFiles \<and> generate_key opt keyFiles = Inr generate \<and>
            list_all2 (key_of_file E fs') (if generate then [server_key opt] else keyFiles) privates)"
proof -
  from assms obtain cb cf where src: "cert_source E opt fs = Inr (cb, cf)"
    by (auto simp: loadHostKeys_def split: sum.splits)
  show ?thesis
  proof (cases "server_key_data opt = ''''")
    case True
    with assms src obtain keyFiles where g1: "HGlob E fs (server_key opt) = Inr keyFiles"
      by (cases "HGlob E fs (server_key opt)") (simp_all add: loadHostKeys_def)
    with assms src True obtain generate where g: "generate_key opt keyFiles = Inr generate"
      by (cases "generate_key opt keyFiles") (simp_all add: loadHostKeys_def)
    have ne: "(if generate then [server_key opt] else keyFiles) \<noteq> []"
      and l: "load_key_files E fs' cb cf (if generate then [server_key opt] else keyFiles) = Inr signers"
      using assms src True g1 g
      by (auto simp: loadHostKeys_def Let_def simp del: load_key_files.simps split: prod.splits option.splits if_split_asm)
    from load_key_files_signers [OF src l] obtain privates
      where p: "list_all2 (key_of_file E fs') (if generate then [server_key opt] else keyFiles) privates"
        "list_all2 (signer_for E opt) privates signers"
      by blast
    moreover have "privates \<noteq> []"
      using p(1) ne by auto
    ultimately show ?thesis
      using g1 g True by auto
  next
    case False
    then obtain b k s where "HDecodeBase64 E (server_key_data opt) = Inr b" "HParsePrivateKey E b = Inr k"
        and c: "with_cert E fs cb cf None k = Inr s" and "signers = [s]"
      using assms src by (auto simp: loadHostKeys_def bind_res_eq_Inr)
    then show ?thesis
      using with_cert_signer [OF src c] False by (intro exI [of _ "[k]"]) simp
  qed
qed

definition demo_host_env :: "(string, string, string) host_env" where
  "demo_host_env = \<lparr>HDecodeBase64 = \<lambda>s. Inr (bytes_of s),
     HGlob = \<lambda>fs p. Inr (if fs p = None then [] else [p]),
     HParsePrivateKey = \<lambda>b. Inr (str b), HParseAuthorizedKey = \<lambda>b. Inr (Certificate (str b)),
     HPublicKey = \<lambda>s. s, HCertType = \<lambda>_. HostCert, HCertKey = \<lambda>c. c, HFingerprint = \<lambda>p. p,
     HNewCertSigner = \<lambda>c s. if c = s then Inr (s @ ''+cert'') else Inl (Ext ''different public key''),
     HGenerateKey = Inr (bytes_of ''fresh''), HMarshalKey = Inr, HWriteErr = \<lambda>_. None\<rparr>"

definition demo_key_options :: key_options where
  "demo_key_options = \<lparr>server_key = ''k'', server_key_data = '''', server_key_generate_mode = ''notexist'',
     server_cert = ''c'', server_cert_data = ''''\<rparr>"

lemma demo_load:
  "loadHostKeys demo_host_env demo_key_options [''k'' \<mapsto> bytes_of ''key1'', ''c'' \<mapsto> bytes_of ''key1''] =
     ([''k'' \<mapsto> bytes_of ''key1'', ''c'' \<mapsto> bytes_of ''key1''], Inr [''key1+cert''])"
  by (simp add: loadHostKeys_def demo_host_env_def demo_key_options_def cert_source_def generate_key_def read_file_def
      with_cert_def loadCertSigner_def certSignerFromBytes_def wrap_def)

theorem host_certificates_enforced_witness:
  "loadHostKeys demo_host_env demo_key_options [''k'' \<mapsto> bytes_of ''key1'', ''c'' \<mapsto> bytes_of ''key1''] =
     ([''k'' \<mapsto> bytes_of ''key1'', ''c'' \<mapsto> bytes_of ''key1''], Inr [''key1+cert''])
   \<and> (\<exists>privates. privates \<noteq> [] \<and> list_all2 (signer_for demo_host_env demo_key_options) privates [''key1+cert''])"
  using demo_load host_certificates_enforced [OF demo_load] by blast

end
