(* ===== verification/Daemon.thy ===== *)
theory Daemon
  imports Chain_Plugins Host_Keys
begin

text \<open>
  The daemon's configuration (\<^verbatim>\<open>cmd/sshpiperd/daemon.go\<close>: the banner part of \<^verbatim>\<open>newDaemon\<close>, and \<^verbatim>\<open>install\<close>)
  and what the chain of plugins installs in it (\<^verbatim>\<open>InstallPiperConfig\<close> of \<^verbatim>\<open>chain.go\<close>).

  In a \<open>piper_config\<close> each callback is the closure over its plugin or chain, as the SSH server
  calls it.  A field is \<open>None\<close> when the callback is nil.
\<close>

section \<open>The installed callbacks\<close>

record ('k, 'c, 'd) piper_config =
  pc_CreateChallengeContext :: "(string res \<Rightarrow> conn \<Rightarrow> challenge_ctx res) option"
  pc_NextAuthMethods :: "(conn \<Rightarrow> challenge_ctx \<Rightarrow> string list step) option"
  pc_NoClientAuthCallback :: "(conn \<Rightarrow> challenge_ctx \<Rightarrow> ('k, 'c) ssh_upstream option step) option"
  pc_PasswordCallback :: "(conn \<Rightarrow> bytes \<Rightarrow> challenge_ctx \<Rightarrow> ('k, 'c) ssh_upstream option step) option"
  pc_PublicKeyCallback :: "(conn \<Rightarrow> bytes \<Rightarrow> challenge_ctx \<Rightarrow> ('k, 'c) ssh_upstream option step) option"
  pc_KeyboardInteractiveCallback ::
    "(conn \<Rightarrow> 'd challenge \<Rightarrow> (ki_msg \<Rightarrow> goerr option) \<Rightarrow> challenge_ctx \<Rightarrow> 'd
        \<Rightarrow> ('d \<times> ('k, 'c) ssh_upstream option step) option) option"
  pc_UpstreamAuthFailureCallback :: "(conn \<Rightarrow> string \<Rightarrow> auth_failure \<Rightarrow> challenge_ctx \<Rightarrow> notice list step) option"
  pc_DownstreamBannerCallback :: "(conn \<Rightarrow> challenge_ctx \<Rightarrow> string step) option"
  pc_PipeStartCallback :: "(conn \<Rightarrow> challenge_ctx \<Rightarrow> notice list step) option"
  pc_PipeErrorCallback :: "(conn \<Rightarrow> challenge_ctx \<Rightarrow> string \<Rightarrow> notice list step) option"
  pc_PipeCreateErrorCallback :: "(string \<Rightarrow> string \<Rightarrow> notice list) option"

definition one_notice :: "notice step \<Rightarrow> notice list step" where
  "one_notice s = (fst s, bind_out (snd s) (\<lambda>n. Returns [n]))"

text \<open>The configuration a single plugin filled in, with the plugin as it is after the installation.\<close>

definition closures :: "('k, 'c, 'd) installed \<Rightarrow> ('k, 'c, 'd) piper_config" where
  "closures gc =
     (let (g, cf) = gc in
      \<lparr>pc_CreateChallengeContext = map_option (\<lambda>f. f g) (cfg_CreateChallengeContext cf),
       pc_NextAuthMethods = map_option (\<lambda>f. f g) (cfg_NextAuthMethods cf),
       pc_NoClientAuthCallback = map_option (\<lambda>f. f g) (cfg_NoClientAuthCallback cf),
       pc_PasswordCallback = map_option (\<lambda>f. f g) (cfg_PasswordCallback cf),
       pc_PublicKeyCallback = map_option (\<lambda>f. f g) (cfg_PublicKeyCallback cf),
       pc_KeyboardInteractiveCallback = map_option (\<lambda>f. f g) (cfg_KeyboardInteractiveCallback cf),
       pc_UpstreamAuthFailureCallback =
         map_option (\<lambda>f c m e ctx. one_notice (f c m e ctx)) (cfg_UpstreamAuthFailureCallback cf),
       pc_DownstreamBannerCallback = map_option (\<lambda>f. f g) (cfg_DownstreamBannerCallback cf),
       pc_PipeStartCallback = map_option (\<lambda>f c ctx. one_notice (f c ctx)) (cfg_PipeStartCallback cf),
       pc_PipeErrorCallback = map_option (\<lambda>f c ctx err. one_notice (f c ctx err)) (cfg_PipeErrorCallback cf),
       pc_PipeCreateErrorCallback = map_option (\<lambda>f remote err. [f remote err]) (cfg_PipeCreateErrorCallback cf)\<rparr>)"

text \<open>\<^verbatim>\<open>InstallPiperConfig\<close> of a chain assigns every callback of the configuration.\<close>

definition Chain_InstallPiperConfig ::
  "('k, 'c, 'd) chain \<Rightarrow> ('k, 'c, 'd) piper_config \<Rightarrow> ('k, 'c, 'd) piper_config" where
  "Chain_InstallPiperConfig cp config = config\<lparr>
     pc_CreateChallengeContext := Some (Chain_CreateChallengeContext cp),
     pc_NextAuthMethods := Some (Chain_NextAuthMethods cp),
     pc_NoClientAuthCallback := Some (Chain_NoClientAuthCallback cp),
     pc_PasswordCallback := Some (Chain_PasswordCallback cp),
     pc_PublicKeyCallback := Some (Chain_PublicKeyCallback cp),
     pc_KeyboardInteractiveCallback := Some (Chain_KeyboardInteractiveCallback cp),
     pc_UpstreamAuthFailureCallback := Some (Chain_UpstreamAuthFailureCallback cp),
     pc_DownstreamBannerCallback := Some (Chain_DownstreamBannerCallback cp),
     pc_PipeStartCallback := Some (Chain_PipeStartCallback cp),
     pc_PipeErrorCallback := Some (Chain_PipeErrorCallback cp),
     pc_PipeCreateErrorCallback := Some (Chain_PipeCreateErrorCallback cp)\<rparr>"

section \<open>Banners\<close>

text \<open>
  \<open>readFile\<close> is the banner file when the callback runs; the callback ignores connection and context.
\<close>

definition banner_callback ::
  "string \<Rightarrow> string \<Rightarrow> (string \<Rightarrow> bytes res) \<Rightarrow> (conn \<Rightarrow> challenge_ctx \<Rightarrow> string step) option" where
  "banner_callback bannertext bannerfile readFile =
     (if bannertext \<noteq> '''' \<or> bannerfile \<noteq> '''' then
        Some (\<lambda>_ ctx. (ctx, Returns
          (if bannerfile \<noteq> ''''
           then (case readFile bannerfile of Inl _ \<Rightarrow> bannertext | Inr text \<Rightarrow> str text)
           else bannertext)))
      else None)"

text \<open>
  The upstream banner callbacks of the four modes.  \<open>md5hex\<close> is the hash; the result is the context
  and the banner handed to \<^verbatim>\<open>SendAuthBanner\<close>, if any.  In mode \<^verbatim>\<open>passthrough\<close> there is no callback.
\<close>

type_synonym banner_hook = "string \<Rightarrow> challenge_ctx \<Rightarrow> challenge_ctx \<times> string option"

definition once_per :: "(string \<Rightarrow> string) \<Rightarrow> banner_hook" where
  "once_per key banner ctx =
     (case ctx_meta ctx of
        None \<Rightarrow> (ctx, None)
      | Some meta \<Rightarrow>
          if Metadata meta (key banner) = Some ''true'' then (ctx, None)
          else (ctx_upd (Metadata_update (\<lambda>md. md(key banner \<mapsto> ''true''))) ctx, Some banner))"

definition dedup_key :: "(string \<Rightarrow> string) \<Rightarrow> string \<Rightarrow> string" where
  "dedup_key md5hex banner = ''sshpiperd.upstream.banner.'' @ md5hex banner"

definition quoted :: "string \<Rightarrow> string" where
  "quoted s = CHR 0x27 # s @ [CHR 0x27]"

definition upstream_banner_callback :: "(string \<Rightarrow> string) \<Rightarrow> string \<Rightarrow> banner_hook option res" where
  "upstream_banner_callback md5hex mode =
     (if mode = ''passthrough'' then Inr None
      else if mode = ''ignore'' then Inr (Some (\<lambda>_ ctx. (ctx, None)))
      else if mode = ''dedup'' then Inr (Some (once_per (dedup_key md5hex)))
      else if mode = ''first-only'' then Inr (Some (once_per (\<lambda>_. ''sshpiperd.upstream.banner.sent'')))
      else Inl (Errorf (''unknown upstream banner mode %q; allowed: '' @ quoted ''passthrough'' @ '' or '' @ quoted ''ignore'') [mode]))"

section \<open>The new daemon\<close>

record 's daemon_init =
  hostSigners :: "'s list"
  downstreamBanner :: "(conn \<Rightarrow> challenge_ctx \<Rightarrow> string step) option"
  upstreamBanner :: "banner_hook option"

text \<open>The algorithm lists and the listener itself belong to the SSH and net libraries; \<open>listenErr\<close> is the error
  of \<^verbatim>\<open>net.Listen\<close>, if any.\<close>

definition newDaemon ::
  "('s, 'p, 'e) host_env \<Rightarrow> key_options \<Rightarrow> goerr option \<Rightarrow> string \<Rightarrow> string \<Rightarrow> (string \<Rightarrow> bytes res)
     \<Rightarrow> (string \<Rightarrow> string) \<Rightarrow> string \<Rightarrow> file_system \<Rightarrow> file_system \<times> 's daemon_init res" where
  "newDaemon H opt listenErr bannertext bannerfile readFile md5hex mode fs =
     (case loadHostKeys H opt fs of
        (fs', Inl e) \<Rightarrow> (fs', Inl e)
      | (fs', Inr signers) \<Rightarrow>
          (fs',
           case listenErr of
             Some e \<Rightarrow> Inl (Wrapf ''failed to listen for connection: %v'' [] e)
           | None \<Rightarrow>
               bind_res (upstream_banner_callback md5hex mode) (\<lambda>ub.
                 Inr \<lparr>hostSigners = signers, downstreamBanner = banner_callback bannertext bannerfile readFile,
                      upstreamBanner = ub\<rparr>)))"

section \<open>Installing the plugins\<close>

definition daemon_config :: "(conn \<Rightarrow> challenge_ctx \<Rightarrow> string step) option \<Rightarrow> ('k, 'c, 'd) grpc_config" where
  "daemon_config banner = empty_grpc_config\<lparr>cfg_DownstreamBannerCallback := map_option (\<lambda>f _. f) banner\<rparr>"

fun append_all ::
  "('k, 'c) ssh_env \<Rightarrow> ('k, 'c, 'd) chain \<Rightarrow> grpc_plugin list \<Rightarrow> ('k, 'c, 'd) chain res" where
  "append_all E m [] = Inr m"
| "append_all E m (p # ps) =
     (case Append E m p of
        (_, Some e) \<Rightarrow> Inl e
      | (m', None) \<Rightarrow> append_all E m' ps)"

definition install ::
  "('k, 'c) ssh_env \<Rightarrow> (conn \<Rightarrow> challenge_ctx \<Rightarrow> string step) option \<Rightarrow> grpc_plugin list
     \<Rightarrow> ('k, 'c, 'd) piper_config res" where
  "install E banner ps =
     (if length ps = 0 then Inl (Errorf ''no plugins found'' [])
      else if length ps = 1 then
        (case InstallPiperConfig E (hd ps) (daemon_config banner) of
           (_, Some e) \<Rightarrow> Inl e
         | (gc, None) \<Rightarrow> Inr (closures gc))
      else bind_res (append_all E empty_chain ps)
             (\<lambda>m. Inr (Chain_InstallPiperConfig m (closures (hd ps, daemon_config banner)))))"

section \<open>Whoever is installed decides\<close>

fun pc_offer ::
  "('k, 'c, 'd) piper_config \<Rightarrow> conn \<Rightarrow> credential \<Rightarrow> challenge_ctx \<Rightarrow> ('k, 'c) ssh_upstream option step option" where
  "pc_offer pc c NoCredential ctx = map_option (\<lambda>f. f c ctx) (pc_NoClientAuthCallback pc)"
| "pc_offer pc c (Password pw) ctx = map_option (\<lambda>f. f c pw ctx) (pc_PasswordCallback pc)"
| "pc_offer pc c (Key k) ctx = map_option (\<lambda>f. f c k ctx) (pc_PublicKeyCallback pc)"

definition auth_from :: "('k, 'c) ssh_env \<Rightarrow> ('k, 'c, 'd) grpc_config \<Rightarrow> bool" where
  "auth_from E cf \<longleftrightarrow>
     cfg_NoClientAuthCallback cf \<in> {None, Some (GrpcPlugin_NoClientAuthCallback E)}
   \<and> cfg_PasswordCallback cf \<in> {None, Some (GrpcPlugin_PasswordCallback E)}
   \<and> cfg_PublicKeyCallback cf \<in> {None, Some (GrpcPlugin_PublicKeyCallback E)}"

lemma install_one_auth_from:
  "install_one E n (g, cf) = Some (g', cf') \<Longrightarrow> auth_from E cf \<Longrightarrow> auth_from E cf' \<and> client g' = client g"
  unfolding install_one_def Let_def prod.case
  by (simp only: option.inject prod.inject option.distinct auth_from_def split: if_split_asm; clarsimp)

lemma install_loop_auth_from:
  "install_loop E ns (g, cf) = ((g', cf'), e) \<Longrightarrow> auth_from E cf \<Longrightarrow> auth_from E cf' \<and> client g' = client g"
proof (induction ns arbitrary: g cf)
  case (Cons n ns)
  then show ?case
    by (fastforce dest: install_one_auth_from split: option.splits)
qed simp

lemma InstallPiperConfig_auth_from:
  assumes "InstallPiperConfig E g (daemon_config banner) = ((g', cf), None)"
  shows "auth_from E cf \<and> client g' = client g"
proof -
  have *: "auth_from E ((daemon_config banner)\<lparr>cfg_CreateChallengeContext := f\<rparr>)" for f
    by (simp add: auth_from_def daemon_config_def empty_grpc_config_def)
  from assms show ?thesis
    by (auto simp: InstallPiperConfig_def split: sum.splits dest!: install_loop_auth_from intro: *)
qed

lemma append_all_built:
  assumes "append_all E m ps = Inr m'" "built E m"
  shows "built E m' \<and> map client (plugins m') = map client (plugins m) @ map client ps"
  using assms
proof (induction ps arbitrary: m)
  case (Cons p ps)
  from Cons.prems(1) obtain m1 where a: "Append E m p = (m1, None)" and r: "append_all E m1 ps = Inr m'"
    by (auto split: prod.splits option.splits)
  have "map client (plugins m1) = map client (plugins m) @ [client p]"
    using a by (auto simp: Append_def split: prod.splits option.splits dest!: CreatePiperConfig_from)
  then show ?case
    using Cons.IH [OF r built_append [OF Cons.prems(2) a]] by simp
qed simp

lemma reply_upstream_Some:
  assumes "reply_upstream E g c ctx rep = (ctx', Returns (Some v))"
  shows "\<exists>meta u. UserName meta = User c \<and> rep meta = Inr (Some u) \<and> CUser v = UpUserName u \<and> UpstreamEnv ctx' = UpEnv u"
  using assms unfolding reply_upstream_def
proof (cases rule: with_meta_cases)
  case (2 ctx1 meta)
  then obtain up where "rep meta = Inr up" and c: "createUpstream E g c ctx1 up = (ctx', Returns (Some v))"
    by (auto split: sum.splits)
  moreover from c obtain u meta1 auths ctx2 where "up = Some u" "toMeta ctx1 c = Some (ctx2, meta1)"
      "CUser v = UpUserName u" "ctx' = setUpstreamEnv ctx2 (UpEnv u)"
    by (rule createUpstream_Some)
  moreover have "UserName meta = User c" "ctx2 \<noteq> OtherCtx"
    using toMeta_SomeD [OF 2(1)] toMeta_SomeD [OF \<open>toMeta ctx1 c = _\<close>] by blast+
  ultimately show ?thesis
    by auto
qed simp

lemmas plugin_callbacks = plugin_reply_fun GrpcPlugin_NoClientAuthCallback_def GrpcPlugin_PasswordCallback_def
  GrpcPlugin_PublicKeyCallback_def

text \<open>
  C2: an upstream exists only because an installed plugin said so.  Whatever the number of plugins the daemon was
  started with, and in whatever state a connection's context is: if the callbacks of the daemon turn an offered credential into an upstream,
  then one of those plugins was asked about that very credential for the user of the connection, and the upstream
  user and the session's environment are those of its reply.
\<close>

theorem upstream_only_from_plugin:
  assumes "install E banner ps = Inr pc" "pc_offer pc c cred ctx = Some (ctx', Returns (Some v))"
  shows "\<exists>p \<in> set ps. \<exists>meta u. UserName meta = User c \<and> plugin_reply (client p) cred meta = Inr (Some u)
           \<and> CUser v = UpUserName u \<and> UpstreamEnv ctx' = UpEnv u"
proof -
  have reply: ?thesis if "p \<in> set ps" "client g = client p"
    "reply_upstream E g c ctx (plugin_reply (client g) cred) = (ctx', Returns (Some v))" for p g
    using reply_upstream_Some [OF that(3)] that(1,2) by auto
  show ?thesis
  proof (cases "length ps = 1")
    case True
    then obtain p where ps: "ps = [p]"
      by (cases ps) auto
    with assms(1) obtain g cf where i: "InstallPiperConfig E p (daemon_config banner) = ((g, cf), None)"
      and pc: "pc = closures (g, cf)"
      by (auto simp: install_def split: prod.splits option.splits)
    from InstallPiperConfig_auth_from [OF i] have a: "auth_from E cf" "client g = client p"
      by auto
    show ?thesis
      by (rule reply [of p g]; (use assms(2) a ps in \<open>cases cred; auto simp: pc closures_def auth_from_def plugin_callbacks cong: if_cong\<close>)?)
  next
    case False
    then obtain m where m: "append_all E empty_chain ps = Inr m"
      and pc: "pc = Chain_InstallPiperConfig m (closures (hd ps, daemon_config banner))"
      using assms(1) by (auto simp: install_def bind_res_eq_Inr split: if_splits)
    have b: "built E m" "map client (plugins m) = map client ps"
      using append_all_built [OF m built_empty] by (simp_all add: empty_chain_def)
    have o: "offer m c cred ctx = (ctx', Returns (Some v))"
      using assms(2) by (cases cred) (auto simp: pc Chain_InstallPiperConfig_def)
    then obtain meta cur where ctx: "ctx = ChainCtx meta cur" "cur < length (pluginsCallback m)"
      by (cases cred; cases ctx) (auto simp: Chain_NoClientAuthCallback_def Chain_PasswordCallback_def
          Chain_PublicKeyCallback_def with_current_def split: if_splits)
    have len: "length (plugins m) = length (pluginsCallback m)" "length ps = length (plugins m)"
      using built_wf [OF b(1)] arg_cong [OF b(2), of length] by auto
    have cl: "client (plugins m ! cur) = client (ps ! cur)"
      using arg_cong [OF b(2), of "\<lambda>l. l ! cur"] ctx(2) len by simp
    have cf: "config_from E (pluginsCallback m ! cur)"
      using built_config [OF b(1) ctx(2)] .
    show ?thesis
    proof (rule reply [of "ps ! cur" "plugin_at m cur"])
      show "reply_upstream E (plugin_at m cur) c ctx (plugin_reply (client (plugin_at m cur)) cred) = (ctx', Returns (Some v))"
        using o ctx
        by (cases cred) (auto simp: Chain_NoClientAuthCallback_def Chain_PasswordCallback_def Chain_PublicKeyCallback_def
            with_current_def not_implemented_def plugin_callbacks dest: config_fromD(2-4) [OF cf] split: option.splits)
    qed (use ctx len cl in simp_all)
  qed
qed

definition demo_pc :: "(nat, string \<times> string, unit) piper_config" where
  "demo_pc = closures (DialGrpc demo_client,
     (daemon_config None)\<lparr>cfg_CreateChallengeContext := Some GrpcPlugin_CreateChallengeContext,
        cfg_PasswordCallback := Some (GrpcPlugin_PasswordCallback demo_env)\<rparr>)"

lemma demo_install: "install demo_env None [DialGrpc demo_client] = Inr demo_pc"
  by (simp add: install_def InstallPiperConfig_def DialGrpc_def demo_client_def install_one_def demo_pc_def)

theorem upstream_only_from_plugin_witness:
  "\<exists>ctx' v. pc_offer demo_pc demo_conn (Password [112]) (PluginCtx (new_conn_meta ''id'' demo_conn)) =
       Some (ctx', Returns (Some v))
     \<and> CUser v = ''root'' \<and> UpstreamEnv ctx' = [''A'' \<mapsto> ''1'']"
proof -
  have "itoa 22 = ''22''" by code_simp
  then have "\<exists>ctx' v. pc_offer demo_pc demo_conn (Password [112]) (PluginCtx (new_conn_meta ''id'' demo_conn)) =
      Some (ctx', Returns (Some v))"
    by (simp add: demo_pc_def closures_def GrpcPlugin_PasswordCallback_def reply_upstream_def with_meta_def toMeta_def
        DialGrpc_def demo_client_def createUpstream_def upstream_body_def upstream_auths_def CreatePasswordAuth_def
        empty_upstream_def dialUpstream_def demo_env_def GetOrGenerateUri_def join_host_port_def Let_def)
  then obtain ctx' v where o: "pc_offer demo_pc demo_conn (Password [112]) (PluginCtx (new_conn_meta ''id'' demo_conn)) =
      Some (ctx', Returns (Some v))"
    by blast
  show ?thesis
    using upstream_only_from_plugin [OF demo_install o] o
    by (auto simp: DialGrpc_def demo_client_def)
qed

section \<open>Upstream banners\<close>

fun banners_sent :: "banner_hook \<Rightarrow> challenge_ctx \<Rightarrow> string list \<Rightarrow> string list" where
  "banners_sent h ctx [] = []"
| "banners_sent h ctx (b # bs) =
     (case h b ctx of
        (ctx', None) \<Rightarrow> banners_sent h ctx' bs
      | (ctx', Some x) \<Rightarrow> x # banners_sent h ctx' bs)"

text \<open>The first banner of each key.\<close>

fun firsts :: "(string \<Rightarrow> string) \<Rightarrow> string list \<Rightarrow> string list" where
  "firsts key [] = []"
| "firsts key (b # bs) = b # firsts key (filter (\<lambda>b'. key b' \<noteq> key b) bs)"

lemma set_firsts: "set (firsts key bs) \<subseteq> set bs"
  by (induction key bs rule: firsts.induct) auto

lemma firsts_inj:
  "inj_on key (set bs) \<Longrightarrow> distinct (firsts key bs) \<and> set (firsts key bs) = set bs"
proof (induction key bs rule: firsts.induct)
  case (2 key b bs)
  have "inj_on key (set (filter (\<lambda>b'. key b' \<noteq> key b) bs))"
    using "2.prems" by (auto simp: inj_on_def)
  with 2 set_firsts [of key "filter (\<lambda>b'. key b' \<noteq> key b) bs"] show ?case
    by (auto simp: inj_on_def)
qed simp

lemma firsts_const: "firsts (\<lambda>_. k) bs = take (Suc 0) bs"
  by (cases bs) auto

lemma firsts_cong_key: "(\<And>b b'. key b = key b' \<longleftrightarrow> key' b = key' b') \<Longrightarrow> firsts key bs = firsts key' bs"
  by (induction key bs rule: firsts.induct) auto

definition sent_flags :: "challenge_ctx \<Rightarrow> string set" where
  "sent_flags ctx = {k. \<exists>m. ctx_meta ctx = Some m \<and> Metadata m k = Some ''true''}"

lemma sent_flags_upd:
  "ctx \<noteq> OtherCtx \<Longrightarrow> sent_flags (ctx_upd (Metadata_update (\<lambda>md. md(k \<mapsto> ''true''))) ctx) = insert k (sent_flags ctx)"
  by (cases ctx) (auto simp: sent_flags_def)

lemma banners_sent_once_per:
  "ctx \<noteq> OtherCtx \<Longrightarrow>
     banners_sent (once_per key) ctx bs = firsts key (filter (\<lambda>b. key b \<notin> sent_flags ctx) bs)"
proof (induction bs arbitrary: ctx)
  case (Cons b bs)
  obtain m where m: "ctx_meta ctx = Some m"
    using Cons.prems by (cases ctx) auto
  show ?case
  proof (cases "key b \<in> sent_flags ctx")
    case True
    then have "Metadata m (key b) = Some ''true''"
      using m by (auto simp: sent_flags_def)
    then have "once_per key b ctx = (ctx, None)"
      using m by (simp add: once_per_def)
    with True show ?thesis
      using Cons.IH [OF Cons.prems] by simp
  next
    case False
    let ?ctx = "ctx_upd (Metadata_update (\<lambda>md. md(key b \<mapsto> ''true''))) ctx"
    have "Metadata m (key b) \<noteq> Some ''true''"
      using m False by (auto simp: sent_flags_def)
    then have step: "once_per key b ctx = (?ctx, Some b)"
      using m by (simp add: once_per_def)
    have "filter (\<lambda>b'. key b' \<notin> sent_flags ?ctx) bs = filter (\<lambda>b'. key b' \<noteq> key b) (filter (\<lambda>b'. key b' \<notin> sent_flags ctx) bs)"
      using Cons.prems by (auto simp: sent_flags_upd intro: filter_cong)
    then show ?thesis
      using Cons.IH [of ?ctx] Cons.prems False step by simp
  qed
qed simp

text \<open>
  How often an upstream's banners reach the client.  For a connection whose metadata holds no banner flag yet and any
  sequence of upstream banners (across retries and several upstreams), the client gets none of them in
  mode \<^verbatim>\<open>ignore\<close>, only the first in mode \<^verbatim>\<open>first-only\<close>, and in mode \<^verbatim>\<open>dedup\<close> the first of each hash;
  so, if the hash separates them, each distinct banner exactly once.
\<close>

theorem upstream_banners_once:
  assumes "upstream_banner_callback md5hex mode = Inr (Some h)" "ctx_meta ctx = Some m"
    and "\<forall>k. Metadata m (''sshpiperd.upstream.banner.'' @ k) = None"
  shows "banners_sent h ctx bs =
      (if mode = ''ignore'' then [] else if mode = ''first-only'' then take 1 bs else firsts md5hex bs)
    \<and> (mode = ''dedup'' \<and> inj_on md5hex (set bs) \<longrightarrow>
      distinct (banners_sent h ctx bs) \<and> set (banners_sent h ctx bs) = set bs)"
proof -
  have ctx: "ctx \<noteq> OtherCtx"
    using assms(2) by auto
  have no: "(''sshpiperd.upstream.banner.'' @ k) \<notin> sent_flags ctx" for k
    using assms(2,3) by (auto simp: sent_flags_def)
  have ign: "banners_sent (\<lambda>_ c. (c, None)) ctx bs = []" for ctx
    by (induction bs arbitrary: ctx) auto
  have "firsts (dedup_key md5hex) bs = firsts md5hex bs"
    by (rule firsts_cong_key) (simp add: dedup_key_def)
  then have dd: "banners_sent (once_per (dedup_key md5hex)) ctx bs = firsts md5hex bs"
    using banners_sent_once_per [OF ctx, of "dedup_key md5hex"] no by (simp add: dedup_key_def)
  have fo: "banners_sent (once_per (\<lambda>_. ''sshpiperd.upstream.banner.sent'')) ctx bs = take 1 bs"
    using banners_sent_once_per [OF ctx, of "\<lambda>_. ''sshpiperd.upstream.banner.sent''"] no [of "''sent''"] by (simp add: firsts_const)
  have "banners_sent h ctx bs =
      (if mode = ''ignore'' then [] else if mode = ''first-only'' then take 1 bs else firsts md5hex bs)"
    using assms(1) ign dd fo by (auto simp: upstream_banner_callback_def split: if_splits)
  then show ?thesis
    using firsts_inj [of md5hex bs] by simp
qed

theorem upstream_banners_once_witness:
  "banners_sent (once_per (dedup_key id)) demo_ctx [''a'', ''b'', ''a''] = [''a'', ''b'']"
proof -
  have "upstream_banner_callback id ''dedup'' = Inr (Some (once_per (dedup_key id)))"
    by (simp add: upstream_banner_callback_def)
  from upstream_banners_once [OF this, of demo_ctx _ "[''a'', ''b'', ''a'']"] show ?thesis
    by (simp add: demo_ctx_def new_conn_meta_def)
qed

section \<open>The daemon's own banner\<close>

definition announces :: "grpc_plugin \<Rightarrow> string \<Rightarrow> bool" where
  "announces p cb \<longleftrightarrow> (\<exists>cbs. ListCallbacks_rpc (client p) = Inr cbs \<and> cb \<in> set cbs)"

lemma announces_Inr: "ListCallbacks_rpc (client p) = Inr cbs \<Longrightarrow> announces p cb \<longleftrightarrow> cb \<in> set cbs"
  by (simp add: announces_def)

lemma InstallPiperConfig_None:
  assumes "InstallPiperConfig E g cf = (gc, None)"
  obtains cbs where "ListCallbacks_rpc (client g) = Inr cbs"
    "install_loop E cbs (g, cf\<lparr>cfg_CreateChallengeContext := Some GrpcPlugin_CreateChallengeContext\<rparr>) = (gc, None)"
  using assms by (cases "ListCallbacks_rpc (client g)") (simp_all add: InstallPiperConfig_def)

lemma Append_None:
  assumes "Append E m p = (m', None)"
  obtains g cf where "InstallPiperConfig E p empty_grpc_config = ((g, cf), None)"
    "m' = m\<lparr>pluginsCallback := pluginsCallback m @ [cf], plugins := plugins m @ [g]\<rparr>"
  using assms by (cases "InstallPiperConfig E p empty_grpc_config" rule: prod.exhaust)
    (auto simp: Append_def CreatePiperConfig_def split: option.splits prod.splits)

lemma install_one_banner:
  "install_one E n (g, cf) = Some (g', cf') \<Longrightarrow> n \<noteq> ''Banner'' \<Longrightarrow>
     cfg_DownstreamBannerCallback cf' = cfg_DownstreamBannerCallback cf"
  unfolding install_one_def Let_def prod.case
  by (simp only: option.inject prod.inject option.distinct simp_thms split: if_split_asm; clarsimp)

lemma install_loop_banner:
  "install_loop E ns (g, cf) = ((g', cf'), e) \<Longrightarrow> ''Banner'' \<notin> set ns \<Longrightarrow>
     cfg_DownstreamBannerCallback cf' = cfg_DownstreamBannerCallback cf"
proof (induction ns arbitrary: g cf)
  case (Cons n ns)
  show ?case
  proof (cases "install_one E n (g, cf)")
    case (Some gc)
    then show ?thesis
      using Cons.IH [of "fst gc" "snd gc"] Cons.prems install_one_banner [of E n g cf "fst gc" "snd gc"] by auto
  qed (use Cons.prems in simp)
qed simp

lemma append_all_banner:
  assumes "append_all E m ps = Inr m'" "\<forall>cf \<in> set (pluginsCallback m). cfg_DownstreamBannerCallback cf = None"
    and "\<forall>p \<in> set ps. \<not> announces p ''Banner''"
  shows "length (pluginsCallback m') = length (pluginsCallback m) + length ps \<and>
    (\<forall>cf \<in> set (pluginsCallback m'). cfg_DownstreamBannerCallback cf = None)"
  using assms
proof (induction ps arbitrary: m)
  case (Cons p ps)
  from Cons.prems(1) obtain m1 where a: "Append E m p = (m1, None)" and r: "append_all E m1 ps = Inr m'"
    by (auto split: prod.splits option.splits)
  from a obtain g cf where i: "InstallPiperConfig E p empty_grpc_config = ((g, cf), None)"
    and m1: "m1 = m\<lparr>pluginsCallback := pluginsCallback m @ [cf], plugins := plugins m @ [g]\<rparr>"
    by (rule Append_None)
  from i obtain cbs where cb: "ListCallbacks_rpc (client p) = Inr cbs" and
    il: "install_loop E cbs (p, empty_grpc_config\<lparr>cfg_CreateChallengeContext := Some GrpcPlugin_CreateChallengeContext\<rparr>) = ((g, cf), None)"
    by (rule InstallPiperConfig_None)
  have "''Banner'' \<notin> set cbs"
    using Cons.prems(3) announces_Inr [OF cb] by simp
  then have "cfg_DownstreamBannerCallback cf = None"
    using install_loop_banner [OF il] by (simp add: empty_grpc_config_def)
  then have m: "\<forall>cf \<in> set (pluginsCallback m1). cfg_DownstreamBannerCallback cf = None"
    using Cons.prems(2) m1 by simp
  have ps: "\<forall>p \<in> set ps. \<not> announces p ''Banner''"
    using Cons.prems(3) by simp
  show ?case
    using Cons.IH [OF r m ps] m1 by simp
qed simp

text \<open>
  The configured banner is shown with one plugin and lost with several.  If no plugin has a banner of its own,
  a daemon with a single plugin answers with the text of \<^verbatim>\<open>--banner-text\<close>; with two or more plugins the chain
  overwrites the daemon's callback, and the client gets an empty banner.
\<close>

theorem banner_text_lost_in_chain:
  assumes "install E (banner_callback text '''' rf) ps = Inr pc" "text \<noteq> ''''"
    and "\<forall>p \<in> set ps. \<not> announces p ''Banner''"
  shows "\<exists>f. pc_DownstreamBannerCallback pc = Some f \<and>
    (if length ps = 1 then f c ctx = (ctx, Returns text)
     else \<forall>m cur. ctx = ChainCtx m cur \<and> cur < length ps \<longrightarrow> f c ctx = (ctx, Returns ''''))"
proof (cases "length ps = 1")
  case True
  then obtain p where ps: "ps = [p]"
    by (cases ps) auto
  with assms(1) obtain g cf where ins: "InstallPiperConfig E p (daemon_config (banner_callback text '''' rf)) = ((g, cf), None)"
    and pc: "pc = closures (g, cf)"
    by (auto simp: install_def split: prod.splits option.splits)
  from ins obtain cbs where i: "ListCallbacks_rpc (client p) = Inr cbs"
    "install_loop E cbs (p, (daemon_config (banner_callback text '''' rf))\<lparr>cfg_CreateChallengeContext := Some GrpcPlugin_CreateChallengeContext\<rparr>)
       = ((g, cf), None)"
    by (rule InstallPiperConfig_None)
  have "''Banner'' \<notin> set cbs"
    using assms(3) announces_Inr [OF i(1)] ps by simp
  then show ?thesis
    using install_loop_banner [OF i(2)] True assms(2)
    by (simp add: pc closures_def daemon_config_def banner_callback_def)
next
  case False
  then obtain m where m: "append_all E empty_chain ps = Inr m"
    and pc: "pc = Chain_InstallPiperConfig m (closures (hd ps, daemon_config (banner_callback text '''' rf)))"
    using assms(1) by (auto simp: install_def bind_res_eq_Inr split: if_splits)
  have len: "length (pluginsCallback m) = length ps" and nb: "\<forall>cf \<in> set (pluginsCallback m). cfg_DownstreamBannerCallback cf = None"
    using append_all_banner [OF m _ assms(3)] by (simp_all add: empty_chain_def)
  then show ?thesis
    using False by (auto simp: pc Chain_InstallPiperConfig_def Chain_DownstreamBannerCallback_def with_current_def)
qed

theorem banner_text_lost_in_chain_witness:
  "\<exists>(pc :: (nat, string \<times> string, unit) piper_config) f.
     install demo_env (banner_callback ''hi'' '''' (\<lambda>_. Inr [])) [DialGrpc demo_client, DialGrpc demo_client] = Inr pc
   \<and> pc_DownstreamBannerCallback pc = Some f \<and> f demo_conn demo_ctx = (demo_ctx, Returns '''')"
proof -
  have "\<exists>m :: (nat, string \<times> string, unit) chain.
      append_all demo_env empty_chain [DialGrpc demo_client, DialGrpc demo_client] = Inr m"
    by (simp add: Append_def CreatePiperConfig_def InstallPiperConfig_def DialGrpc_def demo_client_def install_one_def)
  then obtain pc :: "(nat, string \<times> string, unit) piper_config" where
    i: "install demo_env (banner_callback ''hi'' '''' (\<lambda>_. Inr [])) [DialGrpc demo_client, DialGrpc demo_client] = Inr pc"
    by (auto simp: install_def simp del: append_all.simps)
  have "\<forall>p \<in> set [DialGrpc demo_client, DialGrpc demo_client]. \<not> announces p ''Banner''"
    by (simp add: announces_def DialGrpc_def demo_client_def)
  from banner_text_lost_in_chain [OF i _ this, of demo_conn demo_ctx] i show ?thesis
    by (auto simp: demo_ctx_def)
qed

end
