(* ===== verification/Hook_Chain.thy ===== *)
theory Hook_Chain
  imports Go_Strings
begin

text \<open>
  Packet hooks (\<^verbatim>\<open>cmd/sshpiperd/hook.go\<close>).  A hook sees one packet of one direction of a
  pipe and says what to do with it; the closures' objects make up the state \<open>'s\<close>.  The empty
  packet stands for a nil slice as well: no code distinguishes them.
\<close>

datatype hook_method = Transform | Reply

datatype hook_res =
    HPanic
  | HRet (hmethod: hook_method) (hpacket: bytes) (herr: "goerr option")

type_synonym 's hook = "'s \<Rightarrow> bytes \<Rightarrow> 's \<times> hook_res"

definition hook_append :: "'s hook list \<Rightarrow> 's hook option \<Rightarrow> 's hook list" where
  "hook_append hooks h = (case h of None \<Rightarrow> hooks | Some h \<Rightarrow> hooks @ [h])"

text \<open>The loop of the closure that \<^verbatim>\<open>hook()\<close> returns, with its named results; \<^verbatim>\<open>hook()\<close> itself is nil
  for an empty chain.\<close>

fun hook_loop :: "'s hook list \<Rightarrow> hook_method \<Rightarrow> bytes \<Rightarrow> 's \<Rightarrow> 's \<times> hook_res" where
  "hook_loop [] method packetOut s = (s, HRet method packetOut None)"
| "hook_loop (hk # hks) method packetOut s =
     (case hk s packetOut of
        (s', HPanic) \<Rightarrow> (s', HPanic)
      | (s', HRet m p (Some e)) \<Rightarrow> (s', HRet m p (Some e))
      | (s', HRet m p None) \<Rightarrow>
          if m = Reply then (s', HRet m p None) else hook_loop hks m p s')"

definition hook_chain :: "'s hook list \<Rightarrow> 's hook option" where
  "hook_chain hooks =
     (if length hooks = 0 then None else Some (\<lambda>s packet. hook_loop hooks Transform packet s))"

section \<open>Taps\<close>

text \<open>
  A tap only looks: in every state its object can be in (\<open>ok\<close>), it hands the packet on
  unchanged, does not fail, and keeps the object in order.
\<close>

locale packet_tap =
  fixes ok :: "'s \<Rightarrow> bool" and tap :: "'s hook"
  assumes tap_passes: "ok s \<Longrightarrow> snd (tap s p) = HRet Transform p None"
    and tap_inv: "ok s \<Longrightarrow> ok (fst (tap s p))"
begin

lemma tap_hook_loop:
  "ok s \<Longrightarrow> hook_loop (tap # hks) m p s = hook_loop hks Transform p (fst (tap s p)) \<and> ok (fst (tap s p))"
  using tap_passes [of s p] tap_inv [of s p] by (cases "tap s p") simp

lemma tap_alone: "ok s \<Longrightarrow> hook_loop [tap] m p s = (fst (tap s p), HRet Transform p None)"
  using tap_hook_loop [of s "[]"] by simp

end

lemma taps_pass:
  assumes "\<forall>hk \<in> set hks. packet_tap ok hk" "ok s"
  shows "snd (hook_loop hks Transform p s) = HRet Transform p None \<and> ok (fst (hook_loop hks Transform p s))"
  using assms
proof (induction hks arbitrary: s)
  case (Cons hk hks)
  then have "packet_tap ok hk"
    by simp
  note tap = packet_tap.tap_hook_loop [OF this Cons.prems(2), of hks Transform p]
  show ?case
    using tap Cons.IH [of "fst (hk s p)"] Cons.prems(1) by simp
qed simp

section \<open>Chains\<close>

lemma hook_append_None [simp]: "hook_append hooks None = hooks"
  by (simp add: hook_append_def)

lemma hook_loop_append:
  "hook_loop (xs @ ys) m p s =
     (case hook_loop xs m p s of
        (s', HRet m' p' None) \<Rightarrow> if xs \<noteq> [] \<and> m' = Reply then (s', HRet m' p' None) else hook_loop ys m' p' s'
      | r \<Rightarrow> r)"
proof (induction xs arbitrary: m p s)
  case (Cons x xs)
  show ?case
    using Cons.IH by (auto split: prod.splits hook_res.splits option.splits)
qed simp

fun stops :: "hook_res \<Rightarrow> bool" where
  "stops HPanic = True"
| "stops (HRet m p e) = (m = Reply \<or> e \<noteq> None)"

text \<open>
  The chain is the sequence of its hooks and stops at the first reply or error.  The state after a
  packet is the state after the hooks up to the first one that panics, fails or replies, and the result is
  that hook's; a nil hook appended to a chain changes nothing.
\<close>

theorem hook_chain_stops:
  assumes "hook_loop xs Transform p s = (s1, HRet Transform p1 None)" "hk s1 p1 = (s2, r)"
  shows "hook_loop (xs @ hk # ys) Transform p s =
           (if stops r then (s2, r) else hook_loop ys Transform (hpacket r) s2)
       \<and> hook_chain (hook_append xs None) = hook_chain xs"
  using assms
  by (cases r; cases "hmethod r") (auto simp: hook_loop_append split: option.splits)

theorem hook_chain_stops_witness:
  "hook_loop ([\<lambda>s p. (s + 1, HRet Transform (7 # p) None)] @ (\<lambda>s p. (s + 10, HRet Reply [82] None)) #
       [\<lambda>s p. (s + 100, HRet Transform [] None)]) Transform [80] (0 :: nat) = (11, HRet Reply [82] None)"
  using hook_chain_stops [of "[\<lambda>s p. (s + 1, HRet Transform (7 # p) None)]" "[80]" "0 :: nat" 1 "[7, 80]"
      "\<lambda>s p. (s + 10, HRet Reply [82] None)" 11 "HRet Reply [82] None"
      "[\<lambda>s p. (s + 100, HRet Transform [] None)]"]
  by simp

end
