(* ===== verification/Forwarding.thy ===== *)
theory Forwarding
  imports Hook_Chain "HOL-Library.Multiset"
begin

text \<open>
  The port-forwarding filter (\<^verbatim>\<open>cmd/sshpiperd/forwarding.go\<close>): which packets it stops, and the
  order of the replies to global requests while the two directions of a pipe run concurrently.

  \<^verbatim>\<open>ssh.Unmarshal\<close> and \<^verbatim>\<open>ssh.Marshal\<close> are the fields of \<open>ssh_codec\<close>.  The counters are natural
  numbers: one want-reply request per count, far from the range of \<^verbatim>\<open>int\<close>.
\<close>

section \<open>Messages\<close>

abbreviation msgGlobalRequest :: byte where "msgGlobalRequest \<equiv> 80"
abbreviation msgRequestSuccess :: byte where "msgRequestSuccess \<equiv> 81"
abbreviation msgRequestFailure :: byte where "msgRequestFailure \<equiv> 82"
abbreviation msgChannelOpen :: byte where "msgChannelOpen \<equiv> 90"
abbreviation msgChannelOpenFailed :: byte where "msgChannelOpenFailed \<equiv> 92"
abbreviation connectionFailedAdministratively :: u32 where "connectionFailedAdministratively \<equiv> 1"

record globalRequest =
  GrType :: string
  WantReply :: bool
  GrData :: bytes

record channelOpen =
  CoType :: string
  SenderChannel :: u32
  InitialWindow :: u32
  MaximumPacket :: u32
  TypeSpecificData :: bytes

record channelOpenFailure =
  RecipientChannel :: u32
  ReasonCode :: u32
  Description :: string
  Language :: string

record ssh_codec =
  unmarshal_global :: "bytes \<Rightarrow> globalRequest option"
  unmarshal_open :: "bytes \<Rightarrow> channelOpen option"
  marshal_failure :: bytes
  marshal_open_failure :: "channelOpenFailure \<Rightarrow> bytes"

section \<open>The filter\<close>

record forwardingFilter =
  disableLocal :: bool
  disableRemote :: bool
  seq :: nat
  replied :: nat

definition newForwardingFilter :: "bool \<Rightarrow> bool \<Rightarrow> forwardingFilter" where
  "newForwardingFilter dl dr = \<lparr>disableLocal = dl, disableRemote = dr, seq = 0, replied = 0\<rparr>"

definition isRemoteForwardRequestType :: "string \<Rightarrow> bool" where
  "isRemoteForwardRequestType t \<longleftrightarrow>
     t \<in> {''tcpip-forward'', ''cancel-tcpip-forward'',
          ''streamlocal-forward@openssh.com'', ''cancel-streamlocal-forward@openssh.com''}"

definition isLocalForwardChannelType :: "string \<Rightarrow> bool" where
  "isLocalForwardChannelType t \<longleftrightarrow> t \<in> {''direct-tcpip'', ''direct-streamlocal@openssh.com''}"

text \<open>
  \<^verbatim>\<open>down\<close> up to the point where it may have to wait: \<open>Done\<close> is a return, \<open>Waiting n\<close> is the loop
  \<^verbatim>\<open>for f.replied < mySeq { f.cond.Wait() }\<close> with \<^verbatim>\<open>mySeq = n\<close>, and \<open>down_wake\<close> is what follows that loop
  once its condition is false.
\<close>

datatype down_res = Done hook_method bytes | Waiting nat

definition down_enter :: "ssh_codec \<Rightarrow> forwardingFilter \<Rightarrow> bytes \<Rightarrow> forwardingFilter \<times> down_res" where
  "down_enter C f packet =
    (case packet of
       [] \<Rightarrow> (f, Done Transform packet)
     | t # _ \<Rightarrow>
         if t = msgGlobalRequest then
           (case unmarshal_global C packet of
              None \<Rightarrow> (f, Done Transform packet)
            | Some request \<Rightarrow>
                let blocked = disableRemote f \<and> isRemoteForwardRequestType (GrType request)
                in if \<not> WantReply request then
                     (if blocked then (f, Done Transform []) else (f, Done Transform packet))
                   else
                     let mySeq = seq f; f' = f\<lparr>seq := seq f + 1\<rparr>
                     in if \<not> blocked then (f', Done Transform packet) else (f', Waiting mySeq))
         else if t = msgChannelOpen then
           (case unmarshal_open C packet of
              None \<Rightarrow> (f, Done Transform packet)
            | Some opn \<Rightarrow>
                if \<not> disableLocal f \<or> \<not> isLocalForwardChannelType (CoType opn)
                then (f, Done Transform packet)
                else (f, Done Reply (marshal_open_failure C
                       \<lparr>RecipientChannel = SenderChannel opn,
                        ReasonCode = connectionFailedAdministratively,
                        Description = ''port forwarding is disabled'', Language = ''''\<rparr>)))
         else (f, Done Transform packet))"

definition down_wake :: "ssh_codec \<Rightarrow> forwardingFilter \<Rightarrow> nat \<Rightarrow> (forwardingFilter \<times> bytes) option" where
  "down_wake C f mySeq =
     (if replied f < mySeq then None
      else Some (f\<lparr>replied := replied f + 1\<rparr>, marshal_failure C))"

definition up :: "forwardingFilter \<Rightarrow> bytes \<Rightarrow> forwardingFilter \<times> hook_res" where
  "up f packet =
     ((if length packet > 0 \<and> (packet ! 0 = msgRequestSuccess \<or> packet ! 0 = msgRequestFailure)
       then f\<lparr>replied := replied f + 1\<rparr> else f),
      HRet Transform packet None)"

interpretation up_tap: packet_tap "\<lambda>_. True" up
  by unfold_locales (simp add: up_def)

section \<open>What the filter lets through\<close>

text \<open>The requests a filter has to stop.\<close>

definition remote_request :: "ssh_codec \<Rightarrow> bytes \<Rightarrow> bool" where
  "remote_request C p \<longleftrightarrow> p \<noteq> [] \<and> hd p = msgGlobalRequest \<and>
     (\<exists>r. unmarshal_global C p = Some r \<and> isRemoteForwardRequestType (GrType r))"

definition local_open :: "ssh_codec \<Rightarrow> bytes \<Rightarrow> bool" where
  "local_open C p \<longleftrightarrow> p \<noteq> [] \<and> hd p = msgChannelOpen \<and>
     (\<exists>r. unmarshal_open C p = Some r \<and> isLocalForwardChannelType (CoType r))"

definition stopped :: "ssh_codec \<Rightarrow> forwardingFilter \<Rightarrow> bytes \<Rightarrow> bool" where
  "stopped C f p \<longleftrightarrow> disableRemote f \<and> remote_request C p \<or> disableLocal f \<and> local_open C p"

lemma down_enter_fate:
  "(\<exists>f'. down_enter C f p = (f', Done Transform p) \<and> \<not> stopped C f p)
   \<or> (\<exists>f' r. down_enter C f p = (f', r) \<and> stopped C f p \<and>
        (r = Done Transform [] \<and> p \<noteq> [] \<or> (\<exists>q. r = Done Reply q) \<or> (\<exists>n. r = Waiting n)))"
  by (auto simp: down_enter_def stopped_def remote_request_def local_open_def Let_def
      split: list.splits option.splits)

text \<open>
  The filter stops exactly the forwarding requests it is told to.  The packet goes on to the
  upstream, unchanged, if and only if it is not a remote-forwarding request while remote
  forwarding is disabled and not a local-forwarding channel while local forwarding is disabled;
  a packet that is stopped is dropped, answered on the spot, or left waiting for its turn to be
  answered, and is never forwarded.
\<close>

theorem filter_stops_exactly:
  "(\<exists>f'. down_enter C f p = (f', Done Transform p) \<and> \<not> stopped C f p)
   \<or> (\<exists>f' r. down_enter C f p = (f', r) \<and> stopped C f p \<and>
        (r = Done Transform [] \<and> p \<noteq> [] \<or> (\<exists>q. r = Done Reply q) \<or> (\<exists>n. r = Waiting n)))"
  by (rule down_enter_fate)

section \<open>The two directions of a pipe\<close>

text \<open>
  The goroutine of the downstream direction reads client packets one by one and runs \<^verbatim>\<open>down\<close>; that of
  the upstream direction reads the upstream's packets and runs \<^verbatim>\<open>up\<close>.  Both write to the client
  after their hook has returned.  Requests are numbered in the order the client sends them.
  \<open>dpc\<close> and \<open>upc\<close> say where the goroutines are (idle, waiting for the turn of request \<open>n\<close>, or about to
  write the reply to request \<open>n\<close>); \<open>owed\<close> holds the forwarded requests the upstream has not
  answered yet; \<open>delivered\<close> the replies the client got, in order.  The upstream answers the
  want-reply requests it gets once each and in order, as RFC 4254 demands.

  With the flag \<open>a\<close> a goroutine writes its reply before the other one decides on one (the hook
  and the write are one action); without it the hook and the write are separate, as in the
  program.
\<close>

datatype dpc = DIdle | DWait nat | DReply nat

record pipe =
  filt :: forwardingFilter
  dpc :: dpc
  upc :: "nat option"
  owed :: "nat list"
  delivered :: "nat list"

definition pipe_init :: "pipe \<Rightarrow> bool" where
  "pipe_init s \<longleftrightarrow> (\<exists>dl dr. filt s = newForwardingFilter dl dr) \<and> dpc s = DIdle \<and> upc s = None
     \<and> owed s = [] \<and> delivered s = []"

inductive pipe_step :: "bool \<Rightarrow> ssh_codec \<Rightarrow> pipe \<Rightarrow> pipe \<Rightarrow> bool" for a C where
  client_pass: "dpc s = DIdle \<Longrightarrow> down_enter C (filt s) p = (f', Done m q) \<Longrightarrow>
    pipe_step a C s (s\<lparr>filt := f', owed := owed s @ [seq (filt s)..<seq f']\<rparr>)"
| client_block: "dpc s = DIdle \<Longrightarrow> down_enter C (filt s) p = (f', Waiting n) \<Longrightarrow>
    pipe_step a C s (s\<lparr>filt := f', dpc := DWait n\<rparr>)"
| wake: "dpc s = DWait n \<Longrightarrow> down_wake C (filt s) n = Some (f', r) \<Longrightarrow> (a \<Longrightarrow> upc s = None) \<Longrightarrow>
    pipe_step a C s (s\<lparr>filt := f', dpc := DReply n\<rparr>)"
| down_write: "dpc s = DReply n \<Longrightarrow>
    pipe_step a C s (s\<lparr>dpc := DIdle, delivered := delivered s @ [n]\<rparr>)"
| up_reply: "upc s = None \<Longrightarrow> owed s = i # is \<Longrightarrow> p \<noteq> [] \<Longrightarrow> hd p \<in> {msgRequestSuccess, msgRequestFailure} \<Longrightarrow>
    up (filt s) p = (f', r) \<Longrightarrow> (a \<Longrightarrow> \<forall>n. dpc s \<noteq> DReply n) \<Longrightarrow>
    pipe_step a C s (s\<lparr>filt := f', upc := Some i, owed := is\<rparr>)"
| up_other: "upc s = None \<Longrightarrow> p = [] \<or> hd p \<notin> {msgRequestSuccess, msgRequestFailure} \<Longrightarrow>
    up (filt s) p = (f', r) \<Longrightarrow> pipe_step a C s (s\<lparr>filt := f'\<rparr>)"
| up_write: "upc s = Some i \<Longrightarrow>
    pipe_step a C s (s\<lparr>upc := None, delivered := delivered s @ [i]\<rparr>)"

fun waiting :: "dpc \<Rightarrow> nat list" where
  "waiting (DWait n) = [n]"
| "waiting _ = []"

fun replying :: "dpc \<Rightarrow> nat list" where
  "replying (DReply n) = [n]"
| "replying _ = []"

fun held :: "nat option \<Rightarrow> nat list" where
  "held None = []"
| "held (Some i) = [i]"

text \<open>
  The invariant: the requests without a granted reply are those from \<open>replied\<close> on, the last of
  them possibly waiting; the others have exactly one reply, delivered or about to be written.
  With the flag, the delivered replies are in request order.
\<close>

definition pipe_inv :: "bool \<Rightarrow> pipe \<Rightarrow> bool" where
  "pipe_inv a s \<longleftrightarrow>
     replied (filt s) \<le> seq (filt s)
   \<and> owed s @ waiting (dpc s) = [replied (filt s)..<seq (filt s)]
   \<and> mset (delivered s @ replying (dpc s) @ held (upc s)) = mset [0..<replied (filt s)]
   \<and> (a \<longrightarrow> (replying (dpc s) = [] \<or> held (upc s) = [])
        \<and> delivered s @ replying (dpc s) @ held (upc s) = [0..<replied (filt s)])"

lemma down_enter_Done:
  "down_enter C f p = (f', Done m q) \<Longrightarrow> replied f' = replied f \<and> (seq f' = seq f \<or> seq f' = Suc (seq f))"
  by (auto simp: down_enter_def Let_def split: list.splits option.splits if_splits)

lemma down_enter_Waiting:
  "down_enter C f p = (f', Waiting n) \<Longrightarrow> replied f' = replied f \<and> seq f' = Suc (seq f) \<and> n = seq f"
  by (auto simp: down_enter_def Let_def split: list.splits option.splits if_splits)

lemma up_counters:
  "up f p = (f', r) \<Longrightarrow> seq f' = seq f \<and>
     replied f' = (if p \<noteq> [] \<and> hd p \<in> {msgRequestSuccess, msgRequestFailure} then Suc (replied f) else replied f)"
  by (cases p) (auto simp: up_def)

lemma upt_eq_Cons_conv: "x # xs = [m..<n] \<longleftrightarrow> m < n \<and> x = m \<and> xs = [Suc m..<n]"
  by (metis list.inject upt_conv_Cons upt_rec list.distinct(1))


lemma pipe_step_inv:
  assumes "pipe_inv a s" "pipe_step a C s s'"
  shows "pipe_inv a s'"
  using assms(2)
proof cases
  case (client_pass p f' m q)
  with assms(1) show ?thesis
    using down_enter_Done [OF client_pass(3)] by (auto simp: pipe_inv_def simp del: mset_upt)
next
  case (client_block p f' n)
  with assms(1) show ?thesis
    using down_enter_Waiting [OF client_block(3)] by (auto simp: pipe_inv_def simp del: mset_upt)
next
  case (wake n f' r)
  then have "owed s @ [n] = [replied (filt s)..<seq (filt s)]" and n: "n \<le> replied (filt s)"
    using assms(1) by (auto simp: pipe_inv_def down_wake_def split: if_splits)
  then have "replied (filt s) = n \<and> seq (filt s) = Suc n \<and> owed s = []"
    by (cases "seq (filt s)") (auto split: if_splits)
  then show ?thesis
    using wake assms(1) by (auto simp: pipe_inv_def down_wake_def simp del: mset_upt)
next
  case (down_write n)
  with assms(1) show ?thesis
    by (auto simp: pipe_inv_def simp del: mset_upt)
next
  case (up_reply i "is" p f' r)
  then have "i # (is @ waiting (dpc s)) = [replied (filt s)..<seq (filt s)]"
    using assms(1) by (auto simp: pipe_inv_def simp del: mset_upt)
  then have "replied (filt s) < seq (filt s)" "i = replied (filt s)"
    "is @ waiting (dpc s) = [Suc (replied (filt s))..<seq (filt s)]"
    unfolding upt_eq_Cons_conv by auto
  then show ?thesis
    using up_reply assms(1) up_counters [OF up_reply(6)]
    by (cases "dpc s") (auto simp: pipe_inv_def simp del: mset_upt)
next
  case (up_other p f' r)
  with assms(1) show ?thesis
    using up_counters [OF up_other(4)] by (auto simp: pipe_inv_def simp del: mset_upt)
next
  case (up_write i)
  with assms(1) show ?thesis
    by (auto simp: pipe_inv_def simp del: mset_upt)
qed

lemma pipe_init_inv: "pipe_init s \<Longrightarrow> pipe_inv a s"
  by (auto simp: pipe_init_def pipe_inv_def newForwardingFilter_def)

interpretation pipe: step_invariant pipe_init "pipe_step a C" "pipe_inv a" for a C
  by unfold_locales (fact pipe_init_inv, fact pipe_step_inv)

section \<open>Order, uniqueness and progress of the replies\<close>



text \<open>A request that waits for its turn waits only for replies the upstream owes.\<close>

lemma upstream_answers:
  assumes "pipe_inv False s" "dpc s = DWait n"
  shows "\<exists>s'. (pipe_step False C)\<^sup>*\<^sup>* s s' \<and> dpc s' = DWait n \<and> upc s' = None \<and> owed s' = []"
  using assms
proof (induction "length (owed s)" arbitrary: s)
  case 0
  show ?case
  proof (cases "upc s")
    case None
    with 0 show ?thesis
      by (intro exI [of _ s]) auto
  next
    case (Some i)
    have "pipe_step False C s (s\<lparr>upc := None, delivered := delivered s @ [i]\<rparr>)"
      using Some by (rule up_write)
    with 0 show ?thesis
      by (intro exI [of _ "s\<lparr>upc := None, delivered := delivered s @ [i]\<rparr>"]) auto
  qed
next
  case (Suc k)
  then obtain j js where owed: "owed s = j # js"
    by (cases "owed s") auto
  define s1 where "s1 = (case upc s of None \<Rightarrow> s | Some i \<Rightarrow> s\<lparr>upc := None, delivered := delivered s @ [i]\<rparr>)"
  have s1: "(pipe_step False C)\<^sup>*\<^sup>* s s1" "upc s1 = None" "owed s1 = j # js" "dpc s1 = DWait n"
    using Suc.prems owed by (auto simp: s1_def split: option.splits intro: r_into_rtranclp up_write)
  define s2 where "s2 = s1\<lparr>filt := fst (up (filt s1) [msgRequestFailure]), upc := Some j, owed := js\<rparr>"
  have step: "pipe_step False C s1 s2"
    unfolding s2_def using s1 by (intro up_reply [where p = "[msgRequestFailure]"]) (auto simp: up_def)
  have "pipe_inv False s1"
    using Suc.prems(1) s1(1) by (rule pipe.run_inv)
  then have "pipe_inv False s2"
    using step by (rule pipe_step_inv)
  moreover have "k = length (owed s2)" "dpc s2 = DWait n"
    using Suc.hyps(2) owed s1 by (auto simp: s2_def)
  ultimately obtain s3 where "(pipe_step False C)\<^sup>*\<^sup>* s2 s3" "dpc s3 = DWait n" "upc s3 = None" "owed s3 = []"
    using Suc.hyps(1) by blast
  with s1(1) step show ?case
    by (meson converse_rtranclp_into_rtranclp rtranclp_trans)
qed

text \<open>
  A blocked request is always answered.  From every reachable state in which \<^verbatim>\<open>down\<close> waits for the
  turn of a request, the replies the upstream owes are enough: there is a continuation, made of
  upstream replies and the filter's own steps only, in which the filter answers that request
  and the client goes on.
\<close>

theorem blocked_request_answered:
  assumes "pipe_init s0" "(pipe_step False C)\<^sup>*\<^sup>* s0 s" "dpc s = DWait n"
  shows "\<exists>s'. (pipe_step False C)\<^sup>*\<^sup>* s s' \<and> dpc s' = DIdle \<and> n \<in> set (delivered s')"
proof -
  have "pipe_inv False s"
    using assms(1,2) by (rule pipe.reachable_inv)
  then obtain s1 where s1: "(pipe_step False C)\<^sup>*\<^sup>* s s1" "dpc s1 = DWait n" "owed s1 = []"
    using upstream_answers assms(3) by blast
  have "pipe_inv False s1"
    using \<open>pipe_inv False s\<close> s1(1) by (rule pipe.run_inv)
  then have "[n] = [replied (filt s1)..<seq (filt s1)]"
    using s1 by (auto simp: pipe_inv_def)
  then have "\<not> replied (filt s1) < n"
    unfolding upt_eq_Cons_conv by simp
  then obtain f' r where wake: "down_wake C (filt s1) n = Some (f', r)"
    by (simp add: down_wake_def)
  define s2 where "s2 = s1\<lparr>filt := f', dpc := DReply n\<rparr>"
  define s3 where "s3 = s2\<lparr>dpc := DIdle, delivered := delivered s2 @ [n]\<rparr>"
  have "pipe_step False C s1 s2"
    unfolding s2_def using s1(2) wake by (rule pipe_step.wake) simp
  moreover have "pipe_step False C s2 s3"
    unfolding s3_def by (rule down_write) (simp add: s2_def)
  ultimately show ?thesis
    using s1(1) by (intro exI [of _ s3]) (auto simp: s3_def)
qed

section \<open>The wire format, and a reordering\<close>

text \<open>The codec of RFC 4254 (sections 4 and 5.1), as an instance of \<open>ssh_codec\<close>.\<close>

definition rfc_global :: "bytes \<Rightarrow> globalRequest option" where
  "rfc_global p =
     (case get_sshstring (drop 1 p) of
        None \<Rightarrow> None
      | Some (t, rest) \<Rightarrow>
          (case rest of
             [] \<Rightarrow> None
           | b # d \<Rightarrow> Some \<lparr>GrType = str t, WantReply = (b \<noteq> 0), GrData = d\<rparr>))"

definition rfc_open :: "bytes \<Rightarrow> channelOpen option" where
  "rfc_open p =
     (case get_sshstring (drop 1 p) of
        None \<Rightarrow> None
      | Some (t, rest) \<Rightarrow>
          (case (uint32_at rest 0, uint32_at rest 4, uint32_at rest 8) of
             (Some c, Some w, Some m) \<Rightarrow>
               Some \<lparr>CoType = str t, SenderChannel = c, InitialWindow = w, MaximumPacket = m,
                     TypeSpecificData = drop 12 rest\<rparr>
           | _ \<Rightarrow> None))"

definition rfc_codec :: ssh_codec where
  "rfc_codec = \<lparr>unmarshal_global = rfc_global, unmarshal_open = rfc_open,
     marshal_failure = [msgRequestFailure],
     marshal_open_failure = (\<lambda>f. msgChannelOpenFailed # put_uint32 (RecipientChannel f) @
       put_uint32 (ReasonCode f) @ put_sshstring (bytes_of (Description f)) @
       put_sshstring (bytes_of (Language f)))\<rparr>"

definition global_packet :: "string \<Rightarrow> bool \<Rightarrow> bytes" where
  "global_packet t want = msgGlobalRequest # put_sshstring (bytes_of t) @ [if want then 1 else 0]"

lemma rfc_global_packet:
  "length t < 2 ^ 32 \<Longrightarrow> rfc_global (global_packet t want) = Some \<lparr>GrType = t, WantReply = want, GrData = []\<rparr>"
  by (simp add: rfc_global_def global_packet_def)

lemma down_enter_global:
  assumes "length t < 2 ^ 32" "disableRemote f"
  shows "down_enter rfc_codec f (global_packet t True) =
    (f\<lparr>seq := seq f + 1\<rparr>,
     if isRemoteForwardRequestType t then Waiting (seq f) else Done Transform (global_packet t True))"
  using rfc_global_packet [OF assms(1), of True] assms(2)
  by (simp add: down_enter_def rfc_codec_def Let_def) (simp add: global_packet_def)

definition pipe0 :: pipe where
  "pipe0 = \<lparr>filt = newForwardingFilter False True, dpc = DIdle, upc = None, owed = [], delivered = []\<rparr>"

definition pipe2 :: pipe where
  "pipe2 = \<lparr>filt = \<lparr>disableLocal = False, disableRemote = True, seq = 2, replied = 0\<rparr>, dpc = DWait 1,
     upc = None, owed = [0], delivered = []\<rparr>"

text \<open>A keep-alive request, then a request for a remote forwarding, which has to wait.\<close>

lemma pipe0_pipe2: "(pipe_step a rfc_codec)\<^sup>*\<^sup>* pipe0 pipe2"
proof -
  let ?s1 = "pipe0\<lparr>filt := (filt pipe0)\<lparr>seq := 1\<rparr>, owed := [0]\<rparr>"
  have "down_enter rfc_codec (filt pipe0) (global_packet ''keepalive@openssh.com'' True) =
      ((filt pipe0)\<lparr>seq := 1\<rparr>, Done Transform (global_packet ''keepalive@openssh.com'' True))"
    by (subst down_enter_global) (simp_all add: pipe0_def newForwardingFilter_def isRemoteForwardRequestType_def)
  then have "pipe_step a rfc_codec pipe0
      (pipe0\<lparr>filt := (filt pipe0)\<lparr>seq := 1\<rparr>, owed := owed pipe0 @ [seq (filt pipe0)..<seq ((filt pipe0)\<lparr>seq := 1\<rparr>)]\<rparr>)"
    by (rule client_pass [rotated]) (simp add: pipe0_def)
  then have 1: "pipe_step a rfc_codec pipe0 ?s1"
    by (simp add: pipe0_def newForwardingFilter_def)
  have "down_enter rfc_codec (filt ?s1) (global_packet ''tcpip-forward'' True) =
      ((filt pipe0)\<lparr>seq := 2\<rparr>, Waiting 1)"
    by (subst down_enter_global) (simp_all add: pipe0_def newForwardingFilter_def isRemoteForwardRequestType_def)
  then have "pipe_step a rfc_codec ?s1 (?s1\<lparr>filt := (filt pipe0)\<lparr>seq := 2\<rparr>, dpc := DWait 1\<rparr>)"
    by (rule client_block [rotated]) (simp add: pipe0_def)
  then have "pipe_step a rfc_codec ?s1 pipe2"
    by (simp add: pipe0_def pipe2_def newForwardingFilter_def)
  with 1 show ?thesis
    by (meson r_into_rtranclp rtranclp.rtrancl_into_rtrancl)
qed

lemma pipe0_init: "pipe_init pipe0"
  by (auto simp: pipe_init_def pipe0_def)

text \<open>
  A recorded reply is not a delivered reply.  \<^verbatim>\<open>up\<close> counts the upstream's reply when its hook runs, before
  the packet is written to the client, so \<^verbatim>\<open>down\<close> may pass and write its own failure first: there is
  a run in which the client gets the reply to its second request before that to its first.
\<close>

theorem replies_can_be_reordered:
  "\<exists>s. pipe_init pipe0 \<and> (pipe_step False rfc_codec)\<^sup>*\<^sup>* pipe0 s \<and> delivered s = [1, 0]"
proof -
  let ?f = "\<lambda>n. \<lparr>disableLocal = False, disableRemote = True, seq = 2, replied = n\<rparr>"
  let ?s3 = "pipe2\<lparr>filt := ?f 1, upc := Some 0, owed := []\<rparr>"
  let ?s4 = "?s3\<lparr>filt := ?f 2, dpc := DReply 1\<rparr>"
  let ?s5 = "?s4\<lparr>dpc := DIdle, delivered := delivered ?s4 @ [1]\<rparr>"
  let ?s6 = "?s5\<lparr>upc := None, delivered := delivered ?s5 @ [0]\<rparr>"
  have "pipe_step False rfc_codec pipe2 ?s3"
    by (rule up_reply [where p = "[msgRequestSuccess]"]) (auto simp: pipe2_def up_def)
  moreover have "pipe_step False rfc_codec ?s3 ?s4"
    by (rule wake) (auto simp: pipe2_def down_wake_def)
  moreover have "pipe_step False rfc_codec ?s4 ?s5"
    by (rule down_write) simp
  moreover have "pipe_step False rfc_codec ?s5 ?s6"
    by (rule up_write) simp
  ultimately have "(pipe_step False rfc_codec)\<^sup>*\<^sup>* pipe0 ?s6"
    using pipe0_pipe2 [of False] by (meson rtranclp.rtrancl_into_rtrancl)
  then show ?thesis
    using pipe0_init by (intro exI [of _ ?s6]) (simp add: pipe2_def)
qed



theorem blocked_request_answered_witness:
  "\<exists>s'. (pipe_step False rfc_codec)\<^sup>*\<^sup>* pipe2 s' \<and> dpc s' = DIdle \<and> 1 \<in> set (delivered s')"
  using blocked_request_answered [OF pipe0_init pipe0_pipe2, of 1] by (simp add: pipe2_def)

end
