(* ===== verification/Env_Inject.thy ===== *)
theory Env_Inject
  imports Hook_Chain
begin

text \<open>
  The environment injector (\<^verbatim>\<open>cmd/sshpiperd/envinject.go\<close>): before each request that starts a session
  it writes one \<^verbatim>\<open>env\<close> request per variable to the upstream.  \<open>write\<close> is
  \<^verbatim>\<open>PiperConn.WriteUpstreamPacket\<close> on the state \<open>'s\<close> of the upstream connection, \<open>marshal\<close> is
  \<^verbatim>\<open>ssh.Marshal\<close> of an \<^verbatim>\<open>envChannelRequest\<close>, and the list \<open>env\<close> is the map in the order the loop
  ranges over it.
\<close>

abbreviation msgChannelRequest :: byte where "msgChannelRequest \<equiv> 98"

record envChannelRequest =
  PeersID :: u32
  Request :: string
  EnvWantReply :: bool
  Name :: string
  Value :: string

definition env_request :: "u32 \<Rightarrow> string \<Rightarrow> string \<Rightarrow> envChannelRequest" where
  "env_request chID k v =
     \<lparr>PeersID = chID, Request = ''env'', EnvWantReply = False, Name = k, Value = v\<rparr>"

type_synonym 's writer = "'s \<Rightarrow> bytes \<Rightarrow> 's \<times> goerr option"

fun inject_loop ::
  "'s writer \<Rightarrow> (envChannelRequest \<Rightarrow> bytes) \<Rightarrow> u32 \<Rightarrow> (string \<times> string) list \<Rightarrow> 's \<Rightarrow> 's \<times> goerr option" where
  "inject_loop write marshal chID [] s = (s, None)"
| "inject_loop write marshal chID ((k, v) # env) s =
     (case write s (marshal (env_request chID k v)) of
        (s', Some e) \<Rightarrow> (s', Some e)
      | (s', None) \<Rightarrow> inject_loop write marshal chID env s')"

definition env_down ::
  "'s writer \<Rightarrow> (envChannelRequest \<Rightarrow> bytes) \<Rightarrow> (string \<times> string) list \<Rightarrow> 's hook" where
  "env_down write marshal env s pkt =
    (if length pkt < 9 \<or> pkt ! 0 \<noteq> msgChannelRequest then (s, HRet Transform pkt None)
     else
       (case (uint32_at pkt 5, uint32_at pkt 1) of
          (Some reqLen, Some chID) \<Rightarrow>
            if length pkt < 9 + unat reqLen + 1 then (s, HRet Transform pkt None)
            else if str (take (unat reqLen) (drop 9 pkt)) \<notin> {''shell'', ''exec'', ''subsystem''}
            then (s, HRet Transform pkt None)
            else (case inject_loop write marshal chID env s of
                    (s', e) \<Rightarrow> (s', HRet Transform pkt e))
        | _ \<Rightarrow> (s, HPanic)))"

section \<open>Properties\<close>

text \<open>A packet that starts a session on a channel, as RFC 4254 (5.4, 6.5) writes it.\<close>

definition session_start :: "u32 \<Rightarrow> string \<Rightarrow> bytes \<Rightarrow> bytes" where
  "session_start chID t rest = msgChannelRequest # put_uint32 chID @ put_sshstring (bytes_of t) @ rest"

definition log_write :: "bytes list writer" where
  "log_write log b = (log @ [b], None)"

lemma inject_loop_log:
  "inject_loop log_write marshal chID env log = (log @ map (\<lambda>(k, v). marshal (env_request chID k v)) env, None)"
  by (induction env arbitrary: log) (auto simp: log_write_def)

lemma session_start_cases:
  assumes "length pkt \<ge> 9" "pkt ! 0 = msgChannelRequest" "uint32_at pkt 5 = Some n" "uint32_at pkt 1 = Some chID"
    and "9 + unat n + 1 \<le> length pkt"
  obtains rest where "pkt = session_start chID (str (take (unat n) (drop 9 pkt))) rest" "rest \<noteq> []"
proof -
  obtain w1 where w1: "uint32_at (drop 1 pkt) 0 = Some w1" "drop 1 pkt = put_uint32 w1 @ drop 4 (drop 1 pkt)"
    by (rule split_uint32_at [of "drop 1 pkt"]) (use assms(1) in simp)
  obtain w5 where w5: "uint32_at (drop 5 pkt) 0 = Some w5" "drop 5 pkt = put_uint32 w5 @ drop 4 (drop 5 pkt)"
    by (rule split_uint32_at [of "drop 5 pkt"]) (use assms(1) in simp)
  have "w1 = chID" "w5 = n"
    using w1(1) w5(1) assms(3,4) uint32_at_drop [of pkt 1 0] uint32_at_drop [of pkt 5 0] by auto
  moreover have "pkt = msgChannelRequest # drop 1 pkt"
    using assms(1,2) by (cases pkt) auto
  moreover have "drop 9 pkt = take (unat n) (drop 9 pkt) @ drop (unat n) (drop 9 pkt)"
    by (rule append_take_drop_id [symmetric])
  moreover have "word_of_nat (length (take (unat n) (drop 9 pkt))) = n"
    using assms(5) by simp
  ultimately have "pkt = session_start chID (str (take (unat n) (drop 9 pkt))) (drop (unat n) (drop 9 pkt))"
    using w1(2) w5(2) by (simp add: session_start_def put_sshstring_def)
  moreover have "drop (unat n) (drop 9 pkt) \<noteq> []"
    using assms(5) by simp
  ultimately show thesis
    by (rule that)
qed

lemma env_down_session_start:
  assumes "t \<in> {''shell'', ''exec'', ''subsystem''}" "rest \<noteq> []"
  shows "env_down write marshal env s (session_start chID t rest) =
    (case inject_loop write marshal chID env s of (s', e) \<Rightarrow> (s', HRet Transform (session_start chID t rest) e))"
proof -
  let ?p = "session_start chID t rest"
  have len: "length t < 2 ^ 32" "unat (word_of_nat (length t) :: u32) = length t"
    using assms(1) by auto
  have "uint32_at ?p 1 = Some chID"
    using uint32_at_append_put [of "[msgChannelRequest]" 1] by (simp add: session_start_def)
  moreover have "uint32_at ?p 5 = Some (word_of_nat (length t))"
    using uint32_at_append_put [of "msgChannelRequest # put_uint32 chID" 5 "word_of_nat (length t)" "bytes_of t @ rest"]
    by (simp add: session_start_def put_sshstring_def)
  moreover have "take (length t) (drop 9 ?p) = bytes_of t"
    by (simp add: session_start_def put_sshstring_def numeral_eq_Suc put_uint32_def)
  ultimately show ?thesis
    using assms len by (auto simp: env_down_def session_start_def)
qed

lemma env_down_log:
  "(\<exists>chID t rest. pkt = session_start chID t rest \<and> rest \<noteq> [] \<and> t \<in> {''shell'', ''exec'', ''subsystem''}
      \<and> env_down log_write marshal env log pkt =
          (log @ map (\<lambda>(k, v). marshal (env_request chID k v)) env, HRet Transform pkt None))
   \<or> (\<not> (\<exists>chID t rest. pkt = session_start chID t rest \<and> rest \<noteq> [] \<and> t \<in> {''shell'', ''exec'', ''subsystem''})
      \<and> env_down log_write marshal env log pkt = (log, HRet Transform pkt None))"
proof (cases "\<exists>chID t rest. pkt = session_start chID t rest \<and> rest \<noteq> [] \<and> t \<in> {''shell'', ''exec'', ''subsystem''}")
  case True
  then obtain chID t rest where p: "pkt = session_start chID t rest" "rest \<noteq> []" "t \<in> {''shell'', ''exec'', ''subsystem''}"
    by blast
  then have "env_down log_write marshal env log pkt =
      (log @ map (\<lambda>(k, v). marshal (env_request chID k v)) env, HRet Transform pkt None)"
    using env_down_session_start [OF p(3,2), of log_write marshal env log chID]
    by (simp only: inject_loop_log prod.case)
  with p show ?thesis
    by blast
next
  case False
  have "env_down log_write marshal env log pkt = (log, HRet Transform pkt None)"
  proof (rule ccontr)
    assume neq: "\<not> ?thesis"
    then have long: "length pkt \<ge> 9" "pkt ! 0 = msgChannelRequest"
      by (auto simp: env_down_def split: if_splits)
    then obtain n chID where w: "uint32_at pkt 5 = Some n" "uint32_at pkt 1 = Some chID"
      by (auto simp: uint32_at_def)
    with neq long have *: "9 + unat n + 1 \<le> length pkt"
      "str (take (unat n) (drop 9 pkt)) \<in> {''shell'', ''exec'', ''subsystem''}"
      by (auto simp: env_down_def split: if_splits)
    from session_start_cases [OF long w *(1)] *(2) False show False
      by metis
  qed
  with False show ?thesis
    by blast
qed

text \<open>
  C40: exactly the session-starting requests trigger the injection, and the variables come first.  On every
  packet the injector hands the packet on unchanged and does not panic; what it has written to the
  upstream by then is one \<^verbatim>\<open>env\<close> request per variable, addressed to the packet's channel, if the packet is
  a \<^verbatim>\<open>shell\<close>, \<^verbatim>\<open>exec\<close> or \<^verbatim>\<open>subsystem\<close> request, and nothing otherwise.
\<close>

theorem env_injected_before_start:
  "(\<exists>chID t rest. pkt = session_start chID t rest \<and> rest \<noteq> [] \<and> t \<in> {''shell'', ''exec'', ''subsystem''}
      \<and> env_down log_write marshal env log pkt =
          (log @ map (\<lambda>(k, v). marshal (env_request chID k v)) env, HRet Transform pkt None))
   \<or> (\<not> (\<exists>chID t rest. pkt = session_start chID t rest \<and> rest \<noteq> [] \<and> t \<in> {''shell'', ''exec'', ''subsystem''})
      \<and> env_down log_write marshal env log pkt = (log, HRet Transform pkt None))"
  by (rule env_down_log)

text \<open>The first failing write ends the loop, and its error ends the pipe.\<close>

lemma inject_write_error:
  "write s (marshal (env_request chID k v)) = (s', Some e) \<Longrightarrow>
     inject_loop write marshal chID ((k, v) # env) s = (s', Some e)"
  by simp

end
