(* ===== verification/Broadcaster.thy ===== *)
theory Broadcaster
  imports Plugin_Api "HOL-Library.Sublist"
begin

text \<open>
  The fan-out of session frames to live viewers
  (\<^verbatim>\<open>cmd/sshpiperd/internal/admin/broadcaster.go\<close>).  The channels a broadcaster made live in
  a store, since viewers keep them after the broadcaster has forgotten them; a channel has a buffer
  of 256 frames and a closed flag.  Closing a closed channel and sending on one panic, which is the value
  \<open>None\<close> of the operations.
\<close>

section \<open>Frames and channels\<close>

record frame =
  Kind :: string
  ChannelID :: u32
  Time :: int
  Width :: u32
  Height :: u32
  FEnv :: strmap
  Data :: bytes

record chan =
  buf :: "frame list"
  closed_chan :: bool

abbreviation chan_cap :: nat where "chan_cap \<equiv> 256"

definition make_chan :: chan where
  "make_chan = \<lparr>buf = [], closed_chan = False\<rparr>"

definition close_chan :: "chan \<Rightarrow> chan option" where
  "close_chan c = (if closed_chan c then None else Some (c\<lparr>closed_chan := True\<rparr>))"

text \<open>\<^verbatim>\<open>select { case ch <- f: default: }\<close>\<close>

definition try_send :: "frame \<Rightarrow> chan \<Rightarrow> chan option" where
  "try_send f c =
     (if closed_chan c then None
      else if length (buf c) < chan_cap then Some (c\<lparr>buf := buf c @ [f]\<rparr>) else Some c)"

section \<open>The broadcaster\<close>

record broadcaster =
  subscribers :: "nat list"
  history :: "frame list"
  bclosed :: bool
  chans :: "nat \<Rightarrow> chan"
  next_chan :: nat

definition NewBroadcaster :: broadcaster where
  "NewBroadcaster = \<lparr>subscribers = [], history = [], bclosed = False, chans = (\<lambda>_. make_chan), next_chan = 0\<rparr>"

definition with_chan :: "(chan \<Rightarrow> chan option) \<Rightarrow> nat \<Rightarrow> broadcaster \<Rightarrow> broadcaster option" where
  "with_chan f ch b =
     (case f (chans b ch) of None \<Rightarrow> None | Some c \<Rightarrow> Some (b\<lparr>chans := (chans b)(ch := c)\<rparr>))"

fun for_chans :: "(chan \<Rightarrow> chan option) \<Rightarrow> nat list \<Rightarrow> broadcaster \<Rightarrow> broadcaster option" where
  "for_chans f [] b = Some b"
| "for_chans f (ch # chs) b =
     (case with_chan f ch b of None \<Rightarrow> None | Some b' \<Rightarrow> for_chans f chs b')"

fun send_all :: "frame list \<Rightarrow> nat \<Rightarrow> broadcaster \<Rightarrow> broadcaster option" where
  "send_all [] ch b = Some b"
| "send_all (f # fs) ch b =
     (case with_chan (try_send f) ch b of None \<Rightarrow> None | Some b' \<Rightarrow> send_all fs ch b')"

text \<open>\<^verbatim>\<open>Subscribe\<close> returns the number of the new channel; its cancel function is \<open>unsubscribe\<close>
  on that channel, and does nothing if the broadcaster was closed before (the channel is not a
  subscriber then).\<close>

definition Subscribe :: "bool \<Rightarrow> broadcaster \<Rightarrow> (broadcaster \<times> nat) option" where
  "Subscribe replayHeaders b =
     (let ch = next_chan b; b1 = b\<lparr>next_chan := Suc ch, chans := (chans b)(ch := make_chan)\<rparr>
      in if bclosed b then map_option (\<lambda>b'. (b', ch)) (with_chan close_chan ch b1)
         else let b2 = b1\<lparr>subscribers := subscribers b1 @ [ch]\<rparr>
              in if replayHeaders then map_option (\<lambda>b'. (b', ch)) (send_all (history b2) ch b2)
                 else Some (b2, ch))"

definition HasSubscribers :: "broadcaster \<Rightarrow> bool" where
  "HasSubscribers b \<longleftrightarrow> \<not> bclosed b \<and> length (subscribers b) > 0"

definition unsubscribe :: "nat \<Rightarrow> broadcaster \<Rightarrow> broadcaster option" where
  "unsubscribe ch b =
     (if ch \<in> set (subscribers b)
      then with_chan close_chan ch (b\<lparr>subscribers := removeAll ch (subscribers b)\<rparr>)
      else Some b)"

definition remember :: "frame \<Rightarrow> frame list \<Rightarrow> frame list" where
  "remember f h = filter (\<lambda>g. ChannelID g \<noteq> ChannelID f) h @ [f]"

definition Publish :: "frame \<Rightarrow> broadcaster \<Rightarrow> broadcaster option" where
  "Publish f b =
     (if bclosed b then Some b
      else let b1 = (if Kind f = ''header'' then b\<lparr>history := remember f (history b)\<rparr> else b)
           in for_chans (try_send f) (subscribers b1) b1)"

definition HasHeader :: "broadcaster \<Rightarrow> bool" where
  "HasHeader b \<longleftrightarrow> length (history b) > 0"

definition Close :: "broadcaster \<Rightarrow> broadcaster option" where
  "Close b =
     (if bclosed b then Some b
      else map_option (\<lambda>b'. b'\<lparr>subscribers := []\<rparr>)
             (for_chans close_chan (subscribers b) (b\<lparr>bclosed := True\<rparr>)))"

text \<open>A viewer's receive: the oldest frame, \<open>None\<close> when the channel is closed and drained; no
  rule applies while the channel is open and empty.\<close>

inductive recv :: "nat \<Rightarrow> broadcaster \<Rightarrow> frame option \<Rightarrow> broadcaster \<Rightarrow> bool" where
  recv_frame: "buf (chans b ch) = f # fs \<Longrightarrow>
    recv ch b (Some f) (b\<lparr>chans := (chans b)(ch := (chans b ch)\<lparr>buf := fs\<rparr>)\<rparr>)"
| recv_closed: "buf (chans b ch) = [] \<Longrightarrow> closed_chan (chans b ch) \<Longrightarrow> recv ch b None b"

section \<open>Invariant\<close>

definition bc_inv :: "broadcaster \<Rightarrow> bool" where
  "bc_inv b \<longleftrightarrow>
     distinct (subscribers b)
   \<and> (\<forall>ch \<in> set (subscribers b). ch < next_chan b)
   \<and> (\<forall>ch < next_chan b. closed_chan (chans b ch) \<longleftrightarrow> ch \<notin> set (subscribers b))
   \<and> (bclosed b \<longrightarrow> subscribers b = [])
   \<and> (\<forall>ch. length (buf (chans b ch)) \<le> chan_cap)
   \<and> distinct (map ChannelID (history b))
   \<and> (\<forall>h \<in> set (history b). Kind h = ''header'')"

definition put_frame :: "frame \<Rightarrow> frame list \<Rightarrow> frame list" where
  "put_frame f fs = (if length fs < chan_cap then fs @ [f] else fs)"

lemma try_send_open: "\<not> closed_chan c \<Longrightarrow> try_send f c = Some (c\<lparr>buf := put_frame f (buf c)\<rparr>)"
  by (simp add: try_send_def put_frame_def)

lemma length_put_frame: "length fs \<le> chan_cap \<Longrightarrow> length (put_frame f fs) \<le> chan_cap"
  by (simp add: put_frame_def)

text \<open>A loop over distinct open channels updates exactly those channels.\<close>

lemma for_chans_ok:
  assumes "\<forall>ch \<in> set chs. f (chans b ch) = Some (g (chans b ch))" "distinct chs"
  shows "for_chans f chs b =
    Some (b\<lparr>chans := \<lambda>ch. if ch \<in> set chs then g (chans b ch) else chans b ch\<rparr>)"
  using assms
proof (induction chs arbitrary: b)
  case (Cons c chs)
  let ?b = "b\<lparr>chans := (chans b)(c := g (chans b c))\<rparr>"
  have "with_chan f c b = Some ?b"
    using Cons.prems by (simp add: with_chan_def)
  moreover have "for_chans f chs ?b =
      Some (?b\<lparr>chans := \<lambda>ch. if ch \<in> set chs then g (chans ?b ch) else chans ?b ch\<rparr>)"
    using Cons.prems by (intro Cons.IH) auto
  moreover have "(\<lambda>ch. if ch \<in> set chs then g (chans ?b ch) else chans ?b ch) =
      (\<lambda>ch. if ch \<in> set (c # chs) then g (chans b ch) else chans b ch)"
    using Cons.prems(2) by auto
  ultimately show ?case
    by simp
qed simp

lemma send_all_ok:
  "\<not> closed_chan (chans b ch) \<Longrightarrow>
     send_all fs ch b = Some (b\<lparr>chans := (chans b)(ch := (chans b ch)\<lparr>buf := fold put_frame fs (buf (chans b ch))\<rparr>)\<rparr>)"
  by (induction fs arbitrary: b) (auto simp: with_chan_def try_send_open)

lemma length_fold_put_frame: "length xs \<le> chan_cap \<Longrightarrow> length (fold put_frame fs xs) \<le> chan_cap"
  by (induction fs arbitrary: xs) (auto simp: length_put_frame)

lemma distinct_remember:
  "distinct (map ChannelID h) \<Longrightarrow> distinct (map ChannelID (remember f h))"
  by (induction h) (auto simp: remember_def)

lemma Subscribe_ok:
  assumes "bc_inv b"
  obtains b' where "Subscribe replay b = Some (b', next_chan b)" "bc_inv b'"
    "history b' = history b" "bclosed b' = bclosed b"
    "\<forall>ch < next_chan b. chans b' ch = chans b ch"
    "chans b' (next_chan b) =
       (if bclosed b then make_chan\<lparr>closed_chan := True\<rparr>
        else make_chan\<lparr>buf := if replay then fold put_frame (history b) [] else []\<rparr>)"
    "subscribers b' = (if bclosed b then [] else subscribers b @ [next_chan b])"
    "next_chan b' = Suc (next_chan b)"
proof -
  let ?ch = "next_chan b"
  let ?c = "if bclosed b then make_chan\<lparr>closed_chan := True\<rparr>
      else make_chan\<lparr>buf := if replay then fold put_frame (history b) [] else []\<rparr>"
  let ?b = "b\<lparr>next_chan := Suc ?ch, chans := (chans b)(?ch := ?c),
      subscribers := (if bclosed b then [] else subscribers b @ [?ch])\<rparr>"
  have "Subscribe replay b = Some (?b, ?ch)"
    using assms by (auto simp: Subscribe_def Let_def with_chan_def close_chan_def make_chan_def send_all_ok bc_inv_def)
  moreover have "bc_inv ?b"
    using assms length_fold_put_frame [of "[]" "history b"]
    by (auto simp: bc_inv_def make_chan_def less_Suc_eq)
  ultimately show thesis
    by (intro that [of ?b]) auto
qed

lemma unsubscribe_ok:
  assumes "bc_inv b"
  obtains b' where "unsubscribe ch b = Some b'" "bc_inv b'" "history b' = history b"
    "subscribers b' = removeAll ch (subscribers b)" "\<forall>c. buf (chans b' c) = buf (chans b c)"
    "next_chan b' = next_chan b"
proof (cases "ch \<in> set (subscribers b)")
  case True
  let ?b = "b\<lparr>subscribers := removeAll ch (subscribers b), chans := (chans b)(ch := (chans b ch)\<lparr>closed_chan := True\<rparr>)\<rparr>"
  have "unsubscribe ch b = Some ?b"
    using assms True by (auto simp: unsubscribe_def with_chan_def close_chan_def bc_inv_def)
  moreover have "bc_inv ?b"
    using assms by (auto simp: bc_inv_def distinct_removeAll)
  ultimately show thesis
    by (intro that [of ?b]) auto
next
  case False
  with assms show thesis
    by (intro that [of b]) (auto simp: unsubscribe_def)
qed

lemma Publish_ok:
  assumes "bc_inv b"
  obtains b' where "Publish f b = Some b'" "bc_inv b'" "bclosed b' = bclosed b" "subscribers b' = subscribers b"
    "next_chan b' = next_chan b"
    "history b' = (if \<not> bclosed b \<and> Kind f = ''header'' then remember f (history b) else history b)"
    "\<forall>ch. chans b' ch = (if ch \<in> set (subscribers b)
       then (chans b ch)\<lparr>buf := put_frame f (buf (chans b ch))\<rparr> else chans b ch)"
proof -
  define h where "h = (if \<not> bclosed b \<and> Kind f = ''header'' then remember f (history b) else history b)"
  let ?b = "b\<lparr>history := h, chans := \<lambda>ch. if ch \<in> set (subscribers b)
       then (chans b ch)\<lparr>buf := put_frame f (buf (chans b ch))\<rparr> else chans b ch\<rparr>"
  have op: "\<forall>ch \<in> set (subscribers b). try_send f (chans b ch) = Some ((chans b ch)\<lparr>buf := put_frame f (buf (chans b ch))\<rparr>)"
    using assms by (auto simp: bc_inv_def try_send_open)
  have "Publish f b = Some ?b"
  proof (cases "bclosed b")
    case True
    with assms show ?thesis
      by (simp add: Publish_def h_def bc_inv_def)
  next
    case False
    let ?b1 = "b\<lparr>history := h\<rparr>"
    have "Publish f b = for_chans (try_send f) (subscribers b) ?b1"
      using False by (auto simp: Publish_def h_def Let_def)
    also have "\<dots> = Some (?b1\<lparr>chans := \<lambda>ch. if ch \<in> set (subscribers b)
        then (chans ?b1 ch)\<lparr>buf := put_frame f (buf (chans ?b1 ch))\<rparr> else chans ?b1 ch\<rparr>)"
      using op assms by (intro for_chans_ok) (auto simp: bc_inv_def)
    finally show ?thesis
      by (simp cong: if_cong)
  qed
  moreover have "bc_inv ?b"
    using assms distinct_remember [of "history b" f] length_put_frame
    by (auto simp: bc_inv_def h_def remember_def)
  ultimately show thesis
    by (intro that [of ?b]) (auto simp: h_def)
qed

lemma Close_ok:
  assumes "bc_inv b"
  obtains b' where "Close b = Some b'" "bc_inv b'" "bclosed b'" "history b' = history b"
    "subscribers b' = []" "next_chan b' = next_chan b"
    "\<forall>ch < next_chan b. closed_chan (chans b' ch)" "\<forall>ch. buf (chans b' ch) = buf (chans b ch)"
proof (cases "bclosed b")
  case True
  with assms show thesis
    by (intro that [of b]) (auto simp: Close_def bc_inv_def)
next
  case False
  let ?b = "b\<lparr>bclosed := True, subscribers := [],
      chans := \<lambda>ch. if ch \<in> set (subscribers b) then (chans b ch)\<lparr>closed_chan := True\<rparr> else chans b ch\<rparr>"
  have "for_chans close_chan (subscribers b) (b\<lparr>bclosed := True\<rparr>) =
      Some ((b\<lparr>bclosed := True\<rparr>)\<lparr>chans := \<lambda>ch. if ch \<in> set (subscribers b)
        then (chans (b\<lparr>bclosed := True\<rparr>) ch)\<lparr>closed_chan := True\<rparr> else chans (b\<lparr>bclosed := True\<rparr>) ch\<rparr>)"
    using assms by (intro for_chans_ok) (auto simp: bc_inv_def close_chan_def)
  then have "Close b = Some ?b"
    using False by (simp add: Close_def cong: if_cong)
  moreover have "bc_inv ?b"
    using assms by (auto simp: bc_inv_def)
  ultimately show thesis
    using assms by (intro that [of ?b]) (auto simp: bc_inv_def)
qed

lemma recv_ok:
  assumes "recv ch b r b'" "bc_inv b"
  shows "bc_inv b'"
  using assms
proof cases
  case (recv_frame f fs)
  have "length (buf (chans b ch)) \<le> chan_cap"
    using assms(2) by (simp add: bc_inv_def)
  then have "length fs \<le> chan_cap"
    by (simp add: recv_frame)
  with recv_frame assms(2) show ?thesis
    by (auto simp: bc_inv_def)
qed simp

section \<open>Runs\<close>

text \<open>What can happen to a broadcaster: its own operations, and receives of the viewers.\<close>

datatype bc_event = ESubscribe bool | EUnsubscribe nat | EPublish frame | EClose | ERecv nat "frame option"

inductive bc_step :: "broadcaster \<Rightarrow> bc_event \<Rightarrow> broadcaster \<Rightarrow> bool" where
  step_subscribe: "Subscribe r b = Some (b', ch) \<Longrightarrow> bc_step b (ESubscribe r) b'"
| step_unsubscribe: "unsubscribe ch b = Some b' \<Longrightarrow> bc_step b (EUnsubscribe ch) b'"
| step_publish: "Publish f b = Some b' \<Longrightarrow> bc_step b (EPublish f) b'"
| step_close: "Close b = Some b' \<Longrightarrow> bc_step b EClose b'"
| step_recv: "ch < next_chan b \<Longrightarrow> recv ch b r b' \<Longrightarrow> bc_step b (ERecv ch r) b'"

lemma bc_step_inv:
  assumes "bc_inv b" "bc_step b e b'"
  shows "bc_inv b'"
  using assms(2)
proof cases
  case (step_subscribe r ch)
  show ?thesis
    by (rule Subscribe_ok [OF assms(1), of r]) (use step_subscribe in simp)
next
  case (step_unsubscribe ch)
  show ?thesis
    by (rule unsubscribe_ok [OF assms(1), of ch]) (use step_unsubscribe in simp)
next
  case (step_publish f)
  show ?thesis
    by (rule Publish_ok [OF assms(1), of f]) (use step_publish in simp)
next
  case step_close
  show ?thesis
    by (rule Close_ok [OF assms(1)]) (use step_close in simp)
next
  case (step_recv ch r)
  then show ?thesis
    using assms(1) by (blast intro: recv_ok)
qed

lemma bc_inv_New: "bc_inv NewBroadcaster"
  by (simp add: bc_inv_def NewBroadcaster_def make_chan_def)

interpretation bc: step_invariant "\<lambda>b. b = NewBroadcaster" "\<lambda>b b'. \<exists>e. bc_step b e b'" bc_inv
  by unfold_locales (auto intro: bc_inv_New bc_step_inv)

text \<open>
  C32: the broadcaster never panics and its memory is bounded.  In every state a broadcaster can get into,
  whatever its viewers do, none of its operations closes a channel twice or sends on a closed
  one; every viewer's buffer holds at most 256 frames; the history holds header frames only, at
  most one per channel; and after it is closed no viewer is left subscribed.
\<close>

theorem broadcaster_safe:
  assumes "(\<lambda>b b'. \<exists>e. bc_step b e b')\<^sup>*\<^sup>* NewBroadcaster b"
  shows "Publish f b \<noteq> None \<and> Subscribe replay b \<noteq> None \<and> unsubscribe ch b \<noteq> None \<and> Close b \<noteq> None
    \<and> length (buf (chans b c)) \<le> 256
    \<and> distinct (map ChannelID (history b)) \<and> (\<forall>h \<in> set (history b). Kind h = ''header'')
    \<and> (bclosed b \<longrightarrow> subscribers b = [])"
proof -
  have inv: "bc_inv b"
    using refl assms by (rule bc.reachable_inv)
  have "Publish f b \<noteq> None"
    by (rule Publish_ok [OF inv, of f]) simp
  moreover have "Subscribe replay b \<noteq> None"
    by (rule Subscribe_ok [OF inv, of replay]) simp
  moreover have "unsubscribe ch b \<noteq> None"
    by (rule unsubscribe_ok [OF inv, of ch]) simp
  moreover have "Close b \<noteq> None"
    by (rule Close_ok [OF inv]) simp
  ultimately show ?thesis
    using inv by (auto simp: bc_inv_def)
qed

section \<open>What a viewer sees\<close>

inductive bc_run :: "broadcaster \<Rightarrow> bc_event list \<Rightarrow> broadcaster \<Rightarrow> bool" where
  run_nil: "bc_run b [] b"
| run_snoc: "bc_run b es b' \<Longrightarrow> bc_step b' e b'' \<Longrightarrow> bc_run b (es @ [e]) b''"

fun received :: "nat \<Rightarrow> bc_event list \<Rightarrow> frame list" where
  "received ch [] = []"
| "received ch (ERecv c (Some f) # es) = (if c = ch then f # received ch es else received ch es)"
| "received ch (e # es) = received ch es"

fun published :: "bc_event list \<Rightarrow> frame list" where
  "published [] = []"
| "published (EPublish f # es) = f # published es"
| "published (e # es) = published es"

lemma received_append [simp]: "received ch (xs @ ys) = received ch xs @ received ch ys"
  by (induction ch xs rule: received.induct) auto

lemma published_append [simp]: "published (xs @ ys) = published xs @ published ys"
  by (induction xs rule: published.induct) auto

text \<open>One step, seen from an existing channel.\<close>

lemma bc_step_viewer:
  assumes "bc_inv b" "bc_step b e b'" "ch < next_chan b"
  shows "next_chan b \<le> next_chan b' \<and> (ch \<in> set (subscribers b') \<longrightarrow> ch \<in> set (subscribers b)) \<and>
    (received ch [e] @ buf (chans b' ch) = buf (chans b ch) @ published [e] \<or>
     received ch [e] @ buf (chans b' ch) = buf (chans b ch) \<and>
       (published [e] = [] \<or> ch \<notin> set (subscribers b') \<or> length (buf (chans b ch)) \<ge> chan_cap))"
  using assms(2)
proof cases
  case (step_subscribe r c)
  show ?thesis
    by (rule Subscribe_ok [OF assms(1), of r]) (use step_subscribe assms(3) in \<open>auto split: if_splits\<close>)
next
  case (step_unsubscribe c)
  show ?thesis
    by (rule unsubscribe_ok [OF assms(1), of c]) (use step_unsubscribe in auto)
next
  case (step_publish f)
  show ?thesis
    by (rule Publish_ok [OF assms(1), of f]) (use step_publish in \<open>auto simp: put_frame_def\<close>)
next
  case step_close
  show ?thesis
    by (rule Close_ok [OF assms(1)]) (use step_close in auto)
next
  case (step_recv c r)
  then show ?thesis
    by (auto elim!: recv.cases)
qed

lemma bc_run_viewer:
  assumes "bc_run b es b'" "bc_inv b" "ch < next_chan b"
  shows "bc_inv b' \<and> ch < next_chan b' \<and> (ch \<in> set (subscribers b') \<longrightarrow> ch \<in> set (subscribers b))
    \<and> subseq (received ch es @ buf (chans b' ch)) (buf (chans b ch) @ published es)
    \<and> (ch \<in> set (subscribers b') \<and> length (buf (chans b ch)) + length (published es) \<le> chan_cap \<longrightarrow>
         received ch es @ buf (chans b' ch) = buf (chans b ch) @ published es)"
  using assms
proof induction
  case (run_snoc b es b' e b'')
  then have IH: "bc_inv b'" "ch < next_chan b'" "subseq (received ch es @ buf (chans b' ch)) (buf (chans b ch) @ published es)"
    "ch \<in> set (subscribers b') \<and> length (buf (chans b ch)) + length (published es) \<le> chan_cap \<longrightarrow>
         received ch es @ buf (chans b' ch) = buf (chans b ch) @ published es"
    "ch \<in> set (subscribers b') \<longrightarrow> ch \<in> set (subscribers b)"
    by auto
  note step = bc_step_viewer [OF IH(1) run_snoc.hyps(2) IH(2)]
  have inv: "bc_inv b''"
    using IH(1) run_snoc.hyps(2) by (rule bc_step_inv)
  from step consider
    (all) "received ch [e] @ buf (chans b'' ch) = buf (chans b' ch) @ published [e]"
  | (drop) "received ch [e] @ buf (chans b'' ch) = buf (chans b' ch)"
      "published [e] = [] \<or> ch \<notin> set (subscribers b'') \<or> length (buf (chans b' ch)) \<ge> chan_cap"
    by blast
  then show ?case
  proof cases
    case all
    then have eq: "received ch (es @ [e]) @ buf (chans b'' ch) = (received ch es @ buf (chans b' ch)) @ published [e]"
      by simp
    have "subseq ((received ch es @ buf (chans b' ch)) @ published [e]) ((buf (chans b ch) @ published es) @ published [e])"
      using IH(3) by (rule list_emb_append_mono) simp
    then show ?thesis
      unfolding eq using IH step inv by auto
  next
    case drop
    then have eq: "received ch (es @ [e]) @ buf (chans b'' ch) = received ch es @ buf (chans b' ch)"
      by simp
    have "subseq (received ch es @ buf (chans b' ch)) ((buf (chans b ch) @ published es) @ published [e])"
      using IH(3) by (rule subseq_rev_drop_many)
    moreover have "published [e] = []" if "ch \<in> set (subscribers b'')"
        "length (buf (chans b ch)) + length (published (es @ [e])) \<le> chan_cap"
    proof (rule ccontr)
      assume ne: "published [e] \<noteq> []"
      then have "length (buf (chans b' ch)) \<ge> chan_cap"
        using drop that by auto
      moreover have "received ch es @ buf (chans b' ch) = buf (chans b ch) @ published es"
        using IH(4) that step by auto
      then have "length (buf (chans b' ch)) \<le> length (buf (chans b ch)) + length (published es)"
        by (metis length_append le_add2)
      ultimately show False
        using that(2) ne by (cases "published [e]") auto
    qed
    ultimately show ?thesis
      unfolding eq using IH step inv by auto
  qed
qed auto

text \<open>
  C31: a viewer sees the session in order.  For a viewer that subscribes at any reachable moment and any run
  after that, what it has received followed by what is still in its buffer is a subsequence of
  the replayed headers followed by the frames published since: nothing is reordered, repeated or
  invented.  If those are at most 256 frames and the viewer is still subscribed, nothing is lost.
\<close>

theorem viewer_in_order:
  assumes "(\<lambda>b b'. \<exists>e. bc_step b e b')\<^sup>*\<^sup>* NewBroadcaster b" "\<not> bclosed b"
    and "Subscribe replay b = Some (b1, ch)" "bc_run b1 es b2"
  defines "start \<equiv> (if replay then fold put_frame (history b) [] else [])"
  shows "subseq (received ch es @ buf (chans b2 ch)) (start @ published es)
    \<and> (ch \<in> set (subscribers b2) \<and> length start + length (published es) \<le> 256 \<longrightarrow>
         received ch es @ buf (chans b2 ch) = start @ published es)"
proof -
  have inv: "bc_inv b"
    using refl assms(1) by (rule bc.reachable_inv)
  have "bc_inv b1 \<and> ch < next_chan b1 \<and> buf (chans b1 ch) = start"
    by (rule Subscribe_ok [OF inv, of replay]) (use assms(2,3) in \<open>auto simp: start_def make_chan_def\<close>)
  then show ?thesis
    using bc_run_viewer [OF assms(4)] by auto
qed

definition demo_frame :: frame where
  "demo_frame = \<lparr>Kind = ''o'', ChannelID = 0, Time = 0, Width = 0, Height = 0, FEnv = Map.empty, Data = [65]\<rparr>"

theorem broadcaster_safe_witness:
  "\<exists>b. (\<lambda>b b'. \<exists>e. bc_step b e b')\<^sup>*\<^sup>* NewBroadcaster b \<and> bclosed b \<and> Publish demo_frame b \<noteq> None"
proof -
  obtain b where b: "Close NewBroadcaster = Some b" "bclosed b"
    by (rule Close_ok [OF bc_inv_New]) simp
  then have "\<exists>e. bc_step NewBroadcaster e b"
    by (blast intro: step_close)
  then have "(\<lambda>b b'. \<exists>e. bc_step b e b')\<^sup>*\<^sup>* NewBroadcaster b"
    by (rule r_into_rtranclp [where r = "\<lambda>b b'. \<exists>e. bc_step b e b'"])
  with b(2) broadcaster_safe [OF this, of demo_frame] show ?thesis
    by blast
qed

theorem viewer_in_order_witness:
  "\<exists>b1 b2. Subscribe False NewBroadcaster = Some (b1, 0) \<and> bc_run b1 [EPublish demo_frame] b2
     \<and> received 0 [EPublish demo_frame] @ buf (chans b2 0) = [demo_frame]"
proof -
  obtain b1 where b1: "Subscribe False NewBroadcaster = Some (b1, 0)" "bc_inv b1" "subscribers b1 = [0]"
    by (rule Subscribe_ok [OF bc_inv_New, of False]) (auto simp: NewBroadcaster_def)
  obtain b2 where b2: "Publish demo_frame b1 = Some b2" "subscribers b2 = [0]"
    by (rule Publish_ok [OF b1(2), of demo_frame]) (auto simp: b1(3))
  then have run: "bc_run b1 ([] @ [EPublish demo_frame]) b2"
    by (blast intro: run_nil run_snoc step_publish)
  show ?thesis
    using viewer_in_order [OF rtranclp.rtrancl_refl _ b1(1) run] b1(1) b2(2) run
    by (auto simp: NewBroadcaster_def)
qed

end
