(* ===== verification/Admin_Registry.thy ===== *)
theory Admin_Registry
  imports Broadcaster "HOL-Library.Multiset" "HOL-Library.List_Lexorder" "HOL-Library.Char_ord" "HOL-Library.Product_Lexorder"
begin

text \<open>
  The registry of live sessions (\<^verbatim>\<open>cmd/sshpiperd/internal/admin/registry.go\<close>) and the admin gRPC
  service over it (\<^verbatim>\<open>server.go\<close>).  Broadcasters and pipes are objects: the registry holds their
  addresses, the store holds the broadcasters, and \<open>pipe_closes\<close> counts the calls of a pipe's \<^verbatim>\<open>Close\<close>.
  The session map is an association list, in the order of an iteration.  Times are nanoseconds.
\<close>

section \<open>State\<close>

record session =
  ID :: string
  DownstreamUser :: string
  DownstreamAddr :: string
  UpstreamUser :: string
  UpstreamAddr :: string
  StartedAt :: int

record sessionEntry =
  info :: session
  pipe_addr :: nat
  bc_addr :: nat
  closedOnce :: bool

record registry =
  sessions :: "(string \<times> sessionEntry) list"
  bstore :: "nat \<Rightarrow> broadcaster"
  next_bc :: nat
  pipe_closes :: "nat \<Rightarrow> nat"

definition NewRegistry :: registry where
  "NewRegistry = \<lparr>sessions = [], bstore = (\<lambda>_. NewBroadcaster), next_bc = 0, pipe_closes = (\<lambda>_. 0)\<rparr>"

section \<open>Operations\<close>

definition Add :: "session \<Rightarrow> nat \<Rightarrow> registry \<Rightarrow> registry \<times> nat" where
  "Add i pipe r =
     (let b = next_bc r
      in (r\<lparr>bstore := (bstore r)(b := NewBroadcaster), next_bc := Suc b,
            sessions := put (sessions r) (ID i)
              \<lparr>info = i, pipe_addr = pipe, bc_addr = b, closedOnce = False\<rparr>\<rparr>, b))"

text \<open>\<open>None\<close> is a panic of the broadcaster's \<^verbatim>\<open>Close\<close>.\<close>

definition Remove :: "string \<Rightarrow> registry \<Rightarrow> registry option" where
  "Remove i r =
     (case map_of (sessions r) i of
        None \<Rightarrow> Some r
      | Some entry \<Rightarrow>
          let r1 = r\<lparr>sessions := del (sessions r) i\<rparr>
          in (case Close (bstore r1 (bc_addr entry)) of
                None \<Rightarrow> None
              | Some b \<Rightarrow> Some (r1\<lparr>bstore := (bstore r1)(bc_addr entry := b)\<rparr>)))"

text \<open>\<^verbatim>\<open>sort.Slice\<close> with a comparison by start time, then by id.\<close>

definition List_sessions :: "registry \<Rightarrow> session list" where
  "List_sessions r = sort_key (\<lambda>s. (StartedAt s, ID s)) (map (\<lambda>(_, e). info e) (sessions r))"

definition Get :: "string \<Rightarrow> registry \<Rightarrow> (session \<times> nat) option" where
  "Get i r = map_option (\<lambda>e. (info e, bc_addr e)) (map_of (sessions r) i)"

definition Kill :: "string \<Rightarrow> registry \<Rightarrow> registry \<times> bool" where
  "Kill i r =
     (case map_of (sessions r) i of
        None \<Rightarrow> (r, False)
      | Some entry \<Rightarrow>
          ((if closedOnce entry then r
            else r\<lparr>sessions := put (sessions r) i (entry\<lparr>closedOnce := True\<rparr>),
                   pipe_closes := (pipe_closes r)(pipe_addr entry := Suc (pipe_closes r (pipe_addr entry)))\<rparr>),
           True))"

section \<open>The gRPC service\<close>

record pb_session =
  PbId :: string
  PbDownstreamUser :: string
  PbDownstreamAddr :: string
  PbUpstreamUser :: string
  PbUpstreamAddr :: string
  PbStartedAt :: int
  Streamable :: bool

definition unix_seconds :: "int \<Rightarrow> int" where
  "unix_seconds t = t div 1000000000"

definition to_pb :: "registry \<Rightarrow> session \<Rightarrow> pb_session" where
  "to_pb r s =
     \<lparr>PbId = ID s, PbDownstreamUser = DownstreamUser s, PbDownstreamAddr = DownstreamAddr s,
      PbUpstreamUser = UpstreamUser s, PbUpstreamAddr = UpstreamAddr s,
      PbStartedAt = unix_seconds (StartedAt s),
      Streamable = (case Get (ID s) r of None \<Rightarrow> False | Some (_, b) \<Rightarrow> HasHeader (bstore r b))\<rparr>"

definition ListSessions :: "registry \<Rightarrow> pb_session list" where
  "ListSessions r = map (to_pb r) (List_sessions r)"

definition KillSession :: "string \<Rightarrow> registry \<Rightarrow> registry \<times> bool res" where
  "KillSession i r =
     (if i = '''' then (r, Inl (Status ''InvalidArgument'' ''id is required'' []))
      else (case Kill i r of (r', killed) \<Rightarrow> (r', Inr killed)))"

text \<open>\<^verbatim>\<open>StreamSession\<close> up to its loop: the subscription it opens.\<close>

definition StreamSession_open :: "string \<Rightarrow> bool \<Rightarrow> registry \<Rightarrow> (registry \<times> nat \<times> nat) outcome" where
  "StreamSession_open i replay r =
     (if i = '''' then Fails (Status ''InvalidArgument'' ''id is required'' [])
      else (case Get i r of
          None \<Rightarrow> Fails (Status ''NotFound'' ''session %q not found'' [i])
        | Some (_, b) \<Rightarrow>
            (case Subscribe replay (bstore r b) of
               None \<Rightarrow> Panics
             | Some (bc, ch) \<Rightarrow> Returns (r\<lparr>bstore := (bstore r)(b := bc)\<rparr>, b, ch))))"

datatype session_frame =
    Header (HWidth: int) (HHeight: int) (HTimestamp: int) (HEnv: strmap) (HChannelId: u32)
  | Event (EKind: string) (EData: bytes) (EChannelId: u32)

definition frameToProto :: "frame \<Rightarrow> session_frame res" where
  "frameToProto f =
     (if Kind f = ''header'' then
        Inr (Header (sint (Width f)) (sint (Height f)) (unix_seconds (Time f)) (FEnv f) (ChannelID f))
      else if Kind f \<in> {''o'', ''i''} then Inr (Event (Kind f) (Data f) (ChannelID f))
      else if Kind f = ''r'' then
        Inr (Event (Kind f) (bytes_of (utoa (uint (Width f)) @ ''x'' @ utoa (uint (Height f)))) (ChannelID f))
      else Inl (Errorf ''unknown frame kind %q'' [Kind f]))"

text \<open>The loop of \<^verbatim>\<open>StreamSession\<close> over the results of its receives; \<open>send\<close> is the error of
  \<^verbatim>\<open>stream.Send\<close>, if any.  The second component is the value returned; \<open>None\<close> means the loop goes on.\<close>

fun stream_loop ::
  "(session_frame \<Rightarrow> goerr option) \<Rightarrow> frame option list \<Rightarrow> session_frame list \<times> goerr option option" where
  "stream_loop send [] = ([], None)"
| "stream_loop send (None # rs) = ([], Some None)"
| "stream_loop send (Some f # rs) =
     (case frameToProto f of
        Inl e \<Rightarrow> ([], Some (Some e))
      | Inr msg \<Rightarrow>
          (case send msg of
             Some e \<Rightarrow> ([], Some (Some e))
           | None \<Rightarrow> (case stream_loop send rs of (out, r) \<Rightarrow> (msg # out, r))))"

section \<open>Invariant\<close>

definition reg_inv :: "registry \<Rightarrow> bool" where
  "reg_inv r \<longleftrightarrow>
     gomap (sessions r)
   \<and> (\<forall>(i, e) \<in> set (sessions r). ID (info e) = i \<and> bc_addr e < next_bc r
        \<and> \<not> bclosed (bstore r (bc_addr e)) \<and> (pipe_closes r (pipe_addr e) = (if closedOnce e then 1 else 0)))
   \<and> inj_on (\<lambda>(i, e). bc_addr e) (set (sessions r))
   \<and> inj_on (\<lambda>(i, e). pipe_addr e) (set (sessions r))
   \<and> (\<forall>b. bc_inv (bstore r b))
   \<and> (\<forall>p. pipe_closes r p \<le> 1)"

text \<open>
  What can happen to the registry.  The daemon adds a session for a pipe of its own (the address is
  fresh); viewers and hooks work on the broadcasters, but only \<^verbatim>\<open>Remove\<close> closes one.
\<close>

inductive reg_step :: "registry \<Rightarrow> registry \<Rightarrow> bool" where
  reg_add: "pipe_closes r pipe = 0 \<Longrightarrow> \<forall>(i', e) \<in> set (sessions r). pipe_addr e \<noteq> pipe \<Longrightarrow>
    Add i pipe r = (r', b) \<Longrightarrow> reg_step r r'"
| reg_remove: "Remove i r = Some r' \<Longrightarrow> reg_step r r'"
| reg_kill: "Kill i r = (r', k) \<Longrightarrow> reg_step r r'"
| reg_bc: "bc_step (bstore r b) e bc' \<Longrightarrow> e \<noteq> EClose \<Longrightarrow> reg_step r (r\<lparr>bstore := (bstore r)(b := bc')\<rparr>)"

lemma set_put:
  "gomap m \<Longrightarrow> set (put m k v) = insert (k, v) {e \<in> set m. fst e \<noteq> k}"
proof (induction m k v rule: put.induct)
  case (2 k' v' m k v)
  then show ?case
    by (auto simp: gomap_def keys_def)
qed simp

lemma bc_step_not_close:
  assumes "bc_inv b" "bc_step b e b'" "e \<noteq> EClose"
  shows "bclosed b' = bclosed b"
  using assms(2)
proof cases
  case (step_subscribe r ch)
  show ?thesis
    by (rule Subscribe_ok [OF assms(1), of r]) (use step_subscribe in simp)
next
  case (step_unsubscribe ch)
  then show ?thesis
    by (auto simp: unsubscribe_def with_chan_def split: if_splits option.splits)
next
  case (step_publish f)
  show ?thesis
    by (rule Publish_ok [OF assms(1), of f]) (use step_publish in simp)
next
  case (step_recv ch r)
  then show ?thesis
    by (auto elim: recv.cases)
qed (use assms in simp)

lemma Add_inv [inv_intros]:
  assumes "reg_inv r" "pipe_closes r pipe = 0" "\<forall>(i', e) \<in> set (sessions r). pipe_addr e \<noteq> pipe"
  shows "reg_inv (fst (Add i pipe r))"
  using assms bc_inv_New
  by (auto simp: reg_inv_def Add_def Let_def set_put inj_on_def NewBroadcaster_def intro!: gomap_put)

lemma Remove_ok:
  assumes "reg_inv r"
  obtains r' where "Remove i r = Some r'" "reg_inv r'" "sessions r' = del (sessions r) i"
    "\<forall>e. map_of (sessions r) i = Some e \<longrightarrow> bclosed (bstore r' (bc_addr e))"
proof (cases "map_of (sessions r) i")
  case None
  moreover have "del (sessions r) i = sessions r"
    using None by (auto simp: del_def map_of_eq_None_iff intro!: filter_True)
  ultimately show thesis
    using assms by (intro that [of r]) (auto simp: Remove_def)
next
  case (Some entry)
  have "bc_inv (bstore r (bc_addr entry))"
    using assms by (simp add: reg_inv_def)
  then obtain b where b: "Close (bstore r (bc_addr entry)) = Some b" "bc_inv b" "bclosed b"
    by (rule Close_ok)
  let ?r = "r\<lparr>sessions := del (sessions r) i, bstore := (bstore r)(bc_addr entry := b)\<rparr>"
  have "(i, entry) \<in> set (sessions r)"
    using Some by (rule map_of_SomeD)
  then have "\<forall>(i', e) \<in> set (sessions r). i' \<noteq> i \<longrightarrow> bc_addr e \<noteq> bc_addr entry"
    using assms by (auto simp: reg_inv_def inj_on_def)
  then have "reg_inv ?r"
    using assms b by (auto simp: reg_inv_def set_del inj_on_def intro!: gomap_del)
  moreover have "Remove i r = Some ?r"
    using Some b by (simp add: Remove_def Let_def)
  ultimately show thesis
    using b Some by (intro that [of ?r]) auto
qed

lemma Kill_inv [inv_intros]:
  assumes "reg_inv r"
  shows "reg_inv (fst (Kill i r))"
proof (cases "map_of (sessions r) i")
  case (Some entry)
  then have m: "(i, entry) \<in> set (sessions r)"
    by (rule map_of_SomeD)
  then have "\<forall>(i', e) \<in> set (sessions r). i' \<noteq> i \<longrightarrow> pipe_addr e \<noteq> pipe_addr entry"
    using assms by (auto simp: reg_inv_def inj_on_def)
  with m assms Some show ?thesis
    by (auto simp: reg_inv_def Kill_def set_put inj_on_def intro!: gomap_put)
qed (use assms in \<open>simp add: Kill_def\<close>)

lemma reg_step_inv:
  assumes "reg_inv r" "reg_step r r'"
  shows "reg_inv r'"
  using assms(2)
proof cases
  case (reg_add pipe i b)
  with Add_inv [OF assms(1) reg_add(1,2), of i] show ?thesis
    by simp
next
  case (reg_remove i)
  show ?thesis
    by (rule Remove_ok [OF assms(1), of i]) (use reg_remove in simp)
next
  case (reg_kill i k)
  with Kill_inv [OF assms(1), of i] show ?thesis
    by simp
next
  case (reg_bc b e bc')
  have "bc_inv (bstore r b)"
    using assms(1) by (simp add: reg_inv_def)
  then have "bc_inv bc'" "bclosed bc' = bclosed (bstore r b)"
    using reg_bc bc_step_inv bc_step_not_close by blast+
  with reg_bc assms(1) show ?thesis
    by (auto simp: reg_inv_def)
qed

lemma reg_inv_New: "reg_inv NewRegistry"
  using bc_inv_New by (simp add: reg_inv_def NewRegistry_def)

interpretation reg: step_invariant "\<lambda>r. r = NewRegistry" reg_step reg_inv
  by unfold_locales (auto intro: reg_inv_New reg_step_inv)

section \<open>Properties\<close>

text \<open>
  C30: killing is idempotent and reports the truth.  In every reachable state a pipe has been closed at
  most once by the registry, however many kills were issued; a kill reports success exactly for a
  registered session, and after it that session's pipe has been closed exactly once.
\<close>

theorem kill_closes_once:
  assumes "reg_step\<^sup>*\<^sup>* NewRegistry r"
  shows "pipe_closes r p \<le> 1
    \<and> (snd (Kill i r) \<longleftrightarrow> Get i r \<noteq> None)
    \<and> (\<forall>e. map_of (sessions r) i = Some e \<longrightarrow> pipe_closes (fst (Kill i r)) (pipe_addr e) = 1)
    \<and> (\<forall>q. pipe_closes (fst (Kill i (fst (Kill i r)))) q = pipe_closes (fst (Kill i r)) q)"
proof -
  have inv: "reg_inv r"
    using refl assms by (rule reg.reachable_inv)
  show ?thesis
  proof (cases "map_of (sessions r) i")
    case (Some e)
    then have "(i, e) \<in> set (sessions r)"
      by (rule map_of_SomeD)
    then have "pipe_closes r (pipe_addr e) = (if closedOnce e then 1 else 0)"
      using inv by (auto simp: reg_inv_def)
    with Some inv show ?thesis
      by (auto simp: reg_inv_def Kill_def Get_def)
  qed (use inv in \<open>auto simp: reg_inv_def Kill_def Get_def\<close>)
qed

text \<open>
  Removing a session ends its viewers and no others.  In every reachable state \<^verbatim>\<open>Remove\<close> does not
  panic; afterwards the session is unknown to every operation, its broadcaster and all the channels it handed out are closed,
  and every other session keeps its entry and an open broadcaster.
\<close>

theorem remove_ends_viewers:
  assumes "reg_step\<^sup>*\<^sup>* NewRegistry r" "map_of (sessions r) i = Some e"
  shows "\<exists>r'. Remove i r = Some r' \<and> Get i r' = None \<and> \<not> snd (Kill i r')
    \<and> bclosed (bstore r' (bc_addr e))
    \<and> (\<forall>ch < next_chan (bstore r' (bc_addr e)). closed_chan (chans (bstore r' (bc_addr e)) ch))
    \<and> (\<forall>j. j \<noteq> i \<longrightarrow> map_of (sessions r') j = map_of (sessions r) j)
    \<and> (\<forall>j e'. map_of (sessions r') j = Some e' \<longrightarrow> \<not> bclosed (bstore r' (bc_addr e')))"
proof -
  have inv: "reg_inv r"
    using refl assms(1) by (rule reg.reachable_inv)
  then obtain r' where r': "Remove i r = Some r'" "reg_inv r'" "sessions r' = del (sessions r) i"
    "\<forall>e. map_of (sessions r) i = Some e \<longrightarrow> bclosed (bstore r' (bc_addr e))"
    by (rule Remove_ok)
  then have "bc_inv (bstore r' (bc_addr e))" and closed: "bclosed (bstore r' (bc_addr e))"
    using assms(2) by (auto simp: reg_inv_def)
  then have "\<forall>ch < next_chan (bstore r' (bc_addr e)). closed_chan (chans (bstore r' (bc_addr e)) ch)"
    by (simp add: bc_inv_def)
  moreover have "\<forall>j e'. map_of (sessions r') j = Some e' \<longrightarrow> \<not> bclosed (bstore r' (bc_addr e'))"
    using r'(2) by (auto simp: reg_inv_def dest!: map_of_SomeD)
  ultimately show ?thesis
    using r' closed by (auto simp: Get_def Kill_def)
qed

lemma mset_map_info:
  "gomap (sessions r) \<Longrightarrow> gomap (sessions r') \<Longrightarrow> map_of (sessions r) = map_of (sessions r') \<Longrightarrow>
     mset (sessions r) = mset (sessions r')"
  by (metis gomap_def keys_def distinct_map gomap_mem prod.exhaust set_eq_iff_mset_eq_distinct subsetI subset_antisym)

text \<open>
  The session list is complete, ordered and independent of the map's iteration order.  In every reachable state the list holds
  each registered session once, oldest first and by id among equals, and any other iteration order of the same map gives the same list.
\<close>

theorem list_sorted_complete:
  assumes "reg_step\<^sup>*\<^sup>* NewRegistry r" "gomap m" "map_of m = map_of (sessions r)"
  shows "sorted (map (\<lambda>s. (StartedAt s, ID s)) (List_sessions r))
    \<and> mset (List_sessions r) = mset (map (\<lambda>(i, e). info e) (sessions r))
    \<and> distinct (map ID (List_sessions r))
    \<and> (\<forall>i. (\<exists>s \<in> set (List_sessions r). ID s = i) \<longleftrightarrow> Get i r \<noteq> None)
    \<and> List_sessions (r\<lparr>sessions := m\<rparr>) = List_sessions r"
proof -
  let ?key = "\<lambda>s. (StartedAt s, ID s)" and ?xs = "map (\<lambda>(i, e). info e) (sessions r)"
  have inv: "reg_inv r"
    using refl assms(1) by (rule reg.reachable_inv)
  have ids: "map ID ?xs = keys (sessions r)"
    using inv by (auto simp: reg_inv_def keys_def)
  then have dist: "distinct (map ID ?xs)"
    using inv by (simp add: reg_inv_def gomap_def)
  have ms: "mset (map (\<lambda>(i, e). info e) m) = mset ?xs"
    using mset_map_info [of "r\<lparr>sessions := m\<rparr>" r] assms(2,3) inv by (simp add: reg_inv_def)
  have "inj_on ID (set ?xs)"
    using dist distinct_map [of ID ?xs] by blast
  then have "inj_on ?key (set ?xs)"
    by (auto simp: inj_on_def)
  then have "sort_key ?key ?xs = sort_key ?key (map (\<lambda>(i, e). info e) m)"
    using ms [symmetric] by (intro sort_key_eq_sort_key)
  then have order: "List_sessions (r\<lparr>sessions := m\<rparr>) = List_sessions r"
    by (simp add: List_sessions_def)
  have set: "ID ` set (List_sessions r) = set (keys (sessions r))"
    unfolding ids [symmetric] by (simp add: List_sessions_def image_image)
  have "mset (map ID (List_sessions r)) = mset (map ID ?xs)"
    by (simp only: List_sessions_def mset_map mset_sort)
  then have "distinct (map ID (List_sessions r))"
    using dist mset_eq_imp_distinct_iff by blast
  moreover have "(\<exists>s \<in> set (List_sessions r). ID s = i) \<longleftrightarrow> Get i r \<noteq> None" for i
  proof -
    have "(\<exists>s \<in> set (List_sessions r). ID s = i) \<longleftrightarrow> i \<in> ID ` set (List_sessions r)"
      by auto
    then show ?thesis
      by (simp add: set set_keys_dom Get_def dom_def)
  qed
  ultimately show ?thesis
    using order by (simp add: List_sessions_def)
qed

definition demo_session :: session where
  "demo_session = \<lparr>ID = ''s1'', DownstreamUser = ''bob'', DownstreamAddr = ''10.0.0.1:5'', UpstreamUser = ''root'',
     UpstreamAddr = ''10.0.0.2:22'', StartedAt = 5\<rparr>"

definition demo_registry :: registry where
  "demo_registry = fst (Add demo_session 7 NewRegistry)"

lemma demo_registry_reachable: "reg_step\<^sup>*\<^sup>* NewRegistry demo_registry"
  unfolding demo_registry_def
  by (rule r_into_rtranclp, rule reg_add [of _ 7 demo_session _ "next_bc NewRegistry"])
    (simp_all add: NewRegistry_def Add_def Let_def)

lemma demo_registry_sessions:
  "sessions demo_registry = [(''s1'', \<lparr>info = demo_session, pipe_addr = 7, bc_addr = 0, closedOnce = False\<rparr>)]"
  by (simp add: demo_registry_def Add_def NewRegistry_def demo_session_def)

theorem kill_closes_once_witness:
  "snd (Kill ''s1'' demo_registry) \<and> pipe_closes (fst (Kill ''s1'' demo_registry)) 7 = 1
    \<and> pipe_closes (fst (Kill ''s1'' (fst (Kill ''s1'' demo_registry)))) 7 = 1"
  using kill_closes_once [OF demo_registry_reachable, of 7 "''s1''"]
  by (auto simp: demo_registry_sessions Get_def)

theorem remove_ends_viewers_witness:
  "\<exists>r'. Remove ''s1'' demo_registry = Some r' \<and> Get ''s1'' r' = None \<and> bclosed (bstore r' 0)"
  using remove_ends_viewers [OF demo_registry_reachable, of "''s1''"]
  by (auto simp: demo_registry_sessions)

theorem list_sorted_complete_witness:
  "mset (List_sessions demo_registry) = {#demo_session#}"
  using list_sorted_complete [OF demo_registry_reachable, of "sessions demo_registry"]
  by (simp add: demo_registry_sessions gomap_def keys_def)

end
