(* ===== verification/Stream_Hook.thy ===== *)
theory Stream_Hook
  imports Broadcaster Hook_Chain
begin

text \<open>
  The hook that turns the packets of a session into frames for its viewers
  (\<^verbatim>\<open>cmd/sshpiperd/internal/admin/streamhook.go\<close>).  \<open>now\<close> is the wall clock at the packet.
\<close>

abbreviation msgChannelOpenConfirm :: byte where "msgChannelOpenConfirm \<equiv> 91"
abbreviation msgChannelData :: byte where "msgChannelData \<equiv> 94"
abbreviation msgChannelReq :: byte where "msgChannelReq \<equiv> 98"

record stream_hook =
  hbc :: broadcaster
  channelIDMap :: "u32 \<rightharpoonup> u32"
  channels :: "u32 \<rightharpoonup> int"
  pendingEnv :: strmap
  pendingW :: u32
  pendingH :: u32
  pendingTerm :: string

definition NewStreamHook :: "broadcaster \<Rightarrow> stream_hook" where
  "NewStreamHook bc = \<lparr>hbc = bc, channelIDMap = Map.empty, channels = Map.empty, pendingEnv = Map.empty,
     pendingW = 0, pendingH = 0, pendingTerm = ''''\<rparr>"

definition publish :: "frame \<Rightarrow> bytes \<Rightarrow> stream_hook \<Rightarrow> stream_hook \<times> hook_res" where
  "publish f msg h =
     (case Publish f (hbc h) of
        None \<Rightarrow> (h, HPanic)
      | Some b \<Rightarrow> (h\<lparr>hbc := b\<rparr>, HRet Transform msg None))"

definition pass :: "bytes \<Rightarrow> stream_hook \<Rightarrow> stream_hook \<times> hook_res" where
  "pass msg h = (h, HRet Transform msg None)"

definition Up :: "int \<Rightarrow> stream_hook hook" where
  "Up now h msg =
    (if length msg = 0 then pass msg h
     else
       let hasSubs = HasSubscribers (hbc h)
       in if msg ! 0 = msgChannelData then
            (if \<not> hasSubs then pass msg h
             else if length msg < 9 then pass msg h
             else (case uint32_at msg 1 of
                 None \<Rightarrow> (h, HPanic)
               | Some clientChannelID \<Rightarrow>
                   if channels h clientChannelID = None then pass msg h
                   else publish \<lparr>Kind = ''o'', ChannelID = clientChannelID, Time = now, Width = 0, Height = 0,
                          FEnv = Map.empty, Data = drop 9 msg\<rparr> msg h))
          else if msg ! 0 = msgChannelOpenConfirm then
            (if length msg < 9 then pass msg h
             else (case (uint32_at msg 1, uint32_at msg 5) of
                 (Some clientChannelID, Some serverChannelID) \<Rightarrow>
                   pass msg (h\<lparr>channelIDMap := (channelIDMap h)(serverChannelID \<mapsto> clientChannelID)\<rparr>)
               | _ \<Rightarrow> (h, HPanic)))
          else pass msg h)"

definition readSSHString :: "bytes \<Rightarrow> string \<times> bytes" where
  "readSSHString rd =
     (case read_u32 rd of
        (None, r) \<Rightarrow> ('''', r)
      | (Some l, r) \<Rightarrow>
          if unat l > length r then ('''', r)
          else (case reader_read (unat l) r of
              (None, r') \<Rightarrow> ('''', r')
            | (Some s, r') \<Rightarrow> (str s, r')))"

text \<open>\<^verbatim>\<open>_ = binary.Read(buf, binary.BigEndian, &w)\<close> into a variable that holds 0.\<close>

definition read_u32_0 :: "bytes \<Rightarrow> u32 \<times> bytes" where
  "read_u32_0 rd = (case read_u32 rd of (None, r) \<Rightarrow> (0, r) | (Some w, r) \<Rightarrow> (w, r))"

definition start_channel :: "int \<Rightarrow> u32 \<Rightarrow> bytes \<Rightarrow> stream_hook \<Rightarrow> stream_hook \<times> hook_res" where
  "start_channel now clientChannelID msg h =
     (let env = pendingEnv h;
          env' = (if pendingTerm h \<noteq> '''' then env(''TERM'' \<mapsto> pendingTerm h) else env);
          h' = h\<lparr>pendingEnv := Map.empty, pendingTerm := '''', pendingW := 0, pendingH := 0,
                 channels := (channels h)(clientChannelID \<mapsto> now)\<rparr>
      in publish \<lparr>Kind = ''header'', ChannelID = clientChannelID, Time = now, Width = pendingW h,
           Height = pendingH h, FEnv = env', Data = []\<rparr> msg h')"

definition Down :: "int \<Rightarrow> stream_hook hook" where
  "Down now h msg =
    (if length msg = 0 \<or> msg ! 0 \<noteq> msgChannelReq then pass msg h
     else if length msg < 5 then pass msg h
     else (case uint32_at msg 1 of
         None \<Rightarrow> (h, HPanic)
       | Some serverChannelID \<Rightarrow>
           let (reqType, rd) = readSSHString (drop 5 msg)
           in if reqType = ''pty-req'' then
                let (_, b1) = read_byte rd; (term, b2) = readSSHString b1;
                    (w, b3) = read_u32_0 b2; (hgt, _) = read_u32_0 b3
                in pass msg (h\<lparr>pendingTerm := term, pendingW := w, pendingH := hgt\<rparr>)
              else if reqType = ''env'' then
                let (_, b1) = read_byte rd; (k, b2) = readSSHString b1; (v, _) = readSSHString b2
                in pass msg (h\<lparr>pendingEnv := (pendingEnv h)(k \<mapsto> v)\<rparr>)
              else if reqType = ''window-change'' then
                let (_, b1) = read_byte rd; (w, b2) = read_u32_0 b1; (hgt, _) = read_u32_0 b2
                in (case channelIDMap h serverChannelID of
                      None \<Rightarrow> pass msg h
                    | Some clientChannelID \<Rightarrow>
                        publish \<lparr>Kind = ''r'', ChannelID = clientChannelID, Time = now, Width = w, Height = hgt,
                          FEnv = Map.empty, Data = []\<rparr> msg h)
              else if reqType = ''shell'' \<or> reqType = ''exec'' then
                (case channelIDMap h serverChannelID of
                   None \<Rightarrow> pass msg h
                 | Some clientChannelID \<Rightarrow> start_channel now clientChannelID msg h)
              else pass msg h))"

section \<open>The hook is a tap\<close>

definition sh_inv :: "stream_hook \<Rightarrow> bool" where
  "sh_inv h \<longleftrightarrow> bc_inv (hbc h)"

lemma publish_ok:
  assumes "sh_inv h"
  shows "snd (publish f msg h) = HRet Transform msg None \<and> sh_inv (fst (publish f msg h))"
  using assms unfolding sh_inv_def
  by (rule Publish_ok [of _ f]) (simp add: publish_def)

lemma pass_ok:
  "sh_inv h \<Longrightarrow> snd (pass msg h) = HRet Transform msg None \<and> sh_inv (fst (pass msg h))"
  by (simp add: pass_def)

lemma Up_ok:
  assumes "sh_inv h"
  shows "snd (Up now h msg) = HRet Transform msg None \<and> sh_inv (fst (Up now h msg))"
proof -
  have "sh_inv (h\<lparr>channelIDMap := m\<rparr>)" for m
    using assms by (simp add: sh_inv_def)
  with assms show ?thesis
    by (auto simp: Up_def Let_def publish_ok pass_ok uint32_at_None_iff split: option.splits)
qed

lemma start_channel_ok:
  assumes "sh_inv h"
  shows "snd (start_channel now c msg h) = HRet Transform msg None \<and> sh_inv (fst (start_channel now c msg h))"
  unfolding start_channel_def Let_def by (rule publish_ok) (use assms in \<open>simp add: sh_inv_def\<close>)

lemma Down_ok:
  assumes "sh_inv h"
  shows "snd (Down now h msg) = HRet Transform msg None \<and> sh_inv (fst (Down now h msg))"
proof -
  have upd: "sh_inv (h\<lparr>pendingTerm := t, pendingW := w, pendingH := g\<rparr>)" "sh_inv (h\<lparr>pendingEnv := e\<rparr>)" for t w g e
    using assms by (simp_all add: sh_inv_def)
  show ?thesis
    using assms upd start_channel_ok [OF assms]
    by (auto simp: Down_def Let_def publish_ok pass_ok uint32_at_None_iff split: option.splits prod.splits)
qed

interpretation up_stream: packet_tap sh_inv "Up now" for now
  by unfold_locales (simp_all add: Up_ok)

interpretation down_stream: packet_tap sh_inv "Down now" for now
  by unfold_locales (simp_all add: Down_ok)

section \<open>Frames of a session\<close>

text \<open>The client requests of RFC 4254 (6.2, 6.4, 6.5, 6.7) on channel \<open>ch\<close>.\<close>

definition channel_request :: "u32 \<Rightarrow> string \<Rightarrow> bytes \<Rightarrow> bytes" where
  "channel_request ch t body = msgChannelReq # put_uint32 ch @ put_sshstring (bytes_of t) @ body"

definition pty_req :: "u32 \<Rightarrow> byte \<Rightarrow> string \<Rightarrow> u32 \<Rightarrow> u32 \<Rightarrow> bytes \<Rightarrow> bytes" where
  "pty_req ch want term w hgt rest =
     channel_request ch ''pty-req'' (want # put_sshstring (bytes_of term) @ put_uint32 w @ put_uint32 hgt @ rest)"

definition shell_req :: "u32 \<Rightarrow> byte \<Rightarrow> bytes" where
  "shell_req ch want = channel_request ch ''shell'' [want]"

definition open_confirm :: "u32 \<Rightarrow> u32 \<Rightarrow> bytes \<Rightarrow> bytes" where
  "open_confirm client server rest = msgChannelOpenConfirm # put_uint32 client @ put_uint32 server @ rest"

lemma readSSHString_put [simp]:
  assumes "length s < 2 ^ 32"
  shows "readSSHString (put_sshstring (bytes_of s) @ r) = (s, r)"
proof -
  have "unat (word_of_nat (length s) :: u32) = length s"
    using assms by (simp add: unat_of_nat)
  then show ?thesis
    by (auto simp: readSSHString_def put_sshstring_def reader_read_def)
qed

lemma read_u32_0_put [simp]: "read_u32_0 (put_uint32 w @ r) = (w, r)"
  by (simp add: read_u32_0_def)

lemma read_byte_Cons [simp]: "read_byte (b # r) = (Some b, r)"
  by (simp add: read_byte_def)

lemma channel_request_parts:
  "channel_request ch t body \<noteq> []" "channel_request ch t body ! 0 = msgChannelReq"
  "length (channel_request ch t body) = 9 + length t + length body"
  "uint32_at (channel_request ch t body) (Suc 0) = Some ch"
  "length t < 2 ^ 32 \<Longrightarrow> readSSHString (drop 5 (channel_request ch t body)) = (t, body)"
proof -
  have "drop 5 (channel_request ch t body) = put_sshstring (bytes_of t) @ body"
    by (simp add: channel_request_def put_uint32_def)
  then show "length t < 2 ^ 32 \<Longrightarrow> readSSHString (drop 5 (channel_request ch t body)) = (t, body)"
    by simp
qed (use uint32_at_append_put [of "[msgChannelReq]" 1 ch] in \<open>auto simp: channel_request_def\<close>)

lemma Down_pty_req:
  "length term < 2 ^ 32 \<Longrightarrow>
     Down now h (pty_req ch want term w hgt rest) =
       pass (pty_req ch want term w hgt rest) (h\<lparr>pendingTerm := term, pendingW := w, pendingH := hgt\<rparr>)"
  by (simp add: Down_def pty_req_def channel_request_parts Let_def)

lemma Down_shell_req:
  "channelIDMap h ch = Some c \<Longrightarrow> Down now h (shell_req ch want) = start_channel now c (shell_req ch want) h"
  by (simp add: Down_def shell_req_def channel_request_parts Let_def)

lemma Up_open_confirm:
  "Up now h (open_confirm c s rest) =
     pass (open_confirm c s rest) (h\<lparr>channelIDMap := (channelIDMap h)(s \<mapsto> c)\<rparr>)"
proof -
  have "uint32_at (open_confirm c s rest) 1 = Some c" "uint32_at (open_confirm c s rest) 5 = Some s"
    using uint32_at_append_put [of "[msgChannelOpenConfirm]" 1 c]
      uint32_at_append_put [of "msgChannelOpenConfirm # put_uint32 c" 5 s rest]
    by (auto simp: open_confirm_def)
  then show ?thesis
    by (simp add: Up_def open_confirm_def)
qed

text \<open>
  Viewers get the terminal the client asked for.  After the upstream confirms a channel and the client
  sends a terminal request and a shell request for it, the header frame in the history of the
  broadcaster carries the client-side channel number, exactly the width and height of the request, and its terminal type
  (if not empty) as \<^verbatim>\<open>TERM\<close>; the packets themselves are passed on unchanged.
\<close>

theorem header_has_requested_geometry:
  assumes "sh_inv h" "\<not> bclosed (hbc h)" "length term < 2 ^ 32"
    and "h1 = fst (Up t1 h (open_confirm client server rest1))"
    and "h2 = fst (Down t2 h1 (pty_req server want term w hgt rest2))"
    and "Down t3 h2 (shell_req server want2) = (h3, r)"
  shows "r = HRet Transform (shell_req server want2) None
    \<and> (\<exists>f \<in> set (history (hbc h3)). Kind f = ''header'' \<and> ChannelID f = client
        \<and> Width f = w \<and> Height f = hgt \<and> (term \<noteq> '''' \<longrightarrow> FEnv f ''TERM'' = Some term))
    \<and> channels h3 client = Some t3"
proof -
  have h2: "h2 = h\<lparr>channelIDMap := (channelIDMap h)(server \<mapsto> client), pendingTerm := term, pendingW := w, pendingH := hgt\<rparr>"
    using assms(3,4,5) by (simp add: Up_open_confirm Down_pty_req pass_def)
  then have eq: "(h3, r) = start_channel t3 client (shell_req server want2) h2"
    using assms(6) by (simp add: Down_shell_req)
  define f where "f = \<lparr>Kind = ''header'', ChannelID = client, Time = t3, Width = w, Height = hgt,
    FEnv = (if term \<noteq> '''' then (pendingEnv h)(''TERM'' \<mapsto> term) else pendingEnv h), Data = []\<rparr>"
  have "bc_inv (hbc h)"
    using assms(1) by (simp add: sh_inv_def)
  then obtain b where b: "Publish f (hbc h) = Some b" "history b = remember f (history (hbc h))"
    by (rule Publish_ok [of _ f]) (use assms(2) in \<open>simp add: f_def\<close>)
  then have "h3 = h2\<lparr>pendingEnv := Map.empty, pendingTerm := '''', pendingW := 0, pendingH := 0,
      channels := (channels h2)(client \<mapsto> t3), hbc := b\<rparr>" "r = HRet Transform (shell_req server want2) None"
    using eq by (auto simp: h2 start_channel_def publish_def Let_def f_def cong: if_cong)
  moreover have "f \<in> set (history b)"
    using b by (simp add: remember_def)
  ultimately show ?thesis
    by (auto simp: f_def intro!: bexI [of _ f])
qed

theorem header_has_requested_geometry_witness:
  "\<exists>h1 h2 h3 f. h1 = fst (Up 1 (NewStreamHook NewBroadcaster) (open_confirm 0 5 []))
     \<and> h2 = fst (Down 2 h1 (pty_req 5 1 ''xterm'' 80 24 []))
     \<and> h3 = fst (Down 3 h2 (shell_req 5 1))
     \<and> f \<in> set (history (hbc h3)) \<and> Width f = 80 \<and> Height f = 24 \<and> FEnv f ''TERM'' = Some ''xterm''"
proof -
  let ?h1 = "fst (Up 1 (NewStreamHook NewBroadcaster) (open_confirm 0 5 []))"
  let ?h2 = "fst (Down 2 ?h1 (pty_req 5 1 ''xterm'' 80 24 []))"
  obtain h3 r where d: "Down 3 ?h2 (shell_req 5 1) = (h3, r)"
    by (rule prod.exhaust)
  have "sh_inv (NewStreamHook NewBroadcaster)"
    by (simp add: sh_inv_def NewStreamHook_def bc_inv_New)
  moreover have "\<not> bclosed (hbc (NewStreamHook NewBroadcaster))"
    by (simp add: NewStreamHook_def NewBroadcaster_def)
  ultimately obtain f where "f \<in> set (history (hbc h3))" "Width f = 80" "Height f = 24" "FEnv f ''TERM'' = Some ''xterm''"
    using header_has_requested_geometry [OF _ _ _ refl refl d] by auto
  then show ?thesis
    by (intro exI [of _ ?h1] exI [of _ ?h2] exI [of _ h3] exI [of _ f]) (simp add: d)
qed

end
