(* ===== verification/Go_Path.thy ===== *)
theory Go_Path
  imports Go_Strings
begin

text \<open>
  The lexical path functions of \<^verbatim>\<open>path/filepath\<close> on Unix that the program uses: \<^verbatim>\<open>Clean\<close>, \<^verbatim>\<open>Join\<close> and
  \<^verbatim>\<open>Rel\<close>, by way of the components of a path.  \<open>Dot\<close> and \<open>DotDot\<close> name the special components.
\<close>

abbreviation slash :: char where "slash \<equiv> CHR ''/''"
abbreviation Dot :: string where "Dot \<equiv> ''.''"
abbreviation DotDot :: string where "DotDot \<equiv> ''..''"

section \<open>Clean and Join\<close>

text \<open>One component of the path on the stack \<open>acc\<close> of components kept so far (last one first).\<close>

fun clean_step :: "bool \<Rightarrow> string \<Rightarrow> string list \<Rightarrow> string list" where
  "clean_step rooted c acc =
     (if c = '''' \<or> c = Dot then acc
      else if c = DotDot then
        (case acc of
           [] \<Rightarrow> if rooted then [] else [DotDot]
         | t # r \<Rightarrow> if t = DotDot then DotDot # acc else r)
      else c # acc)"

definition is_rooted :: "string \<Rightarrow> bool" where
  "is_rooted p \<longleftrightarrow> p \<noteq> [] \<and> hd p = slash"

definition comps :: "string \<Rightarrow> string list" where
  "comps p = rev (fold (clean_step (is_rooted p)) (split_on slash p) [])"

definition render :: "bool \<Rightarrow> string list \<Rightarrow> string" where
  "render rooted cs =
     (if rooted then slash # join [slash] cs else if cs = [] then Dot else join [slash] cs)"

definition path_clean :: "string \<Rightarrow> string" where
  "path_clean p = render (is_rooted p) (comps p)"

fun path_join :: "string list \<Rightarrow> string" where
  "path_join [] = ''''"
| "path_join (e # es) = (if e \<noteq> '''' then path_clean (join [slash] (e # es)) else path_join es)"

section \<open>Rel\<close>

text \<open>
  \<^verbatim>\<open>Rel\<close> on the cleaned paths: an equal path gives \<open>Dot\<close>; a rooted and an unrooted path are incomparable;
  otherwise the common leading components go, one \<open>DotDot\<close> stands for each component left of the
  base, and a base component \<open>DotDot\<close> that would have to be undone is an error.
\<close>

fun strip_common :: "string list \<Rightarrow> string list \<Rightarrow> string list \<times> string list" where
  "strip_common (b # bs) (t # ts) = (if b = t then strip_common bs ts else (b # bs, t # ts))"
| "strip_common bs ts = (bs, ts)"

definition path_rel :: "string \<Rightarrow> string \<Rightarrow> string res" where
  "path_rel basepath targpath =
     (let err = Inl (Errorf (''Rel: can't make '' @ targpath @ '' relative to '' @ basepath) [])
      in if path_clean targpath = path_clean basepath then Inr Dot
         else if is_rooted basepath \<noteq> is_rooted targpath then err
         else (case strip_common (comps basepath) (comps targpath) of
             (bs, ts) \<Rightarrow>
               if bs \<noteq> [] \<and> ts \<noteq> [] \<and> hd bs = DotDot then err
               else Inr (join [slash] (map (\<lambda>_. DotDot) bs @ ts))))"

section \<open>Clean components\<close>

text \<open>Components as \<^verbatim>\<open>Clean\<close> leaves them: proper names, with \<open>DotDot\<close> only at the front of an unrooted path.\<close>

definition name_ok :: "string \<Rightarrow> bool" where
  "name_ok c \<longleftrightarrow> c \<noteq> '''' \<and> c \<noteq> Dot \<and> c \<noteq> DotDot \<and> slash \<notin> set c"

definition clean_comps :: "bool \<Rightarrow> string list \<Rightarrow> bool" where
  "clean_comps rooted cs \<longleftrightarrow>
     (\<exists>n ns. cs = replicate n DotDot @ ns \<and> (\<forall>c \<in> set ns. name_ok c) \<and> (rooted \<longrightarrow> n = 0))"

declare clean_step.simps [simp del]

lemma clean_step_clean:
  assumes "clean_comps rooted (rev acc)" "slash \<notin> set c"
  shows "clean_comps rooted (rev (clean_step rooted c acc))"
proof -
  obtain n ns where cs: "rev acc = replicate n DotDot @ ns" "\<forall>x \<in> set ns. name_ok x" "rooted \<longrightarrow> n = 0"
    using assms(1) by (auto simp: clean_comps_def)
  then have acc: "acc = rev ns @ replicate n DotDot"
    by (metis rev_append rev_replicate rev_rev_ident)
  consider "c = '''' \<or> c = Dot" | "c = DotDot" | "name_ok c"
    using assms(2) by (auto simp: name_ok_def)
  then show ?thesis
  proof cases
    case 1
    then show ?thesis using assms(1) by (auto simp: clean_step.simps)
  next
    case 2
    show ?thesis
    proof (cases ns rule: rev_cases)
      case Nil
      show ?thesis
      proof (cases n)
        case 0
        with 2 Nil acc show ?thesis
          by (auto simp: clean_comps_def clean_step.simps intro: exI [of _ "Suc 0"])
      next
        case (Suc k)
        then have "clean_step rooted c acc = replicate (Suc n) DotDot"
          using 2 Nil acc by (simp add: clean_step.simps)
        moreover have "clean_comps rooted (rev (replicate (Suc n) DotDot))"
          unfolding clean_comps_def using cs(3) Suc by (intro exI [of _ "Suc n"] exI [of _ "[]"]) (auto simp del: replicate_Suc)
        ultimately show ?thesis
          by simp
      qed
    next
      case (snoc ms m)
      then have "clean_step rooted c acc = rev ms @ replicate n DotDot"
        using 2 acc cs(2) by (auto simp: name_ok_def clean_step.simps)
      then show ?thesis
        using cs snoc by (auto simp: clean_comps_def)
    qed
  next
    case 3
    then have "rev (clean_step rooted c acc) = replicate n DotDot @ (ns @ [c])"
      using acc by (simp add: name_ok_def clean_step.simps)
    then show ?thesis
      unfolding clean_comps_def using 3 cs by (intro exI [of _ n] exI [of _ "ns @ [c]"]) auto
  qed
qed

lemma fold_clean_step_clean:
  "clean_comps rooted (rev acc) \<Longrightarrow> \<forall>c \<in> set cs. slash \<notin> set c \<Longrightarrow>
     clean_comps rooted (rev (fold (clean_step rooted) cs acc))"
proof (induction cs arbitrary: acc)
  case (Cons c cs)
  have "clean_comps rooted (rev (clean_step rooted c acc))"
    using Cons.prems by (intro clean_step_clean) auto
  with Cons show ?case
    by simp
qed simp

lemma comps_clean: "clean_comps (is_rooted p) (comps p)"
  unfolding comps_def
  by (rule fold_clean_step_clean) (auto simp: clean_comps_def dest: split_on_no_sep)

lemma fold_clean_step_names:
  "\<forall>c \<in> set ns. name_ok c \<Longrightarrow> fold (clean_step rooted) ns acc = rev ns @ acc"
  by (induction ns arbitrary: acc) (auto simp: name_ok_def clean_step.simps)

lemma fold_clean_step_dots:
  "fold (clean_step False) (replicate n DotDot) (replicate m DotDot) = replicate (n + m) DotDot"
proof (induction n arbitrary: m)
  case (Suc n)
  have "clean_step False DotDot (replicate m DotDot) = replicate (Suc m) DotDot"
    by (cases m) (auto simp: clean_step.simps)
  with Suc [of "Suc m"] show ?case
    by simp
qed simp

lemma fold_clean_step_id:
  assumes "clean_comps rooted cs"
  shows "fold (clean_step rooted) cs [] = rev cs"
proof -
  obtain n ns where cs: "cs = replicate n DotDot @ ns" "\<forall>x \<in> set ns. name_ok x" "rooted \<longrightarrow> n = 0"
    using assms by (auto simp: clean_comps_def)
  have "fold (clean_step rooted) (replicate n DotDot) [] = replicate n DotDot"
  proof (cases rooted)
    case True
    with cs(3) show ?thesis by simp
  next
    case False
    with fold_clean_step_dots [of n 0] show ?thesis
      by simp
  qed
  then show ?thesis
    using cs(1) fold_clean_step_names [OF cs(2)] by simp
qed

lemma clean_comps_mem: "clean_comps rooted cs \<Longrightarrow> c \<in> set cs \<Longrightarrow> c = DotDot \<or> name_ok c"
  by (fastforce simp: clean_comps_def)

lemma clean_comps_no_slash:
  assumes "clean_comps rooted cs" "c \<in> set cs"
  shows "slash \<notin> set c" "c \<noteq> ''''" "c \<noteq> Dot"
  using clean_comps_mem [OF assms] by (auto simp: name_ok_def)

lemma clean_comps_suffix_names:
  assumes "clean_comps rooted (bs @ ts)" "ts \<noteq> []" "hd ts \<noteq> DotDot"
  shows "\<forall>c \<in> set ts. name_ok c"
proof -
  obtain n ns where cs: "bs @ ts = replicate n DotDot @ ns" "\<forall>x \<in> set ns. name_ok x"
    using assms(1) by (auto simp: clean_comps_def)
  have "n \<le> length bs"
  proof (rule ccontr)
    assume "\<not> n \<le> length bs"
    then have "(bs @ ts) ! length bs = DotDot"
      unfolding cs(1) by (simp add: nth_append)
    with assms(2,3) show False
      by (simp add: hd_conv_nth nth_append)
  qed
  then have "ts = drop (length bs - n) ns"
    using arg_cong [OF cs(1), of "drop (length bs)"] by simp
  with cs(2) show ?thesis
    by (meson in_set_dropD)
qed

section \<open>Cleaning twice, and joining\<close>

lemma join_Cons: "cs \<noteq> [] \<Longrightarrow> join sep (c # cs) = c @ sep @ join sep cs"
  by (cases cs) auto

lemma join_not_rooted:
  "clean_comps False cs \<Longrightarrow> cs \<noteq> [] \<Longrightarrow> join [slash] cs \<noteq> [] \<and> hd (join [slash] cs) \<noteq> slash"
proof (cases cs)
  case (Cons c cs')
  assume "clean_comps False cs"
  then have "slash \<notin> set c" "c \<noteq> ''''"
    using clean_comps_no_slash Cons by auto
  then show ?thesis
    using Cons by (cases cs'; cases c) auto
qed simp

lemma is_rooted_render: "clean_comps rooted cs \<Longrightarrow> is_rooted (render rooted cs) = rooted"
  using join_not_rooted by (auto simp: is_rooted_def render_def)

lemma split_on_render:
  assumes "clean_comps rooted cs"
  shows "split_on slash (render rooted cs) =
    (if rooted then '''' # (if cs = [] then [''''] else cs) else if cs = [] then [Dot] else cs)"
proof -
  have "\<forall>c \<in> set cs. slash \<notin> set c"
    using clean_comps_no_slash(1) [OF assms] by blast
  then have "cs \<noteq> [] \<Longrightarrow> split_on slash (join [slash] cs) = cs"
    by (intro split_on_join)
  then show ?thesis
    by (auto simp: render_def)
qed

lemma comps_render:
  assumes "clean_comps rooted cs"
  shows "comps (render rooted cs) = cs"
proof -
  have "clean_step r '''' acc = acc" "clean_step r Dot acc = acc" for r acc
    by (simp_all add: clean_step.simps)
  then show ?thesis
    unfolding comps_def is_rooted_render [OF assms] split_on_render [OF assms]
    using fold_clean_step_id [OF assms] by auto
qed

lemma comps_path_clean [simp]: "comps (path_clean p) = comps p"
  unfolding path_clean_def using comps_clean by (rule comps_render)

lemma is_rooted_path_clean [simp]: "is_rooted (path_clean p) = is_rooted p"
  unfolding path_clean_def using comps_clean by (rule is_rooted_render)

text \<open>\<^verbatim>\<open>Clean\<close> is idempotent, and a cleaned path is determined by its components.\<close>

lemma path_clean_idem [simp]: "path_clean (path_clean p) = path_clean p"
  unfolding path_clean_def [of "path_clean p"] comps_path_clean is_rooted_path_clean
  by (rule path_clean_def [symmetric])

lemma path_clean_eq_iff: "path_clean p = path_clean q \<longleftrightarrow> is_rooted p = is_rooted q \<and> comps p = comps q"
proof
  assume "path_clean p = path_clean q"
  then have "is_rooted (path_clean p) = is_rooted (path_clean q)" "comps (path_clean p) = comps (path_clean q)"
    by auto
  then show "is_rooted p = is_rooted q \<and> comps p = comps q"
    by simp
qed (simp add: path_clean_def)

lemma split_on_append: "split_on c (xs @ c # ys) = split_on c xs @ split_on c ys"
proof (induction xs)
  case (Cons x xs)
  then show ?case
    by (cases "split_on c xs") auto
qed simp

lemma path_join2:
  assumes "base \<noteq> ''''"
  shows "path_join [base, u] = path_clean (base @ slash # u)"
  using assms by simp

lemma comps_append:
  assumes "base \<noteq> ''''"
  shows "is_rooted (base @ slash # u) = is_rooted base"
    "comps (base @ slash # u) = rev (fold (clean_step (is_rooted base)) (split_on slash u) (rev (comps base)))"
proof -
  show r: "is_rooted (base @ slash # u) = is_rooted base"
    using assms by (cases base) (auto simp: is_rooted_def)
  show "comps (base @ slash # u) = rev (fold (clean_step (is_rooted base)) (split_on slash u) (rev (comps base)))"
    by (simp add: comps_def r split_on_append)
qed

section \<open>Rel\<close>

lemma strip_common_spec:
  "strip_common bs ts = (bs', ts') \<Longrightarrow>
     \<exists>cs. bs = cs @ bs' \<and> ts = cs @ ts' \<and> (bs' = [] \<or> ts' = [] \<or> hd bs' \<noteq> hd ts')"
proof (induction bs ts rule: strip_common.induct)
  case (1 b bs t ts)
  show ?case
  proof (cases "b = t")
    case True
    with 1 obtain cs where "bs = cs @ bs'" "ts = cs @ ts'" "bs' = [] \<or> ts' = [] \<or> hd bs' \<noteq> hd ts'"
      by auto
    with True show ?thesis
      by (intro exI [of _ "t # cs"]) auto
  qed (use 1 in auto)
qed auto

lemma strip_common_append: "strip_common bs (bs @ ts) = ([], ts)"
  by (induction bs) (auto simp: strip_common.simps)

end
