(* ===== verification/Recording.thy ===== *)
theory Recording
  imports Plugin_Api Go_Path
begin

text \<open>
  Screen recording: the per-user directory (\<^verbatim>\<open>safeJoinUserRecordDir\<close> in \<^verbatim>\<open>cmd/sshpiperd/daemon.go\<close>), the
  asciicast recorder (\<^verbatim>\<open>asciicast.go\<close>) and the typescript recorder (\<^verbatim>\<open>typescript.go\<close>).

  Files are lists of records by path under the recording root; the textual form of a record
  (JSON, \<^verbatim>\<open>script\<close> timing) is not modelled.  \<open>open_err\<close> and \<open>write_err\<close> are the errors of opening a path and of
  writing a record, if any.  Times are nanoseconds.
\<close>

section \<open>The per-user directory\<close>

definition safeJoinUserRecordDir :: "string \<Rightarrow> string \<Rightarrow> string res" where
  "safeJoinUserRecordDir base user =
     (let dir = path_join [base, user];
          esc = Inl (Errorf ''resulting recording dir %q escapes recording root %q'' [dir, base])
      in case path_rel base dir of
           Inl e \<Rightarrow> esc
         | Inr rel \<Rightarrow> if rel = DotDot \<or> has_prefix rel (DotDot @ ''/'') then esc else Inr rel)"

lemma comps_path_join2:
  "base \<noteq> '''' \<Longrightarrow> comps (path_join [base, u]) =
     rev (fold (clean_step (is_rooted base)) (split_on slash u) (rev (comps base)))"
  "base \<noteq> '''' \<Longrightarrow> is_rooted (path_join [base, u]) = is_rooted base"
  by (simp_all add: comps_append)

lemma has_prefix_dotdot_join:
  assumes "cs \<noteq> []"
  shows "join [slash] (DotDot # cs) = DotDot \<or> has_prefix (join [slash] (DotDot # cs)) (DotDot @ ''/'')"
  using assms by (simp add: join_Cons has_prefix_def)

lemma dotdot_join_rejected:
  "join [slash] (DotDot # cs) = DotDot \<or> has_prefix (join [slash] (DotDot # cs)) (DotDot @ ''/'')"
  using has_prefix_dotdot_join [of cs] by (cases "cs = []") simp_all

text \<open>
  C37: a user name cannot move its recordings out of the recording root.  Whenever the join is accepted, for any
  user name whatever, the directory is the root itself or lies below it: its cleaned
  components are those of the root followed by proper names (none empty, \<^verbatim>\<open>.\<close>, \<^verbatim>\<open>..\<close> or with a slash), and
  the returned name is made of exactly those.
\<close>

theorem record_dir_stays_below:
  assumes "base \<noteq> ''''" "safeJoinUserRecordDir base user = Inr rel"
  shows "rel = Dot \<and> path_join [base, user] = path_clean base
    \<or> (\<exists>names. names \<noteq> [] \<and> (\<forall>c \<in> set names. name_ok c) \<and> rel = join [slash] names
        \<and> comps (path_join [base, user]) = comps base @ names
        \<and> is_rooted (path_join [base, user]) = is_rooted base)"
proof -
  let ?dir = "path_join [base, user]"
  have clean: "path_clean ?dir = ?dir"
    using assms(1) by simp
  have rel: "path_rel base ?dir = Inr rel" and ok: "\<not> (rel = DotDot \<or> has_prefix rel (DotDot @ ''/''))"
    using assms(2) by (auto simp: safeJoinUserRecordDir_def Let_def split: sum.splits if_splits)
  show ?thesis
  proof (cases "path_clean ?dir = path_clean base")
    case True
    then have "rel = Dot"
      using rel by (simp add: path_rel_def Let_def)
    with True clean show ?thesis
      by simp
  next
    case False
    then have root: "is_rooted base = is_rooted ?dir"
      using rel by (auto simp: path_rel_def Let_def split: if_splits)
    obtain bs ts where strip: "strip_common (comps base) (comps ?dir) = (bs, ts)"
      by fastforce
    have r: "rel = join [slash] (map (\<lambda>_. DotDot) bs @ ts)"
      using rel False root strip by (auto simp: path_rel_def Let_def split: if_splits)
    have bs: "bs = []"
    proof (rule ccontr)
      assume "bs \<noteq> []"
      then obtain b bs' where "bs = b # bs'"
        by (cases bs) auto
      then show False
        using r ok dotdot_join_rejected [of "map (\<lambda>_. DotDot) bs' @ ts"] by simp
    qed
    then have dir: "comps ?dir = comps base @ ts"
      using strip_common_spec [OF strip] by auto
    have "ts \<noteq> []"
      using False dir root path_clean_eq_iff by fastforce
    moreover have "hd ts \<noteq> DotDot"
    proof
      assume "hd ts = DotDot"
      then have "ts = DotDot # tl ts"
        using \<open>ts \<noteq> []\<close> by (cases ts) auto
      then show False
        using r bs ok dotdot_join_rejected [of "tl ts"] by simp
    qed
    ultimately have "\<forall>c \<in> set ts. name_ok c"
      using comps_clean [of ?dir] unfolding dir by (intro clean_comps_suffix_names)
    then show ?thesis
      using \<open>ts \<noteq> []\<close> r bs dir root by auto
  qed
qed

lemma record_dir_plain_user:
  assumes "base \<noteq> ''''" "name_ok user"
  shows "safeJoinUserRecordDir base user = Inr user"
proof -
  let ?dir = "path_join [base, user]"
  have "slash \<notin> set user"
    using assms(2) by (simp add: name_ok_def)
  then have "comps ?dir = comps base @ [user]"
    using comps_path_join2(1) [OF assms(1)] fold_clean_step_names [of "[user]"] assms(2)
    by (simp add: split_on_single del: path_join.simps)
  moreover have root: "is_rooted ?dir = is_rooted base"
    using assms(1) by (rule comps_path_join2)
  ultimately have "path_rel base ?dir = Inr user"
    using path_clean_eq_iff [of ?dir base] strip_common_append [of "comps base" "[user]"]
    by (simp add: path_rel_def Let_def del: path_join.simps)
  moreover have "\<not> has_prefix user (DotDot @ ''/'')"
  proof
    assume "has_prefix user (DotDot @ ''/'')"
    then have "user = DotDot @ ''/'' @ drop 3 user"
      unfolding has_prefix_def by (metis append.assoc append_take_drop_id length_append list.size(3,4)
          numeral_3_eq_3 plus_nat.simps)
    then have "slash \<in> set user"
      by (metis UnCI list.set_intros(1) set_append)
    with assms(2) show False
      by (simp add: name_ok_def)
  qed
  ultimately show ?thesis
    using assms(2) by (simp add: safeJoinUserRecordDir_def Let_def name_ok_def del: path_join.simps)
qed

theorem record_dir_stays_below_witness:
  "safeJoinUserRecordDir ''/var/rec'' ''alice'' = Inr ''alice''
    \<and> is_err (safeJoinUserRecordDir ''/var/rec'' ''../../etc'')
    \<and> (\<exists>names. names \<noteq> [] \<and> (\<forall>c \<in> set names. name_ok c) \<and> ''alice'' = join [slash] names
        \<and> comps (path_join [''/var/rec'', ''alice'']) = comps ''/var/rec'' @ names)"
proof -
  have ok: "safeJoinUserRecordDir ''/var/rec'' ''alice'' = Inr ''alice''"
    by (rule record_dir_plain_user) (simp_all add: name_ok_def)
  moreover have "is_err (safeJoinUserRecordDir ''/var/rec'' ''../../etc'')"
    by code_simp
  ultimately show ?thesis
    using record_dir_stays_below [OF _ ok] by auto
qed

section \<open>The asciicast recorder\<close>

abbreviation recChannelRequest :: byte where "recChannelRequest \<equiv> 98"
abbreviation recChannelOpenConfirm :: byte where "recChannelOpenConfirm \<equiv> 91"
abbreviation recChannelData :: byte where "recChannelData \<equiv> 94"

datatype cast_line =
    CastHeader u32 u32 int strmap
  | CastOutput int bytes
  | CastResize int u32 u32

record asciicastLogger =
  starttime :: int
  envs :: strmap
  initWidth :: u32
  initHeight :: u32
  cast_channels :: "u32 \<rightharpoonup> string"
  cast_idmap :: "u32 \<rightharpoonup> u32"
  recorddir :: string
  prefix :: string
  files :: "string \<rightharpoonup> cast_line list"

definition newAsciicastLogger :: "string \<Rightarrow> string \<Rightarrow> asciicastLogger" where
  "newAsciicastLogger dir pre = \<lparr>starttime = 0, envs = Map.empty, initWidth = 0, initHeight = 0,
     cast_channels = Map.empty, cast_idmap = Map.empty, recorddir = dir, prefix = pre, files = Map.empty\<rparr>"

text \<open>\<^verbatim>\<open>readString\<close>: no bound on the length; a short rest leaves the end of the buffer zero.\<close>

definition readString :: "bytes \<Rightarrow> string \<times> bytes" where
  "readString rd =
     (case read_u32 rd of
        (None, r) \<Rightarrow> ('''', r)
      | (Some l, r) \<Rightarrow>
          (case reader_read (unat l) r of
             (None, r') \<Rightarrow> ('''', r')
           | (Some s, r') \<Rightarrow> (str s, r')))"

text \<open>A write to an open file appends a record; a write to the nil file is an error.\<close>

definition write_line ::
  "(cast_line \<Rightarrow> goerr option) \<Rightarrow> string option \<Rightarrow> cast_line \<Rightarrow> asciicastLogger \<Rightarrow> asciicastLogger \<times> unit outcome" where
  "write_line write_err f line l =
     (case f of
        None \<Rightarrow> (l, Fails (Ext ''invalid argument''))
      | Some path \<Rightarrow>
          (case write_err line of
             Some e \<Rightarrow> (l, Fails e)
           | None \<Rightarrow>
               (l\<lparr>files := (files l)(path \<mapsto> (case files l path of None \<Rightarrow> [] | Some c \<Rightarrow> c) @ [line])\<rparr>, Returns ())))"

definition uphook ::
  "(cast_line \<Rightarrow> goerr option) \<Rightarrow> int \<Rightarrow> asciicastLogger \<Rightarrow> bytes \<Rightarrow> asciicastLogger \<times> unit outcome" where
  "uphook write_err now l msg =
     (if msg = [] then (l, Panics)
      else if hd msg = recChannelData then
        (case uint32_at msg 1 of
           None \<Rightarrow> (l, Panics)
         | Some clientChannelID \<Rightarrow>
             (case cast_channels l clientChannelID of
                None \<Rightarrow> (l, Returns ())
              | Some f \<Rightarrow>
                  (case slice_from msg 9 of
                     None \<Rightarrow> (l, Panics)
                   | Some data \<Rightarrow> write_line write_err (Some f) (CastOutput (now - starttime l) data) l)))
      else if hd msg = recChannelOpenConfirm then
        (case (uint32_at msg 1, uint32_at msg 5) of
           (Some clientChannelID, Some serverChannelID) \<Rightarrow>
             (l\<lparr>cast_idmap := (cast_idmap l)(serverChannelID \<mapsto> clientChannelID)\<rparr>, Returns ())
         | _ \<Rightarrow> (l, Panics))
      else (l, Returns ()))"

definition read_into :: "u32 \<Rightarrow> bytes \<Rightarrow> u32 \<times> bytes" where
  "read_into old rd = (case read_u32 rd of (None, r) \<Rightarrow> (old, r) | (Some w, r) \<Rightarrow> (w, r))"

definition cast_path :: "asciicastLogger \<Rightarrow> string \<Rightarrow> u32 \<Rightarrow> string" where
  "cast_path l reqType ch =
     path_join [recorddir l, prefix l @ reqType @ ''-channel-'' @ utoa (uint ch) @ ''.cast'']"

definition start_recording ::
  "(string \<Rightarrow> goerr option) \<Rightarrow> (cast_line \<Rightarrow> goerr option) \<Rightarrow> int \<Rightarrow> string \<Rightarrow> u32 \<Rightarrow> asciicastLogger
     \<Rightarrow> asciicastLogger \<times> unit outcome" where
  "start_recording open_err write_err now reqType ch l =
     (let path = cast_path l reqType ch
      in case open_err path of
           Some e \<Rightarrow> (l, Fails e)
         | None \<Rightarrow>
             let l' = l\<lparr>files := (files l)(path \<mapsto> []), cast_channels := (cast_channels l)(ch \<mapsto> path),
                        starttime := now\<rparr>
             in write_line write_err (Some path) (CastHeader (initWidth l) (initHeight l) now (envs l)) l')"

definition downhook ::
  "(string \<Rightarrow> goerr option) \<Rightarrow> (cast_line \<Rightarrow> goerr option) \<Rightarrow> int \<Rightarrow> asciicastLogger \<Rightarrow> bytes
     \<Rightarrow> asciicastLogger \<times> unit outcome" where
  "downhook open_err write_err now l msg =
     (if msg = [] then (l, Panics)
      else if hd msg \<noteq> recChannelRequest then (l, Returns ())
      else (case uint32_at msg 1 of
          None \<Rightarrow> (l, Panics)
        | Some serverChannelID \<Rightarrow>
            let clientChannelID = (case cast_idmap l serverChannelID of None \<Rightarrow> 0 | Some c \<Rightarrow> c);
                (reqType, rd) = readString (drop 5 msg)
            in if reqType = ''pty-req'' then
                 let (_, b1) = read_byte rd; (term, b2) = readString b1;
                     (w, b3) = read_into (initWidth l) b2; (h, _) = read_into (initHeight l) b3
                 in (l\<lparr>initWidth := w, initHeight := h, envs := (envs l)(''TERM'' \<mapsto> term)\<rparr>, Returns ())
               else if reqType = ''env'' then
                 let (_, b1) = read_byte rd; (k, b2) = readString b1; (v, _) = readString b2
                 in (l\<lparr>envs := (envs l)(k \<mapsto> v)\<rparr>, Returns ())
               else if reqType = ''window-change'' then
                 (case cast_channels l clientChannelID of
                    None \<Rightarrow>
                      let (_, b1) = read_byte rd; (w, b2) = read_into 0 b1; (h, _) = read_into 0 b2
                      in write_line write_err None (CastResize (now - starttime l) w h) l
                  | Some f \<Rightarrow> (l, Returns ()))
               else if reqType = ''shell'' \<or> reqType = ''exec'' then
                 start_recording open_err write_err now reqType clientChannelID l
               else (l, Returns ())))"

section \<open>The typescript recorder\<close>

datatype script_record = ScriptStarted int | ScriptData bytes | ScriptDone int

record filePtyLogger =
  typescript :: "script_record list"
  timing :: "(int \<times> int \<times> nat) list"
  oldtime :: int

definition newFilePtyLogger ::
  "(string \<Rightarrow> goerr option) \<Rightarrow> (script_record \<Rightarrow> goerr option) \<Rightarrow> int \<Rightarrow> string \<Rightarrow> filePtyLogger res" where
  "newFilePtyLogger open_err write_err now outputdir =
     (let filename = itoa (now div 1000000000)
      in case open_err (path_join [outputdir, filename @ ''.typescript'']) of
           Some e \<Rightarrow> Inl e
         | None \<Rightarrow>
             (case write_err (ScriptStarted now) of
                Some e \<Rightarrow> Inl e
              | None \<Rightarrow>
                  (case open_err (path_join [outputdir, filename @ ''.timing'']) of
                     Some e \<Rightarrow> Inl e
                   | None \<Rightarrow> Inr \<lparr>typescript = [ScriptStarted now], timing = [], oldtime = now\<rparr>)))"

text \<open>The error of the write to the timing file is ignored; it is taken to succeed.\<close>

definition loggingTty ::
  "(script_record \<Rightarrow> goerr option) \<Rightarrow> int \<Rightarrow> filePtyLogger \<Rightarrow> bytes \<Rightarrow> filePtyLogger \<times> unit outcome" where
  "loggingTty write_err now l msg =
     (if msg = [] then (l, Panics)
      else if hd msg = recChannelData then
        (case slice_from msg 9 of
           None \<Rightarrow> (l, Panics)
         | Some data \<Rightarrow>
             let delta = now - oldtime l;
                 l1 = l\<lparr>timing := timing l @ [(delta div 1000000000, (delta mod 1000000000) div 1000, length data)],
                        oldtime := now\<rparr>
             in (case write_err (ScriptData data) of
                   Some e \<Rightarrow> (l1, Fails e)
                 | None \<Rightarrow> (l1\<lparr>typescript := typescript l1 @ [ScriptData data]\<rparr>, Returns ())))
      else (l, Returns ()))"

definition Close_script :: "int \<Rightarrow> filePtyLogger \<Rightarrow> filePtyLogger" where
  "Close_script now l = l\<lparr>typescript := typescript l @ [ScriptDone now]\<rparr>"

section \<open>What the recorders keep\<close>

text \<open>An upstream packet with data for the client's channel \<open>ch\<close> (RFC 4254, 5.2).\<close>

definition data_packet :: "u32 \<Rightarrow> bytes \<Rightarrow> bytes" where
  "data_packet ch payload = recChannelData # put_uint32 ch @ put_sshstring payload"

lemma data_packet_parts:
  "data_packet ch payload \<noteq> []" "hd (data_packet ch payload) = recChannelData"
  "uint32_at (data_packet ch payload) (Suc 0) = Some ch"
  "slice_from (data_packet ch payload) 9 = Some payload"
  using uint32_at_append_put [of "[recChannelData]" 1 ch]
  by (simp_all add: data_packet_def put_sshstring_def)

lemma cast_name_inject:
  fixes c c' :: u32
  assumes "pre @ t @ ''-channel-'' @ utoa (uint c) @ ''.cast'' = pre @ t' @ ''-channel-'' @ utoa (uint c') @ ''.cast''"
    and "t \<in> {''shell'', ''exec''}" "t' \<in> {''shell'', ''exec''}"
  shows "c = c'"
proof -
  have "t @ ''-channel-'' @ utoa (uint c) @ ''.cast'' = t' @ ''-channel-'' @ utoa (uint c') @ ''.cast''"
    using assms(1) by (simp only: same_append_eq)
  then have eq: "utoa (uint c) = utoa (uint c')"
    using assms(2,3) by (elim insertE emptyE) simp_all
  have pu: "parse_uint 32 (utoa (uint w)) = Inr (uint w)" for w :: u32
    by (rule parse_uint_utoa) (use unsigned_less [where w = w and 'a = int] in simp_all)
  have "Inr (uint c) = parse_uint 32 (utoa (uint c))"
    by (rule pu [symmetric])
  also have "\<dots> = parse_uint 32 (utoa (uint c'))"
    using eq by (rule arg_cong)
  also have "\<dots> = Inr (uint c')"
    by (rule pu)
  finally show ?thesis
    by (simp only: sum.inject word_uint_eq_iff)
qed

text \<open>The recorder's files, one per channel: every recorded channel writes to a path of its own.\<close>

definition cast_wf :: "asciicastLogger \<Rightarrow> bool" where
  "cast_wf l \<longleftrightarrow> slash \<notin> set (prefix l) \<and> recorddir l \<noteq> '''' \<and>
     (\<forall>c p. cast_channels l c = Some p \<longrightarrow>
        (\<exists>t \<in> {''shell'', ''exec''}. p = cast_path l t c) \<and> files l p \<noteq> None)"

definition cast_name :: "asciicastLogger \<Rightarrow> string \<Rightarrow> u32 \<Rightarrow> string" where
  "cast_name l t c = prefix l @ t @ ''-channel-'' @ utoa (uint c) @ ''.cast''"

lemma cast_name_ok:
  assumes "slash \<notin> set (prefix l)" "t \<in> {''shell'', ''exec''}"
  shows "name_ok (cast_name l t c)"
proof -
  have "slash \<notin> set (utoa (uint c))"
    using utoa_digits [of "uint c" slash] is_digit_in [of slash] by auto
  moreover have "length (cast_name l t c) > 2"
    by (simp add: cast_name_def)
  ultimately show ?thesis
    using assms by (auto simp: name_ok_def cast_name_def)
qed

lemma comps_cast_path:
  assumes "cast_wf l" "t \<in> {''shell'', ''exec''}"
  shows "comps (cast_path l t c) = comps (recorddir l) @ [cast_name l t c]"
proof -
  have ok: "name_ok (cast_name l t c)" and dir: "recorddir l \<noteq> ''''"
    using assms cast_name_ok by (auto simp: cast_wf_def)
  then have "split_on slash (cast_name l t c) = [cast_name l t c]"
    by (simp add: name_ok_def split_on_single)
  then show ?thesis
    using comps_path_join2(1) [OF dir] fold_clean_step_names [of "[cast_name l t c]"] ok
    by (simp add: cast_path_def cast_name_def del: path_join.simps)
qed

lemma cast_path_inject:
  assumes "cast_wf l" "t \<in> {''shell'', ''exec''}" "t' \<in> {''shell'', ''exec''}" "cast_path l t c = cast_path l t' c'"
  shows "c = c'"
proof -
  have "cast_name l t c = cast_name l t' c'"
    using arg_cong [OF assms(4), of comps] comps_cast_path [OF assms(1)] assms(2,3) by simp
  then show ?thesis
    unfolding cast_name_def by (rule cast_name_inject) (fact assms)+
qed

lemma cast_path_files [simp]: "cast_path (l\<lparr>files := f\<rparr>) = cast_path l"
  by (simp add: fun_eq_iff cast_path_def del: path_join.simps)

fun run_up :: "asciicastLogger \<Rightarrow> (int \<times> u32 \<times> bytes) list \<Rightarrow> asciicastLogger" where
  "run_up l [] = l"
| "run_up l ((now, ch, payload) # ps) = run_up (fst (uphook (\<lambda>_. None) now l (data_packet ch payload))) ps"

lemma uphook_data:
  "uphook (\<lambda>_. None) now l (data_packet ch payload) =
     ((case cast_channels l ch of
         None \<Rightarrow> l
       | Some p \<Rightarrow> l\<lparr>files := (files l)(p \<mapsto> (case files l p of None \<Rightarrow> [] | Some c \<Rightarrow> c)
                      @ [CastOutput (now - starttime l) payload])\<rparr>), Returns ())"
  by (simp add: uphook_def data_packet_parts write_line_def split: option.splits)

text \<open>
  The asciicast of a channel is complete and only that channel's.  For a channel that is being
  recorded, after any sequence of upstream data packets of any channels the file of that channel has grown by
  exactly one output record per packet of that channel, in order, with the packet's whole payload and the time since the recording began.
\<close>

theorem cast_output_complete:
  assumes "cast_wf l" "cast_channels l ch = Some p" "files l p = Some old"
  shows "files (run_up l ps) p =
    Some (old @ map (\<lambda>(now, c, payload). CastOutput (now - starttime l) payload) (filter (\<lambda>(now, c, payload). c = ch) ps))"
  using assms
proof (induction ps arbitrary: l old)
  case (Cons pk ps)
  obtain now c payload where pk: "pk = (now, c, payload)"
    by (cases pk)
  let ?l = "fst (uphook (\<lambda>_. None) now l (data_packet c payload))"
  have wf: "cast_wf ?l"
    using Cons.prems(1) by (auto simp: cast_wf_def uphook_data split: option.splits)
  have same: "cast_channels ?l = cast_channels l" "starttime ?l = starttime l"
    by (auto simp: uphook_data split: option.splits)
  have "files ?l p = Some (old @ (if c = ch then [CastOutput (now - starttime l) payload] else []))"
  proof (cases "c = ch")
    case True
    with Cons.prems show ?thesis
      by (simp add: uphook_data)
  next
    case False
    have "cast_channels l c \<noteq> Some p"
    proof
      assume "cast_channels l c = Some p"
      then have "\<exists>t \<in> {''shell'', ''exec''}. p = cast_path l t c" "\<exists>t \<in> {''shell'', ''exec''}. p = cast_path l t ch"
        using Cons.prems(1,2) by (auto simp: cast_wf_def)
      with False show False
        using cast_path_inject [OF Cons.prems(1)] by metis
    qed
    with False Cons.prems show ?thesis
      by (auto simp: uphook_data split: option.splits)
  qed
  then show ?case
    using Cons.IH [OF wf] Cons.prems(2) by (auto simp: pk same)
qed simp

definition demo_cast :: asciicastLogger where
  "demo_cast = (newAsciicastLogger ''alice'' ''s-'')\<lparr>starttime := 100,
     cast_channels := [1 \<mapsto> ''alice/s-shell-channel-1.cast'', 2 \<mapsto> ''alice/s-exec-channel-2.cast''],
     files := [''alice/s-shell-channel-1.cast'' \<mapsto> [CastHeader 80 24 100 Map.empty], ''alice/s-exec-channel-2.cast'' \<mapsto> []]\<rparr>"

lemma demo_cast_wf: "cast_wf demo_cast"
proof -
  have "cast_path demo_cast ''shell'' 1 = ''alice/s-shell-channel-1.cast''"
    "cast_path demo_cast ''exec'' 2 = ''alice/s-exec-channel-2.cast''"
    by code_simp+
  then show ?thesis
    by (auto simp: cast_wf_def demo_cast_def newAsciicastLogger_def)
qed

theorem cast_output_complete_witness:
  "files (run_up demo_cast [(150, 1, [65]), (160, 2, [66]), (170, 1, [67, 68])]) ''alice/s-shell-channel-1.cast'' =
     Some [CastHeader 80 24 100 Map.empty, CastOutput 50 [65], CastOutput 70 [67, 68]]"
  using cast_output_complete [OF demo_cast_wf, of 1 "''alice/s-shell-channel-1.cast''" "[CastHeader 80 24 100 Map.empty]"
      "[(150, 1, [65]), (160, 2, [66]), (170, 1, [67, 68])]"]
  by (simp add: demo_cast_def)

section \<open>Window changes and short packets\<close>

text \<open>A channel request for the server's channel \<open>ch\<close> (RFC 4254, 5.4).\<close>

definition cast_request :: "u32 \<Rightarrow> string \<Rightarrow> bytes \<Rightarrow> bytes" where
  "cast_request ch reqType body = recChannelRequest # put_uint32 ch @ put_sshstring (bytes_of reqType) @ body"

lemma cast_request_parts:
  "cast_request ch t body \<noteq> []" "hd (cast_request ch t body) = recChannelRequest"
  "uint32_at (cast_request ch t body) (Suc 0) = Some ch"
  "length t < 2 ^ 32 \<Longrightarrow> readString (drop 5 (cast_request ch t body)) = (t, body)"
proof -
  assume "length t < 2 ^ 32"
  then have "unat (word_of_nat (length t) :: u32) = length t"
    by (simp add: unat_of_nat)
  moreover have "drop 5 (cast_request ch t body) = put_sshstring (bytes_of t) @ body"
    by (simp add: cast_request_def put_uint32_def)
  ultimately show "readString (drop 5 (cast_request ch t body)) = (t, body)"
    by (auto simp: readString_def put_sshstring_def reader_read_def)
qed (use uint32_at_append_put [of "[recChannelRequest]" 1 ch] in \<open>auto simp: cast_request_def\<close>)

text \<open>The resize of a recorded channel leaves no trace; the resize of any other channel is an error.\<close>

lemma window_change_never_recorded:
  assumes "cast_idmap l ch = Some c"
  shows "downhook open_err write_err now l (cast_request ch ''window-change'' body) =
    (l, if cast_channels l c = None then Fails (Ext ''invalid argument'') else Returns ())"
  using assms
  by (auto simp: downhook_def cast_request_parts write_line_def Let_def split: option.splits prod.splits)

text \<open>A packet that is too short for its fields makes the recorders index out of range.\<close>

lemma short_packet_panics:
  "snd (uphook write_err now l []) = Panics"
  "snd (uphook write_err now l [recChannelData]) = Panics"
  "length b < 8 \<Longrightarrow> snd (loggingTty script_err now s (recChannelData # b)) = Panics"
  by (simp_all add: uphook_def loggingTty_def uint32_at_def slice_from_None_iff [THEN iffD2])

end
