(* ===== verification/Connection.thy ===== *)
theory Connection
  imports Daemon Forwarding Env_Inject Admin_Registry Stream_Hook Recording
begin

text \<open>
  One connection of the daemon, from its acceptance to its end (the goroutine of \<^verbatim>\<open>run\<close>, with \<^verbatim>\<open>initScreenRecording\<close>
  and \<^verbatim>\<open>setupScreenRecording\<close>, in \<^verbatim>\<open>cmd/sshpiperd/daemon.go\<close>): how the packet hooks are put together,
  and in which order the registry, the recorder, the plugins and the sockets are called.

  The handler yields the list of its effects, deferred ones included.  What the environment decides
  is a parameter: whether the SSH handshake yields a pipe, an error or the timeout, the errors of
  the file system, the clock, and the error the pipe ends with.
\<close>

section \<open>The daemon and its pipes\<close>

record ('k, 'c, 'd) daemon =
  d_config :: "('k, 'c, 'd) piper_config"
  d_recorddir :: string
  d_recordfmt :: string
  d_usernameAsRecorddir :: bool
  d_filterHostkeysReqeust :: bool
  d_replyPing :: bool
  d_disableLocalForward :: bool
  d_disableRemoteForward :: bool
  d_recordRoot :: bool
  d_injectEnv :: strmap
  d_adminRegistry :: bool

record piper_conn =
  p_downstream :: conn
  p_upstream :: conn
  p_ctx :: challenge_ctx

datatype establish = Piped piper_conn | EstablishError string | EstablishTimeout

datatype up_hook = StreamUp | CastUp string string | ScriptUp string | HostkeysFilter | ForwardUp

datatype down_hook = StreamDown | CastDown string string | PingReply | ForwardDown | EnvDown strmap

datatype effect =
    PipeCreateErrorCall string string
  | RegistryAdd session
  | RegistryRemove string
  | PipeStartCall
  | Waited "up_hook list" "down_hook list"
  | PipeErrorCall string
  | RecorderClosed
  | PipeClosed
  | ConnClosed

text \<open>The errors of the file system: of \<^verbatim>\<open>MkdirAll\<close> and \<^verbatim>\<open>OpenFile\<close> below the recording root, and of writes.\<close>

record rec_fs =
  mkdirErr :: "string \<Rightarrow> goerr option"
  openErr :: "string \<Rightarrow> goerr option"
  writeErr :: "script_record \<Rightarrow> goerr option"

section \<open>Screen recording\<close>

definition initScreenRecording ::
  "(string \<Rightarrow> goerr option) \<Rightarrow> (string \<Rightarrow> goerr option) \<Rightarrow> ('k, 'c, 'd) daemon \<Rightarrow> ('k, 'c, 'd) daemon res" where
  "initScreenRecording mkdirAll openRoot d =
     (if d_recorddir d = '''' then Inr d
      else (case mkdirAll (d_recorddir d) of
          Some e \<Rightarrow> Inl (Wrapf ''cannot create screen recording root %q: %w'' [d_recorddir d] e)
        | None \<Rightarrow>
            (case openRoot (d_recorddir d) of
               Some e \<Rightarrow> Inl (Wrapf ''cannot open screen recording root %q: %w'' [d_recorddir d] e)
             | None \<Rightarrow> Inr (d\<lparr>d_recordRoot := True\<rparr>))))"

text \<open>The results of \<^verbatim>\<open>setupScreenRecording\<close>: a panic, \<^verbatim>\<open>(nil, false)\<close>, \<^verbatim>\<open>(nil, true)\<close>, and a recorder with its hooks.\<close>

datatype rec_setup = RecPanic | RecReject | RecNone | RecOn "up_hook list" "down_hook list"

definition recorder_in :: "rec_fs \<Rightarrow> int \<Rightarrow> ('k, 'c, 'd) daemon \<Rightarrow> string \<Rightarrow> rec_setup" where
  "recorder_in F now d subdir =
     (if mkdirErr F subdir \<noteq> None then RecReject
      else if d_recordfmt d = ''asciicast'' then
        let pre = (if d_usernameAsRecorddir d then itoa (now div 1000000000) @ ''-'' else '''')
        in RecOn [CastUp subdir pre] [CastDown subdir pre]
      else if d_recordfmt d = ''typescript'' then
        (case newFilePtyLogger (openErr F) (writeErr F) now subdir of
           Inl e \<Rightarrow> RecReject
         | Inr _ \<Rightarrow> RecOn [ScriptUp subdir] [])
      else RecNone)"

definition setupScreenRecording ::
  "rec_fs \<Rightarrow> int \<Rightarrow> ('k, 'c, 'd) daemon \<Rightarrow> piper_conn \<Rightarrow> rec_setup" where
  "setupScreenRecording F now d p =
     (if \<not> d_recordRoot d then RecNone
      else if d_usernameAsRecorddir d then
        (case safeJoinUserRecordDir (d_recorddir d) (User (p_downstream p)) of
           Inl e \<Rightarrow> RecReject
         | Inr rel \<Rightarrow> recorder_in F now d rel)
      else
        (case GetUniqueID (p_ctx p) of
           None \<Rightarrow> RecPanic
         | Some i \<Rightarrow> recorder_in F now d i))"

section \<open>The connection\<close>

definition session_env :: "('k, 'c, 'd) daemon \<Rightarrow> challenge_ctx \<Rightarrow> strmap" where
  "session_env d ctx =
     (let env = UpstreamEnv ctx in if d_injectEnv d \<noteq> Map.empty then d_injectEnv d ++ env else env)"

definition late_up :: "('k, 'c, 'd) daemon \<Rightarrow> up_hook list" where
  "late_up d =
     (if d_filterHostkeysReqeust d then [HostkeysFilter] else []) @
     (if d_disableLocalForward d \<or> d_disableRemoteForward d
      then (if d_disableRemoteForward d then [ForwardUp] else []) else [])"

definition late_down :: "('k, 'c, 'd) daemon \<Rightarrow> challenge_ctx \<Rightarrow> down_hook list" where
  "late_down d ctx =
     (if d_replyPing d then [PingReply] else []) @
     (if d_disableLocalForward d \<or> d_disableRemoteForward d then [ForwardDown] else []) @
     (if session_env d ctx \<noteq> Map.empty then [EnvDown (session_env d ctx)] else [])"

definition serve_pipe ::
  "('k, 'c, 'd) daemon \<Rightarrow> piper_conn \<Rightarrow> string \<Rightarrow> up_hook list \<Rightarrow> down_hook list \<Rightarrow> effect list" where
  "serve_pipe d p waitErr ups downs =
     (if pc_PipeStartCallback (d_config d) \<noteq> None then [PipeStartCall] else []) @
     [Waited (ups @ late_up d) (downs @ late_down d (p_ctx p))] @
     (if pc_PipeErrorCallback (d_config d) \<noteq> None then [PipeErrorCall waitErr] else [])"

definition serve_recorded ::
  "rec_fs \<Rightarrow> int \<Rightarrow> ('k, 'c, 'd) daemon \<Rightarrow> piper_conn \<Rightarrow> string \<Rightarrow> up_hook list \<Rightarrow> down_hook list
     \<Rightarrow> effect list \<times> unit outcome" where
  "serve_recorded F now d p waitErr ups downs =
     (case setupScreenRecording F now d p of
        RecPanic \<Rightarrow> ([], Panics)
      | RecReject \<Rightarrow> ([], Returns ())
      | RecNone \<Rightarrow> (serve_pipe d p waitErr ups downs, Returns ())
      | RecOn ru rd \<Rightarrow> (serve_pipe d p waitErr (ups @ ru) (downs @ rd) @ [RecorderClosed], Returns ()))"

definition new_session :: "int \<Rightarrow> piper_conn \<Rightarrow> string \<Rightarrow> session" where
  "new_session now p uniqID =
     \<lparr>ID = uniqID, DownstreamUser = User (p_downstream p), DownstreamAddr = RemoteAddr (p_downstream p),
      UpstreamUser = User (p_upstream p), UpstreamAddr = RemoteAddr (p_upstream p), StartedAt = now\<rparr>"

definition handle_conn ::
  "rec_fs \<Rightarrow> int \<Rightarrow> ('k, 'c, 'd) daemon \<Rightarrow> string \<Rightarrow> string \<Rightarrow> establish \<Rightarrow> effect list \<times> unit outcome" where
  "handle_conn F now d remote waitErr est =
     (let create_error = (\<lambda>e.
            ((if pc_PipeCreateErrorCallback (d_config d) \<noteq> None then [PipeCreateErrorCall remote e] else []) @ [ConnClosed],
             Returns ()))
      in case est of
           EstablishError e \<Rightarrow> create_error e
         | EstablishTimeout \<Rightarrow> create_error ''pipe establishing timeout''
         | Piped p \<Rightarrow>
             (case (if d_adminRegistry d then
                      (case GetUniqueID (p_ctx p) of
                         None \<Rightarrow> ([], Panics)
                       | Some i \<Rightarrow>
                           (case serve_recorded F now d p waitErr [StreamUp] [StreamDown] of
                              (tr, r) \<Rightarrow> (RegistryAdd (new_session now p i) # tr @ [RegistryRemove i], r)))
                    else serve_recorded F now d p waitErr [] []) of
                (tr, r) \<Rightarrow> (tr @ [PipeClosed, ConnClosed], r)))"

section \<open>Life of a connection\<close>

text \<open>
  C9: everything that is opened is closed, in order.  A connection whose context the daemon created is handled
  without a panic.  If no pipe was established, the plugins are told why (if they want to know) and the socket is closed.
  If one was, it is registered first and removed last under the same id (with the admin API on), the
  pipe and then the socket are closed at the very end, and in between either nothing happens, which
  is only possible if the recording was refused, or: the start callback, the wait on the pipe, the error callback with the pipe's
  error, and the closing of the recorder, if there is one.
\<close>

theorem connection_lifecycle:
  assumes "\<And>p. est = Piped p \<Longrightarrow> p_ctx p \<noteq> OtherCtx"
  shows "\<exists>tr. handle_conn F now d remote waitErr est = (tr, Returns ()) \<and>
    (case est of
       Piped p \<Rightarrow> \<exists>i body. GetUniqueID (p_ctx p) = Some i \<and>
         tr = (if d_adminRegistry d then [RegistryAdd (new_session now p i)] else []) @ body
              @ (if d_adminRegistry d then [RegistryRemove i] else []) @ [PipeClosed, ConnClosed] \<and>
         (if setupScreenRecording F now d p = RecReject then body = []
          else \<exists>ups downs. body = (if pc_PipeStartCallback (d_config d) \<noteq> None then [PipeStartCall] else [])
             @ Waited ups downs # (if pc_PipeErrorCallback (d_config d) \<noteq> None then [PipeErrorCall waitErr] else [])
             @ (if setupScreenRecording F now d p = RecNone then [] else [RecorderClosed]))
     | EstablishError e \<Rightarrow>
         tr = (if pc_PipeCreateErrorCallback (d_config d) \<noteq> None then [PipeCreateErrorCall remote e] else []) @ [ConnClosed]
     | EstablishTimeout \<Rightarrow>
         tr = (if pc_PipeCreateErrorCallback (d_config d) \<noteq> None
               then [PipeCreateErrorCall remote ''pipe establishing timeout''] else []) @ [ConnClosed])"
proof (cases est)
  case (Piped p)
  then have "p_ctx p \<noteq> OtherCtx"
    by (rule assms)
  then obtain i where i: "GetUniqueID (p_ctx p) = Some i"
    by (cases "p_ctx p") (auto simp: GetUniqueID_def)
  have np: "setupScreenRecording F now d p \<noteq> RecPanic"
    using i by (auto simp: setupScreenRecording_def recorder_in_def Let_def split: sum.splits)
  show ?thesis
    using np
    by (cases "setupScreenRecording F now d p")
      (auto simp: Piped handle_conn_def i serve_recorded_def serve_pipe_def)
qed (simp_all add: handle_conn_def)

text \<open>
  C10: no session goes unrecorded.  With a recording directory and one of the two formats the daemon accepts,
  once the recording root has been opened every connection that is waited on has the recorder's hooks
  in place, before the hook that may drop packets; they record below the root in the
  directory of the user or of the connection's id, and the recorder is closed afterwards.
\<close>

theorem no_unrecorded_session:
  assumes "initScreenRecording mk op d0 = Inr d" "d_recorddir d0 \<noteq> ''''" "d_recordfmt d0 \<in> {''typescript'', ''asciicast''}"
    and "handle_conn F now d remote waitErr (Piped p) = (tr, r)" "Waited ups downs \<in> set tr"
  shows "\<exists>subdir pre. (if d_usernameAsRecorddir d then safeJoinUserRecordDir (d_recorddir d0) (User (p_downstream p)) = Inr subdir
           else GetUniqueID (p_ctx p) = Some subdir)
    \<and> (if d_recordfmt d0 = ''asciicast''
       then CastUp subdir pre \<in> set (takeWhile (\<lambda>h. h \<noteq> HostkeysFilter) ups) \<and> CastDown subdir pre \<in> set downs
       else ScriptUp subdir \<in> set (takeWhile (\<lambda>h. h \<noteq> HostkeysFilter) ups))
    \<and> RecorderClosed \<in> set tr"
proof -
  have d: "d = d0\<lparr>d_recordRoot := True\<rparr>"
    using assms(1,2) by (auto simp: initScreenRecording_def split: option.splits)
  then have fmt: "d_recordfmt d \<in> {''typescript'', ''asciicast''}"
    using assms(3) by simp
  have in_sub: ?thesis
    if s: "if d_usernameAsRecorddir d then safeJoinUserRecordDir (d_recorddir d0) (User (p_downstream p)) = Inr subdir
        else GetUniqueID (p_ctx p) = Some subdir" and r: "setupScreenRecording F now d p = recorder_in F now d subdir" for subdir
  proof -
    from assms(4,5) r obtain ru rd ups0 downs0 where on: "recorder_in F now d subdir = RecOn ru rd"
      and h: "ups = ups0 @ ru @ late_up d" "downs = downs0 @ rd @ late_down d (p_ctx p)" "ups0 \<in> {[], [StreamUp]}"
      and c: "RecorderClosed \<in> set tr"
      using fmt unfolding handle_conn_def serve_recorded_def
      by (cases "recorder_in F now d subdir"; cases "GetUniqueID (p_ctx p)")
        (auto simp: serve_pipe_def recorder_in_def Let_def split: if_splits sum.splits)
    from on fmt have "(\<exists>pre. d_recordfmt d = ''asciicast'' \<and> ru = [CastUp subdir pre] \<and> rd = [CastDown subdir pre])
        \<or> d_recordfmt d = ''typescript'' \<and> ru = [ScriptUp subdir]"
      by (auto simp: recorder_in_def Let_def split: if_splits sum.splits)
    then show ?thesis
      using s h c d by auto
  qed
  show ?thesis
  proof (cases "d_usernameAsRecorddir d")
    case True
    then obtain rel where "safeJoinUserRecordDir (d_recorddir d0) (User (p_downstream p)) = Inr rel"
      using assms(4,5) d
      by (auto simp: handle_conn_def serve_recorded_def setupScreenRecording_def split: sum.splits option.splits if_splits)
    then show ?thesis
      by (intro in_sub [of rel]) (use True d in \<open>simp_all add: setupScreenRecording_def\<close>)
  next
    case False
    then obtain i where "GetUniqueID (p_ctx p) = Some i"
      using assms(4,5) d
      by (auto simp: handle_conn_def serve_recorded_def setupScreenRecording_def split: option.splits if_splits)
    then show ?thesis
      by (intro in_sub [of i]) (use False d in \<open>simp_all add: setupScreenRecording_def\<close>)
  qed
qed

definition demo_daemon :: "(nat, string \<times> string, unit) daemon" where
  "demo_daemon = \<lparr>d_config = demo_pc, d_recorddir = ''/rec'', d_recordfmt = ''asciicast'', d_usernameAsRecorddir = False,
     d_filterHostkeysReqeust = True, d_replyPing = False, d_disableLocalForward = True, d_disableRemoteForward = True,
     d_recordRoot = False, d_injectEnv = [''A'' \<mapsto> ''0''], d_adminRegistry = True\<rparr>"

definition demo_piper :: piper_conn where
  "demo_piper = \<lparr>p_downstream = demo_conn, p_upstream = demo_conn, p_ctx = demo_ctx\<rparr>"

definition demo_fs :: rec_fs where
  "demo_fs = \<lparr>mkdirErr = \<lambda>_. None, openErr = \<lambda>_. None, writeErr = \<lambda>_. None\<rparr>"

lemma demo_id: "GetUniqueID (p_ctx demo_piper) = Some ''id''"
  by (simp add: demo_piper_def demo_ctx_def GetUniqueID_def new_conn_meta_def)

theorem connection_lifecycle_witness:
  "\<exists>ups downs. handle_conn demo_fs 5 demo_daemon ''c'' ''EOF'' (Piped demo_piper) =
     ([RegistryAdd (new_session 5 demo_piper ''id''), Waited ups downs, RegistryRemove ''id'', PipeClosed, ConnClosed], Returns ())"
proof -
  have "setupScreenRecording demo_fs 5 demo_daemon demo_piper = RecNone"
    by (simp add: setupScreenRecording_def demo_daemon_def)
  then show ?thesis
    using connection_lifecycle [of "Piped demo_piper" demo_fs 5 demo_daemon "''c''" "''EOF''"] demo_id
    by (auto simp: demo_piper_def demo_ctx_def demo_daemon_def demo_pc_def closures_def daemon_config_def empty_grpc_config_def)
qed

theorem no_unrecorded_session_witness:
  "let tr = fst (handle_conn demo_fs 5 (demo_daemon\<lparr>d_recordRoot := True\<rparr>) ''c'' ''EOF'' (Piped demo_piper))
   in RecorderClosed \<in> set tr \<and> (\<exists>ups downs pre. Waited ups downs \<in> set tr \<and> CastUp ''id'' pre \<in> set ups)"
proof -
  have i: "initScreenRecording (\<lambda>_. None) (\<lambda>_. None) demo_daemon = Inr (demo_daemon\<lparr>d_recordRoot := True\<rparr>)"
    by (simp add: initScreenRecording_def demo_daemon_def)
  have "\<exists>tr r ups downs. handle_conn demo_fs 5 (demo_daemon\<lparr>d_recordRoot := True\<rparr>) ''c'' ''EOF'' (Piped demo_piper) = (tr, r)
      \<and> Waited ups downs \<in> set tr"
    by (auto simp: handle_conn_def demo_id serve_recorded_def setupScreenRecording_def recorder_in_def serve_pipe_def
        demo_fs_def demo_daemon_def)
  then obtain tr r ups downs where
    h: "handle_conn demo_fs 5 (demo_daemon\<lparr>d_recordRoot := True\<rparr>) ''c'' ''EOF'' (Piped demo_piper) = (tr, r)"
      "Waited ups downs \<in> set tr"
    by blast
  from no_unrecorded_session [OF i _ _ h] show ?thesis
    using h demo_id by (auto simp: demo_daemon_def Let_def dest!: set_takeWhileD)
qed

end
