(* ===== verification/Pipe_Hooks.thy ===== *)
theory Pipe_Hooks
  imports Connection
begin

text \<open>
  What the two hook chains of a connection do to a packet, all hooks together.  The hooks that \<^verbatim>\<open>run\<close> in
  \<^verbatim>\<open>cmd/sshpiperd/daemon.go\<close> appends (the session stream, the \<^verbatim>\<open>hostkeys\<close> filter, the ping reply, the forwarding
  filter and the environment injector) act on one state, each on its own part.  The recorders only inspect packets and
  come earlier in the chain; they are treated in the theory of recordings.

  Library code is a parameter: \<open>pp_codec\<close> (marshalling), \<open>pp_requestName\<close> (the field that \<^verbatim>\<open>ssh.Unmarshal\<close> fills in for
  a global request), \<open>pp_ping\<close> (\<^verbatim>\<open>ssh.PingPacketReply\<close>) and \<open>pp_marshalEnv\<close>.  \<open>pp_await\<close> is the filter as \<^verbatim>\<open>down\<close> finds it
  when its wait for request \<open>n\<close> is over.
\<close>

section \<open>The state and the hooks\<close>

record pipe_state =
  ps_stream :: stream_hook
  ps_filter :: forwardingFilter
  ps_written :: "bytes list"

record pipe_params =
  pp_now :: int
  pp_codec :: ssh_codec
  pp_requestName :: "bytes \<Rightarrow> string"
  pp_ping :: "bytes \<Rightarrow> hook_res"
  pp_marshalEnv :: "envChannelRequest \<Rightarrow> bytes"
  pp_await :: "forwardingFilter \<Rightarrow> nat \<Rightarrow> forwardingFilter"
  pp_order :: "strmap \<Rightarrow> (string \<times> string) list"

definition part :: "('s \<Rightarrow> 'a) \<Rightarrow> (('a \<Rightarrow> 'a) \<Rightarrow> 's \<Rightarrow> 's) \<Rightarrow> 'a hook \<Rightarrow> 's hook" where
  "part get upd h s p = (case h (get s) p of (a, r) \<Rightarrow> (upd (\<lambda>_. a) s, r))"

definition hostkeys_filter :: "(bytes \<Rightarrow> string) \<Rightarrow> 's hook" where
  "hostkeys_filter requestName s b =
     (case b of
        [] \<Rightarrow> (s, HPanic)
      | t # _ \<Rightarrow>
          if t = 80 \<and> requestName b \<in> {''hostkeys-prove-00@openssh.com'', ''hostkeys-00@openssh.com''}
          then (s, HRet Transform [] None)
          else (s, HRet Transform b None))"


fun up_hook_of :: "pipe_params \<Rightarrow> up_hook \<Rightarrow> pipe_state hook" where
  "up_hook_of P StreamUp = part ps_stream ps_stream_update (Up (pp_now P))"
| "up_hook_of P HostkeysFilter = hostkeys_filter (pp_requestName P)"
| "up_hook_of P ForwardUp = part ps_filter ps_filter_update up"
| "up_hook_of P _ = (\<lambda>s p. (s, HRet Transform p None))"


section \<open>From the upstream to the client\<close>


lemma stream_up_pass:
  assumes "sh_inv (ps_stream s)"
  obtains h where "up_hook_of P StreamUp s p = (s\<lparr>ps_stream := h\<rparr>, HRet Transform p None)"
  using up_stream.tap_passes [OF assms, of "pp_now P" p]
  by (cases "Up (pp_now P) (ps_stream s) p") (auto simp: part_def)


lemma forward_up_pass:
  obtains f where "up_hook_of P ForwardUp s p = (s\<lparr>ps_filter := f\<rparr>, HRet Transform p None)"
  using up_tap.tap_passes [of "ps_filter s" p]
  by (cases "up (ps_filter s) p") (auto simp: part_def)

definition hostkeys_announcement :: "pipe_params \<Rightarrow> bytes \<Rightarrow> bool" where
  "hostkeys_announcement P b \<longleftrightarrow>
     hd b = 80 \<and> pp_requestName P b \<in> {''hostkeys-prove-00@openssh.com'', ''hostkeys-00@openssh.com''}"

lemma late_up_loop:
  assumes "b \<noteq> []"
  shows "snd (hook_loop (map (up_hook_of P) (late_up d)) Transform b s) =
    HRet Transform (if d_filterHostkeysReqeust d \<and> hostkeys_announcement P b then [] else b) None"
proof -
  have fwd: "snd (hook_loop (map (up_hook_of P) (if d_disableRemoteForward d then [ForwardUp] else [])) Transform q s') =
      HRet Transform q None" for q s'
    by (rule forward_up_pass [of P s' q]) auto
  have "up_hook_of P HostkeysFilter s b = (s, HRet Transform (if hostkeys_announcement P b then [] else b) None)"
    using assms by (cases b) (auto simp: hostkeys_filter_def hostkeys_announcement_def)
  then show ?thesis
    using fwd by (auto simp: late_up_def)
qed

text \<open>
  What reaches the client from the upstream.  For every packet of the upstream, with the session stream on or
  off, the hooks never panic, fail or reply: the packet goes to the client unchanged, except that with \<^verbatim>\<open>--drop-hostkeys-message\<close> the two
  \<^verbatim>\<open>hostkeys\<close> announcements of OpenSSH are dropped.
\<close>

theorem upstream_packets_pass:
  assumes "b \<noteq> []" "sh_inv (ps_stream s)" "stream \<in> {[], [StreamUp]}"
  shows "snd (hook_loop (map (up_hook_of P) (stream @ late_up d)) Transform b s) =
    HRet Transform (if d_filterHostkeysReqeust d \<and> hostkeys_announcement P b then [] else b) None"
proof -
  obtain h where "up_hook_of P StreamUp s b = (s\<lparr>ps_stream := h\<rparr>, HRet Transform b None)"
    using stream_up_pass [OF assms(2)] .
  then show ?thesis
    using late_up_loop [OF assms(1), of P d] assms(3) by auto
qed

section \<open>From the client to the upstream\<close>













section \<open>A pipe at work\<close>

definition demo_params :: pipe_params where
  "demo_params = \<lparr>pp_now = 0, pp_codec = rfc_codec, pp_requestName = \<lambda>b. str (drop 5 b),
     pp_ping = \<lambda>b. if b = [192] then HRet Reply [193] None else HRet Transform b None,
     pp_marshalEnv = \<lambda>r. bytes_of (Name r @ ''='' @ Value r), pp_await = \<lambda>f n. f\<lparr>replied := n\<rparr>,
     pp_order = \<lambda>m. map (\<lambda>k. (k, the (m k))) (filter (\<lambda>k. m k \<noteq> None) [''A'', ''B''])\<rparr>"

definition demo_state :: pipe_state where
  "demo_state = \<lparr>ps_stream = NewStreamHook NewBroadcaster, ps_filter = newForwardingFilter True True, ps_written = []\<rparr>"

lemma demo_state_inv: "sh_inv (ps_stream demo_state)"
  by (simp add: demo_state_def sh_inv_def NewStreamHook_def bc_inv_New)

theorem upstream_packets_pass_witness:
  "snd (hook_loop (map (up_hook_of demo_params) ([StreamUp] @ late_up demo_daemon)) Transform [94, 0] demo_state) =
     HRet Transform [94, 0] None"
  using upstream_packets_pass [of "[94, 0]" demo_state "[StreamUp]" demo_params demo_daemon] demo_state_inv
  by (simp add: hostkeys_announcement_def)


end
