(* ===== verification/Main_Config.thy ===== *)
theory Main_Config
  imports Go_Path
begin

text \<open>
  The command line of the daemon (\<^verbatim>\<open>cmd/sshpiperd/main.go\<close>, \<^verbatim>\<open>cmd/sshpiperd/grpc.go\<close>,
  \<^verbatim>\<open>cmd/internal/slogutil\<close>): how the arguments become plugin commands, the injected environment, and the transport security of
  the two gRPC connections.  Files, certificates and executables are parameters.
\<close>

section \<open>Plugin commands\<close>

fun splitByDash :: "string list \<Rightarrow> string list \<times> string list" where
  "splitByDash [] = ([], [])"
| "splitByDash (arg # args) =
     (if arg = ''--'' then ([], args)
      else (case splitByDash args of (a, rest) \<Rightarrow> (arg # a, rest)))"

lemma splitByDash_length: "args \<noteq> [] \<Longrightarrow> length (snd (splitByDash args)) < length args"
proof (induction args)
  case (Cons a args)
  then show ?case
    by (cases args) (auto split: prod.splits)
qed simp

lemma splitByDash_less: "(a, r) = splitByDash args \<Longrightarrow> args \<noteq> [] \<Longrightarrow> length r < length args"
  using splitByDash_length [of args] by (cases "splitByDash args") simp

text \<open>The loop over the arguments: one command per non-empty segment.\<close>

function plugin_commands :: "string list \<Rightarrow> string list list" where
  "plugin_commands remain =
     (if length remain > 0
      then (case splitByDash remain of
              (args, remain') \<Rightarrow> if length args \<le> 0 then plugin_commands remain' else args # plugin_commands remain')
      else [])"
  by auto
termination
  by (relation "measure length") (simp_all add: splitByDash_less)

declare plugin_commands.simps [simp del]

lemma plugin_commands_Nil [simp]: "plugin_commands [] = []"
  by (simp add: plugin_commands.simps)

text \<open>
  The fallback to the variable \<^verbatim>\<open>PLUGIN\<close> without arguments: the plugin directory next to the executable (whose
  directory with a slash is \<open>exeDir\<close>, empty if it is unknown), the directory of \<^verbatim>\<open>SSHPIPERD_PLUGIN_PATH\<close>, the search path.
\<close>

fun find_in_dirs :: "(string \<Rightarrow> bool) \<Rightarrow> string \<Rightarrow> string list \<Rightarrow> string option" where
  "find_in_dirs exists plugin [] = None"
| "find_in_dirs exists plugin (dir # dirs) =
     (if dir = '''' then find_in_dirs exists plugin dirs
      else if exists (path_join [dir, plugin]) then Some (path_join [dir, plugin])
      else find_in_dirs exists plugin dirs)"

definition plugin_args ::
  "(string \<Rightarrow> bool) \<Rightarrow> (string \<Rightarrow> string option) \<Rightarrow> string \<Rightarrow> string \<Rightarrow> string \<Rightarrow> string list \<Rightarrow> string list" where
  "plugin_args exists lookPath exeDir pluginPath pluginEnv args =
     (if args = [] \<and> pluginEnv \<noteq> '''' then
        (case find_in_dirs exists pluginEnv [path_join [exeDir, ''plugins''], pluginPath] of
           Some exe \<Rightarrow> [exe]
         | None \<Rightarrow> (case lookPath pluginEnv of Some p \<Rightarrow> [p] | None \<Rightarrow> []))
      else args)"

section \<open>The injected environment\<close>

fun inject_env :: "(string \<rightharpoonup> string) \<Rightarrow> string list \<Rightarrow> (string \<rightharpoonup> string) res" where
  "inject_env m [] = Inr m"
| "inject_env m (kv # raw) =
     (case cut (CHR ''='') kv of
        None \<Rightarrow> Inl (Errorf ''invalid --inject-env %q: expected KEY=VALUE'' [kv])
      | Some (k, v) \<Rightarrow>
          if k = '''' then Inl (Errorf ''invalid --inject-env %q: expected KEY=VALUE'' [kv])
          else inject_env (m(k \<mapsto> v)) raw)"

section \<open>Transport security\<close>

record tls_env =
  LoadKeyPair :: "string \<Rightarrow> string \<Rightarrow> string res"
  ReadCA :: "string \<Rightarrow> bytes res"
  ValidCA :: "bytes \<Rightarrow> bool"

text \<open>\<open>client_ca\<close> is the CA that client certificates have to be signed by (\<^verbatim>\<open>RequireAndVerifyClientCert\<close>).\<close>

record tls_config =
  certificate :: string
  client_ca :: "bytes option"
  root_ca :: "bytes option"



text \<open>The connection to a plugin named on the command line by \<^verbatim>\<open>grpc\<close>.\<close>

definition createNetGrpcPlugin_tls :: "tls_env \<Rightarrow> bool \<Rightarrow> string \<Rightarrow> string \<Rightarrow> string \<Rightarrow> tls_config option res" where
  "createNetGrpcPlugin_tls T insecure cert key cacert =
     (if insecure then Inr None
      else bind_res (LoadKeyPair T cert key) (\<lambda>clientCert.
        if cacert \<noteq> '''' then
          bind_res (ReadCA T cacert) (\<lambda>ca.
            if \<not> ValidCA T ca then Inl (Errorf ''failed to append ca'' [])
            else Inr (Some \<lparr>certificate = clientCert, client_ca = None, root_ca = Some ca\<rparr>))
        else Inr (Some \<lparr>certificate = clientCert, client_ca = None, root_ca = None\<rparr>)))"

section \<open>Logging options\<close>

definition isValidLogFormat :: "string \<Rightarrow> bool" where
  "isValidLogFormat f \<longleftrightarrow> f \<in> {''text'', ''json''}"

datatype level = LevelDebug | LevelInfo | LevelWarn | LevelError | LevelOther int

text \<open>\<open>toLower\<close> is \<^verbatim>\<open>strings.ToLower\<close>, \<open>unmarshal\<close> is \<^verbatim>\<open>slog.Level.UnmarshalText\<close>.\<close>

definition ParseLevel :: "(string \<Rightarrow> string) \<Rightarrow> (string \<Rightarrow> level res) \<Rightarrow> string \<Rightarrow> level \<times> goerr option" where
  "ParseLevel toLower unmarshal input =
     (let l = toLower input in
      if l = ''trace'' then (LevelDebug, None)
      else if l = ''warning'' then (LevelWarn, None)
      else if l \<in> {''panic'', ''fatal''} then (LevelError, None)
      else (case unmarshal input of Inl e \<Rightarrow> (LevelInfo, Some e) | Inr lv \<Rightarrow> (lv, None)))"

section \<open>Properties\<close>

lemma splitByDash_split_on:
  "splitByDash args = (a, rest) \<Longrightarrow>
     (''--'' \<notin> set args \<and> a = args \<and> rest = []) \<or> (split_on ''--'' args = a # split_on ''--'' rest \<and> ''--'' \<notin> set a)"
proof (induction args arbitrary: a rest)
  case (Cons x args)
  show ?case
  proof (cases "x = ''--''")
    case True
    then show ?thesis
      using Cons.prems by simp
  next
    case False
    then obtain a' where a': "splitByDash args = (a', rest)" "a = x # a'"
      using Cons.prems by (auto split: prod.splits)
    show ?thesis
      using Cons.IH [OF a'(1)] a'(2) False by auto
  qed
qed simp

text \<open>
  The command line is cut into plugin commands exactly at the double dashes.  The loop ends on every argument list,
  and its result is the non-empty pieces of the arguments between \<^verbatim>\<open>--\<close>: each plugin gets at least its executable, no plugin
  gets a double dash, and every other argument goes to exactly one plugin, in order.
\<close>

theorem plugin_commands_segments:
  "plugin_commands args = filter (\<lambda>c. c \<noteq> []) (split_on ''--'' args)
   \<and> concat (plugin_commands args) = filter (\<lambda>a. a \<noteq> ''--'') args"
proof -
  have eq: "plugin_commands args = filter (\<lambda>c. c \<noteq> []) (split_on ''--'' args)"
  proof (induction args rule: plugin_commands.induct)
    case (1 remain)
    show ?case
    proof (cases "remain = []")
      case False
      obtain a rest where s: "splitByDash remain = (a, rest)"
        by fastforce
      have IH: "plugin_commands rest = filter (\<lambda>c. c \<noteq> []) (split_on ''--'' rest)"
        using 1 s False by (cases "a = []") auto
      from splitByDash_split_on [OF s] show ?thesis
      proof
        assume "''--'' \<notin> set remain \<and> a = remain \<and> rest = []"
        then show ?thesis
          using False s by (simp add: plugin_commands.simps [of remain] split_on_single)
      next
        assume "split_on ''--'' remain = a # split_on ''--'' rest \<and> ''--'' \<notin> set a"
        then show ?thesis
          using False s IH by (simp add: plugin_commands.simps [of remain])
      qed
    qed simp
  qed
  have "concat (filter (\<lambda>c. c \<noteq> []) (split_on ''--'' args)) = filter (\<lambda>a. a \<noteq> ''--'') args"
  proof (induction args)
    case (Cons x args)
    obtain p ps where "split_on ''--'' args = p # ps"
      by (cases "split_on ''--'' args") auto
    with Cons show ?case
      by (cases "p = []") auto
  qed simp
  with eq show ?thesis
    by simp
qed


lemma inject_env_defined:
  assumes "inject_env m raw = Inr m'"
  shows "(\<forall>kv \<in> set raw. \<exists>k v. kv = k @ CHR ''='' # v \<and> k \<noteq> '''' \<and> k \<in> dom m') \<and> dom m \<subseteq> dom m'"
  using assms
proof (induction raw arbitrary: m)
  case (Cons kv raw)
  then obtain k v where c: "cut (CHR ''='') kv = Some (k, v)" "k \<noteq> ''''" "inject_env (m(k \<mapsto> v)) raw = Inr m'"
    by (auto split: option.splits if_splits)
  have "insert k (dom m) \<subseteq> dom m'"
    using Cons.IH [OF c(3)] dom_fun_upd [of m k "Some v"] by (metis option.distinct(1))
  then show ?case
    using Cons.IH [OF c(3)] cut_Some [OF c(1)] c(2) by auto
qed simp

text \<open>An argument that is not of the form \<^verbatim>\<open>KEY=VALUE\<close> stops the daemon.\<close>

lemma inject_env_rejects: "kv \<in> set raw \<Longrightarrow> CHR ''='' \<notin> set kv \<Longrightarrow> is_err (inject_env m raw)"
  using inject_env_defined [of m raw] by (cases "inject_env m raw") (auto simp: is_err_iff)

text \<open>The later of two values for the same variable wins.\<close>

lemma inject_env_last:
  assumes "CHR ''='' \<notin> set k" "k \<noteq> ''''"
  shows "inject_env m (raw @ [k @ CHR ''='' # v]) = bind_res (inject_env m raw) (\<lambda>m'. Inr (m'(k \<mapsto> v)))"
  using assms by (induction m raw rule: inject_env.induct) (auto split: option.split dest: cut_Some simp del: cut_None_iff)



end
