(* ===== verification/Skel.thy ===== *)
theory Skel
  imports Plugin_Server
begin

text \<open>
  The skeleton of the routing plugins (\<^verbatim>\<open>libplugin/skel/skel.go\<close>): a plugin lists its pipes, each pipe has
  \<open>from\<close> sides that match a connection and check a credential, and a match gives the \<open>to\<close> side from which
  the reply is made.

  A value of an interface type is a record of its methods.  A method that only some implementations have (a type assertion
  or a type switch tests for it) is an option.
\<close>

section \<open>Interfaces\<close>

record skel_to =
  to_Host :: "conn_meta \<Rightarrow> string"
  to_User :: "conn_meta \<Rightarrow> string"
  to_KnownHosts :: "conn_meta \<Rightarrow> bytes res"
  to_OverridePassword :: "(conn_meta \<Rightarrow> bytes option res) option"
  to_PrivateKey :: "(conn_meta \<Rightarrow> (bytes \<times> bytes) res) option"

record from_public_key =
  AuthorizedKeys :: "conn_meta \<Rightarrow> bytes res"
  TrustedUserCAKeys :: "conn_meta \<Rightarrow> bytes res"

record skel_from =
  MatchConn :: "conn_meta \<Rightarrow> skel_to option res"
  TestPassword :: "(conn_meta \<Rightarrow> bytes \<Rightarrow> bool res) option"
  from_PublicKey :: "from_public_key option"

type_synonym skel_pipe = "skel_from list"

type_synonym list_pipe = "conn_meta \<Rightarrow> skel_pipe list res"

text \<open>
  What the code uses of \<^verbatim>\<open>golang.org/x/crypto/ssh\<close>: parsing a key or certificate in wire form, checking a
  certificate, and taking one key (given by its wire form) off an \<^verbatim>\<open>authorized_keys\<close> text.
\<close>

record cert =
  CertType :: u32
  SignatureKey :: bytes

datatype public_key = PublicKey | CertificateKey cert

record skel_ssh =
  ParsePublicKey :: "bytes \<Rightarrow> public_key res"
  CheckCert :: "string \<Rightarrow> cert \<Rightarrow> goerr option"
  ParseAuthorizedKey :: "bytes \<Rightarrow> (bytes \<times> bytes) res"

abbreviation UserCert :: u32 where "UserCert \<equiv> 1"

section \<open>The plugin\<close>

definition method_of :: "skel_from \<Rightarrow> string" where
  "method_of from = (if from_PublicKey from \<noteq> None then ''publickey'' else ''password'')"

fun methods_of :: "skel_from list \<Rightarrow> string list \<Rightarrow> string list" where
  "methods_of [] ms = ms"
| "methods_of (from # froms) ms =
     (let ms' = List.insert (method_of from) ms
      in if length ms' = 2 then ms' else methods_of froms ms')"

text \<open>The final loop copies the keys of a map, so the order of the result is not specified.\<close>

definition SupportedMethods :: "list_pipe \<Rightarrow> conn_meta \<Rightarrow> string list res" where
  "SupportedMethods listPipe conn =
     bind_res (listPipe conn) (\<lambda>pipes. Inr (fold methods_of pipes []))"

text \<open>\<open>None\<close> is a run that does not return; \<open>verify\<close> may loop over the keys of a file.\<close>

fun match_froms ::
  "conn_meta \<Rightarrow> (skel_from \<Rightarrow> bool res option) \<Rightarrow> skel_from list \<Rightarrow> (skel_from \<times> skel_to) option res option" where
  "match_froms conn verify [] = Some (Inr None)"
| "match_froms conn verify (from # froms) =
     (case MatchConn from conn of
        Inl e \<Rightarrow> Some (Inl e)
      | Inr None \<Rightarrow> match_froms conn verify froms
      | Inr (Some to) \<Rightarrow>
          (case verify from of
             None \<Rightarrow> None
           | Some (Inl e) \<Rightarrow> Some (Inl e)
           | Some (Inr ok) \<Rightarrow> if ok then Some (Inr (Some (from, to))) else match_froms conn verify froms))"

fun match_pipes ::
  "conn_meta \<Rightarrow> (skel_from \<Rightarrow> bool res option) \<Rightarrow> skel_pipe list \<Rightarrow> (skel_from \<times> skel_to) option res option" where
  "match_pipes conn verify [] = Some (Inr None)"
| "match_pipes conn verify (pipe # pipes) =
     (case match_froms conn verify pipe of
        Some (Inr None) \<Rightarrow> match_pipes conn verify pipes
      | r \<Rightarrow> r)"

definition skel_match ::
  "list_pipe \<Rightarrow> conn_meta \<Rightarrow> (skel_from \<Rightarrow> bool res option) \<Rightarrow> (skel_from \<times> skel_to) res option" where
  "skel_match listPipe conn verify =
     (case listPipe conn of
        Inl e \<Rightarrow> Some (Inl e)
      | Inr pipes \<Rightarrow>
          (case match_pipes conn verify pipes of
             None \<Rightarrow> None
           | Some (Inl e) \<Rightarrow> Some (Inl e)
           | Some (Inr (Some m)) \<Rightarrow> Some (Inr m)
           | Some (Inr None) \<Rightarrow> Some (Inl (Errorf ''no matching pipe for username [%v] found'' [UserName conn]))))"

definition skel_createUpstream :: "conn_meta \<Rightarrow> skel_to \<Rightarrow> bytes \<Rightarrow> upstream res" where
  "skel_createUpstream conn to originalPassword =
     (case SplitHostPortForSSH (to_Host to conn) of
        (_, _, Some e) \<Rightarrow> Inl e
      | (host, port, None) \<Rightarrow>
          let user = (if to_User to conn = '''' then UserName conn else to_User to conn)
          in bind_res (to_KnownHosts to conn) (\<lambda>data.
               let u = empty_upstream\<lparr>Host := host, Port := port, UpUserName := user, KnownHostsData := data\<rparr>
               in case to_OverridePassword to of
                    Some f \<Rightarrow>
                      bind_res (f conn) (\<lambda>p.
                        Inr (u\<lparr>Auth := Some (CreatePasswordAuth (case p of Some q \<Rightarrow> q | None \<Rightarrow> originalPassword))\<rparr>))
                  | None \<Rightarrow>
                      (case to_PrivateKey to of
                         Some f \<Rightarrow>
                           bind_res (f conn) (\<lambda>(priv, c). Inr (u\<lparr>Auth := Some (CreatePrivateKeyAuth priv [c])\<rparr>))
                       | None \<Rightarrow> Inl (Errorf ''pipe to does not support any auth method'' []))))"

definition verify_password :: "conn_meta \<Rightarrow> bytes \<Rightarrow> skel_from \<Rightarrow> bool res option" where
  "verify_password conn password from =
     (case TestPassword from of None \<Rightarrow> Some (Inr False) | Some f \<Rightarrow> Some (f conn password))"

definition finish :: "conn_meta \<Rightarrow> bytes \<Rightarrow> (skel_from \<times> skel_to) res option \<Rightarrow> upstream option res option" where
  "finish conn password m =
     map_option (\<lambda>r. bind_res r (\<lambda>(_, to). bind_res (skel_createUpstream conn to password) (\<lambda>u. Inr (Some u)))) m"

definition skel_PasswordCallback :: "list_pipe \<Rightarrow> conn_meta \<Rightarrow> bytes \<Rightarrow> upstream option res option" where
  "skel_PasswordCallback listPipe conn password =
     finish conn password (skel_match listPipe conn (verify_password conn password))"

text \<open>The loop over the keys of a file, looking for the wire form \<open>wanted\<close>.\<close>

partial_function (option) key_loop :: "skel_ssh \<Rightarrow> bytes \<Rightarrow> bytes \<Rightarrow> bool res option" where
  "key_loop X wanted rest =
     (if rest = [] then Some (Inr False)
      else case ParseAuthorizedKey X rest of
             Inl e \<Rightarrow> Some (Inl e)
           | Inr (k, rest') \<Rightarrow> if k = wanted then Some (Inr True) else key_loop X wanted rest')"

definition verify_key :: "skel_ssh \<Rightarrow> conn_meta \<Rightarrow> bytes \<Rightarrow> public_key \<Rightarrow> skel_from \<Rightarrow> bool res option" where
  "verify_key X conn publicKey pubKey from =
     (case from_PublicKey from of
        None \<Rightarrow> Some (Inr False)
      | Some pk \<Rightarrow>
          (case pubKey of
             CertificateKey pkcert \<Rightarrow>
               (case TrustedUserCAKeys pk conn of
                  Inl e \<Rightarrow> Some (Inl e) | Inr rest \<Rightarrow> key_loop X (SignatureKey pkcert) rest)
           | PublicKey \<Rightarrow>
               (case AuthorizedKeys pk conn of
                  Inl e \<Rightarrow> Some (Inl e) | Inr rest \<Rightarrow> key_loop X publicKey rest)))"

definition skel_PublicKeyCallback :: "skel_ssh \<Rightarrow> list_pipe \<Rightarrow> conn_meta \<Rightarrow> bytes \<Rightarrow> upstream option res option" where
  "skel_PublicKeyCallback X listPipe conn publicKey =
     (case ParsePublicKey X publicKey of
        Inl e \<Rightarrow> Some (Inl e)
      | Inr pubKey \<Rightarrow>
          (case (case pubKey of
                   CertificateKey pkcert \<Rightarrow>
                     if CertType pkcert \<noteq> UserCert
                     then Some (Errorf ''only user certificates are supported, cert type: %v'' [itoa (uint (CertType pkcert))])
                     else CheckCert X (UserName conn) pkcert
                 | PublicKey \<Rightarrow> None) of
             Some e \<Rightarrow> Some (Inl e)
           | None \<Rightarrow> finish conn [] (skel_match listPipe conn (verify_key X conn publicKey pubKey))))"

section \<open>The first pipe that accepts\<close>

definition skips :: "conn_meta \<Rightarrow> (skel_from \<Rightarrow> bool res option) \<Rightarrow> skel_from \<Rightarrow> bool" where
  "skips conn verify from \<longleftrightarrow>
     MatchConn from conn = Inr None \<or> (\<exists>to. MatchConn from conn = Inr (Some to)) \<and> verify from = Some (Inr False)"

definition accepts :: "conn_meta \<Rightarrow> (skel_from \<Rightarrow> bool res option) \<Rightarrow> skel_from \<Rightarrow> skel_to \<Rightarrow> bool" where
  "accepts conn verify from to \<longleftrightarrow> MatchConn from conn = Inr (Some to) \<and> verify from = Some (Inr True)"

lemma match_froms_Cons:
  "match_froms conn verify (from # froms) = Some (Inr (Some (f, t))) \<longleftrightarrow>
     (f = from \<and> accepts conn verify from t) \<or> (skips conn verify from \<and> match_froms conn verify froms = Some (Inr (Some (f, t))))"
  by (auto simp: accepts_def skips_def split: sum.split option.split)

lemma match_froms_append:
  "match_froms conn verify (a @ b) =
     (case match_froms conn verify a of Some (Inr None) \<Rightarrow> match_froms conn verify b | r \<Rightarrow> r)"
  by (induction a) (auto split: sum.split option.split)

lemma match_pipes_concat: "match_pipes conn verify pipes = match_froms conn verify (concat pipes)"
  by (induction pipes) (auto simp: match_froms_append split: sum.split option.split)

lemma match_froms_first:
  "match_froms conn verify froms = Some (Inr (Some (f, t))) \<longleftrightarrow>
     (\<exists>pre post. froms = pre @ f # post \<and> (\<forall>g \<in> set pre. skips conn verify g) \<and> accepts conn verify f t)"
proof (induction froms)
  case (Cons fr froms)
  show ?case
  proof (cases "skips conn verify fr")
    case True
    then have "\<not> accepts conn verify fr t" for t
      by (auto simp: skips_def accepts_def)
    with True show ?thesis
      unfolding match_froms_Cons Cons.IH
      by (auto simp: Cons_eq_append_conv) (metis append_Cons set_ConsD)+
  next
    case False
    then show ?thesis
      unfolding match_froms_Cons by (auto simp: Cons_eq_append_conv)
  qed
qed simp

lemma match_froms_returns:
  assumes "\<And>f. f \<in> set froms \<Longrightarrow> verify f \<noteq> None"
  shows "match_froms conn verify froms \<noteq> None"
  using assms
proof (induction froms)
  case (Cons fr froms)
  obtain r where "verify fr = Some r"
    using Cons.prems [of fr] by auto
  moreover have "match_froms conn verify froms \<noteq> None"
    using Cons by simp
  ultimately show ?case
    by (simp split: sum.split option.split)
qed simp

lemma skel_match_first:
  "skel_match lp conn verify = Some (Inr (f, t)) \<longleftrightarrow>
     (\<exists>pipes pre post. lp conn = Inr pipes \<and> concat pipes = pre @ f # post
        \<and> (\<forall>g \<in> set pre. skips conn verify g) \<and> accepts conn verify f t)"
proof -
  have "skel_match lp conn verify = Some (Inr (f, t)) \<longleftrightarrow>
      (\<exists>pipes. lp conn = Inr pipes \<and> match_froms conn verify (concat pipes) = Some (Inr (Some (f, t))))"
    by (auto simp: skel_match_def match_pipes_concat split: option.split sum.split)
  then show ?thesis
    unfolding match_froms_first by blast
qed

lemma skel_match_mem:
  assumes "skel_match lp conn verify = Some (Inr (f, t))"
  obtains pipes where "lp conn = Inr pipes" "f \<in> set (concat pipes)" "accepts conn verify f t"
  using assms unfolding skel_match_first by (metis in_set_conv_decomp)

lemma skel_match_returns: "(\<And>f. verify f \<noteq> None) \<Longrightarrow> skel_match lp conn verify \<noteq> None"
  by (cases "lp conn")
    (auto simp: skel_match_def match_pipes_concat match_froms_returns split: option.split sum.split)

section \<open>The keys of a file\<close>

inductive listed :: "skel_ssh \<Rightarrow> bytes \<Rightarrow> bytes \<Rightarrow> bool" for X where
  listed_here: "rest \<noteq> [] \<Longrightarrow> ParseAuthorizedKey X rest = Inr (k, rest') \<Longrightarrow> listed X rest k"
| listed_later: "rest \<noteq> [] \<Longrightarrow> ParseAuthorizedKey X rest = Inr (k', rest') \<Longrightarrow> listed X rest' k \<Longrightarrow> listed X rest k"

lemma not_listed_Nil: "\<not> listed X [] k"
  by (subst listed.simps) simp

lemma listed_key_loop: "listed X rest k \<Longrightarrow> key_loop X k rest = Some (Inr True)"
  by (induction rule: listed.induct) (subst key_loop.simps, simp)+

lemma key_loop_listed:
  "key_loop X k rest = Some r \<Longrightarrow> r = Inr True \<longrightarrow> listed X rest k"
proof (rule key_loop.raw_induct [where P = "\<lambda>X k rest r. r = Inr True \<longrightarrow> listed X rest k"])
  fix loop X k rest r
  assume "\<And>X k rest r. loop X k rest = Some r \<Longrightarrow> r = Inr True \<longrightarrow> listed X rest k"
    "(if rest = [] then Some (Inr False)
      else case ParseAuthorizedKey X rest of
             Inl e \<Rightarrow> Some (Inl e)
           | Inr (k', rest') \<Rightarrow> if k' = k then Some (Inr True) else loop X k rest') = Some r"
  then show "r = Inr True \<longrightarrow> listed X rest k"
    by (auto split: if_splits sum.splits) (blast intro: listed_here listed_later)+
qed

lemma key_loop_iff: "key_loop X k rest = Some (Inr True) \<longleftrightarrow> listed X rest k"
  using key_loop_listed listed_key_loop by blast

definition consuming :: "skel_ssh \<Rightarrow> bool" where
  "consuming X \<longleftrightarrow> (\<forall>b k r. ParseAuthorizedKey X b = Inr (k, r) \<longrightarrow> length r < length b)"

lemma key_loop_returns: "consuming X \<Longrightarrow> key_loop X k rest \<noteq> None"
proof (induction "length rest" arbitrary: rest rule: less_induct)
  case less
  have "key_loop X k rest' \<noteq> None" if "ParseAuthorizedKey X rest = Inr (k', rest')" for k' rest'
    using less that by (auto simp: consuming_def)
  then show ?case
    by (subst key_loop.simps) (auto split: sum.split)
qed

section \<open>What a credential is accepted for\<close>

text \<open>The keys a \<open>from\<close> side allows, stated on the keys its files list.\<close>

definition key_allowed :: "skel_ssh \<Rightarrow> conn_meta \<Rightarrow> bytes \<Rightarrow> skel_from \<Rightarrow> bool" where
  "key_allowed X conn key from \<longleftrightarrow>
     (\<exists>pk data. from_PublicKey from = Some pk \<and>
       (ParsePublicKey X key = Inr PublicKey \<and> AuthorizedKeys pk conn = Inr data \<and> listed X data key
        \<or> (\<exists>c. ParsePublicKey X key = Inr (CertificateKey c) \<and> CertType c = UserCert \<and> CheckCert X (UserName conn) c = None
             \<and> TrustedUserCAKeys pk conn = Inr data \<and> listed X data (SignatureKey c))))"

fun cert_ok :: "skel_ssh \<Rightarrow> conn_meta \<Rightarrow> public_key \<Rightarrow> bool" where
  "cert_ok X conn (CertificateKey c) \<longleftrightarrow> CertType c = UserCert \<and> CheckCert X (UserName conn) c = None"
| "cert_ok X conn PublicKey \<longleftrightarrow> True"

lemma verify_key_allowed:
  assumes "ParsePublicKey X key = Inr pubKey" "cert_ok X conn pubKey"
  shows "verify_key X conn key pubKey from = Some (Inr True) \<longleftrightarrow> key_allowed X conn key from"
  using assms
  by (cases pubKey) (auto simp: verify_key_def key_allowed_def key_loop_iff split: option.split sum.split)

lemma finish_Inr:
  "finish conn password m = Some (Inr ou) \<longleftrightarrow>
     (\<exists>from to u. m = Some (Inr (from, to)) \<and> skel_createUpstream conn to password = Inr u \<and> ou = Some u)"
  by (auto simp: finish_def bind_res_eq_Inr)

lemma finish_returns: "m \<noteq> None \<Longrightarrow> finish conn password m \<noteq> None"
  by (auto simp: finish_def)

lemma publickey_callback_returns:
  assumes "consuming X"
  shows "skel_PublicKeyCallback X lp conn key \<noteq> None"
proof -
  have "verify_key X conn key pubKey f \<noteq> None" for pubKey f
    using key_loop_returns [OF assms]
    by (cases pubKey) (simp_all add: verify_key_def split: option.split sum.split)
  then have "finish conn [] (skel_match lp conn (verify_key X conn key pubKey)) \<noteq> None" for pubKey
    by (intro finish_returns skel_match_returns)
  then show ?thesis
    by (auto simp: skel_PublicKeyCallback_def split: sum.split option.split)
qed

lemma publickey_callback_accepts:
  assumes "skel_PublicKeyCallback X lp conn key = Some (Inr ou)"
  obtains pubKey fr to u where
    "ParsePublicKey X key = Inr pubKey" "cert_ok X conn pubKey"
    "skel_match lp conn (verify_key X conn key pubKey) = Some (Inr (fr, to))"
    "skel_createUpstream conn to [] = Inr u" "ou = Some u"
proof -
  obtain pubKey where p: "ParsePublicKey X key = Inr pubKey"
    using assms by (cases "ParsePublicKey X key") (auto simp: skel_PublicKeyCallback_def)
  have c: "cert_ok X conn pubKey"
    using assms p by (cases pubKey) (auto simp: skel_PublicKeyCallback_def split: if_splits option.splits)
  then have "finish conn [] (skel_match lp conn (verify_key X conn key pubKey)) = Some (Inr ou)"
    using assms p by (cases pubKey) (auto simp: skel_PublicKeyCallback_def)
  then show thesis
    unfolding finish_Inr using that [OF p c] by blast
qed

text \<open>
  C6: a routing plugin always answers a public key, provided the SSH library takes at least one byte off the file for each key it
  returns.  If the answer is an upstream, then it is the one made from the first pipe, in the order the plugin
  lists them, that matches the connection and allows the key: the key itself is listed in the authorised keys of that
  pipe, or it is a valid user certificate for the client's user name and the key that signed it is listed in the pipe's trusted
  authorities.  Everything else is an error, and no upstream is made for it.
\<close>

theorem publickey_first_authorised:
  assumes "consuming X"
  shows "\<exists>r. skel_PublicKeyCallback X lp conn key = Some r \<and>
    (\<forall>ou. r = Inr ou \<longrightarrow>
      (\<exists>pipes pre from post to u.
         lp conn = Inr pipes \<and> concat pipes = pre @ from # post
         \<and> (\<forall>g \<in> set pre. MatchConn g conn = Inr None \<or> \<not> key_allowed X conn key g)
         \<and> MatchConn from conn = Inr (Some to) \<and> key_allowed X conn key from
         \<and> skel_createUpstream conn to [] = Inr u \<and> ou = Some u))"
proof -
  obtain r where r: "skel_PublicKeyCallback X lp conn key = Some r"
    using publickey_callback_returns [OF assms] by blast
  have "\<exists>pipes pre from post to u. lp conn = Inr pipes \<and> concat pipes = pre @ from # post
         \<and> (\<forall>g \<in> set pre. MatchConn g conn = Inr None \<or> \<not> key_allowed X conn key g)
         \<and> MatchConn from conn = Inr (Some to) \<and> key_allowed X conn key from
         \<and> skel_createUpstream conn to [] = Inr u \<and> ou = Some u" if "r = Inr ou" for ou
  proof -
    have cb: "skel_PublicKeyCallback X lp conn key = Some (Inr ou)"
      using r that by simp
    obtain pubKey fr to u where p: "ParsePublicKey X key = Inr pubKey" "cert_ok X conn pubKey"
      "skel_match lp conn (verify_key X conn key pubKey) = Some (Inr (fr, to))"
      "skel_createUpstream conn to [] = Inr u" "ou = Some u"
      by (rule publickey_callback_accepts [OF cb])
    obtain pipes pre post where m: "lp conn = Inr pipes" "concat pipes = pre @ fr # post"
      "\<forall>g \<in> set pre. skips conn (verify_key X conn key pubKey) g" "accepts conn (verify_key X conn key pubKey) fr to"
      using p(3) unfolding skel_match_first by blast
    note allowed = verify_key_allowed [OF p(1,2)]
    have "\<forall>g \<in> set pre. MatchConn g conn = Inr None \<or> \<not> key_allowed X conn key g"
      using m(3) by (auto simp: skips_def allowed [symmetric])
    moreover have "MatchConn fr conn = Inr (Some to)" "key_allowed X conn key fr"
      using m(4) by (auto simp: accepts_def allowed)
    ultimately show ?thesis
      using m(1,2) p(4,5) by blast
  qed
  then show ?thesis
    using r by blast
qed

text \<open>An example: keys of one byte each, one per line of two bytes.\<close>

definition demo_skel_ssh :: skel_ssh where
  "demo_skel_ssh = \<lparr>ParsePublicKey = \<lambda>b. Inr PublicKey, CheckCert = \<lambda>_ _. None,
     ParseAuthorizedKey = \<lambda>b. case b of k # n # r \<Rightarrow> Inr ([k], r) | _ \<Rightarrow> Inl (Errorf ''no key found'' [])\<rparr>"

definition demo_skel_to :: skel_to where
  "demo_skel_to = \<lparr>to_Host = \<lambda>_. ''h:22'', to_User = \<lambda>_. '''', to_KnownHosts = \<lambda>_. Inr [7],
     to_OverridePassword = None, to_PrivateKey = Some (\<lambda>_. Inr ([8], []))\<rparr>"

definition demo_from :: "bytes \<Rightarrow> skel_from" where
  "demo_from ks = \<lparr>MatchConn = \<lambda>_. Inr (Some demo_skel_to), TestPassword = None,
     from_PublicKey = Some \<lparr>AuthorizedKeys = \<lambda>_. Inr ks, TrustedUserCAKeys = \<lambda>_. Inr []\<rparr>\<rparr>"

definition demo_meta :: conn_meta where
  "demo_meta = \<lparr>UserName = ''u'', FromAddr = ''a'', UniqId = ''i'', Metadata = Map.empty\<rparr>"

lemma demo_skel_ssh_consuming: "consuming demo_skel_ssh"
  by (auto simp: consuming_def demo_skel_ssh_def split: list.splits)

theorem publickey_first_authorised_witness:
  "\<exists>r. skel_PublicKeyCallback demo_skel_ssh (\<lambda>_. Inr [[demo_from [1, 10]], [demo_from [2, 10, 3, 10]]]) demo_meta [9] = Some (Inl r)"
proof -
  let ?lp = "\<lambda>_. Inr [[demo_from [1, 10]], [demo_from [2, 10, 3, 10]]]"
  have step: "listed demo_skel_ssh (a # b # rest) k \<longleftrightarrow> k = [a] \<or> listed demo_skel_ssh rest k" for a b rest k
    by (subst listed.simps) (auto simp: demo_skel_ssh_def)
  have nil: "\<not> listed demo_skel_ssh [] k" for k
    by (subst listed.simps) simp
  have "\<not> key_allowed demo_skel_ssh demo_meta [9] (demo_from d)" if "d \<in> {[1, 10], [2, 10, 3, 10]}" for d
  proof -
    have "\<not> listed demo_skel_ssh d [9]"
      using that by (auto simp: step nil)
    then show ?thesis
      by (simp add: key_allowed_def demo_from_def demo_skel_ssh_def)
  qed
  then have none: "\<not> key_allowed demo_skel_ssh demo_meta [9] f" if "f \<in> set (concat [[demo_from [1, 10]], [demo_from [2, 10, 3, 10]]])" for f
    using that by auto
  obtain r where r: "skel_PublicKeyCallback demo_skel_ssh ?lp demo_meta [9] = Some r"
    and a: "\<forall>ou. r = Inr ou \<longrightarrow> (\<exists>pipes pre from post. ?lp demo_meta = Inr pipes \<and> concat pipes = pre @ from # post
      \<and> key_allowed demo_skel_ssh demo_meta [9] from)"
    using publickey_first_authorised [OF demo_skel_ssh_consuming, of ?lp demo_meta "[9]"] by blast
  show ?thesis
  proof (cases r)
    case (Inr ou)
    then obtain pre fr post where "concat [[demo_from [1, 10]], [demo_from [2, 10, 3, 10]]] = pre @ fr # post"
      "key_allowed demo_skel_ssh demo_meta [9] fr"
      using a by auto
    then show ?thesis
      using none [of fr] by simp
  qed (use r in simp)
qed

lemma createUpstream_host:
  assumes "skel_createUpstream conn to password = Inr u"
  shows "to_KnownHosts to conn = Inr (KnownHostsData u)"
    "UpUserName u = (if to_User to conn = '''' then UserName conn else to_User to conn)"
    "SplitHostPortForSSH (to_Host to conn) = (Host u, Port u, None)"
  using assms
  by (auto simp: skel_createUpstream_def Let_def bind_res_eq_Inr empty_upstream_def split: prod.splits option.splits)

lemma skel_password_accepts:
  assumes "skel_PasswordCallback lp conn password = Some (Inr ou)"
  obtains fr to u where "skel_match lp conn (verify_password conn password) = Some (Inr (fr, to))"
    "skel_createUpstream conn to password = Inr u" "ou = Some u"
  using assms unfolding skel_PasswordCallback_def finish_Inr by blast

lemma skel_accepts:
  assumes "skel_PublicKeyCallback X lp conn cred = Some (Inr ou) \<or> skel_PasswordCallback lp conn cred = Some (Inr ou)"
  obtains verify fr to pw u where "skel_match lp conn verify = Some (Inr (fr, to))" "skel_createUpstream conn to pw = Inr u" "ou = Some u"
  using assms
proof
  assume a: "skel_PublicKeyCallback X lp conn cred = Some (Inr ou)"
  show thesis
    by (rule publickey_callback_accepts [OF a]) (rule that)
next
  assume a: "skel_PasswordCallback lp conn cred = Some (Inr ou)"
  show thesis
    by (rule skel_password_accepts [OF a]) (rule that)
qed

section \<open>Contract of a routing plugin\<close>

text \<open>
  What the skeleton relies on: every \<open>from\<close> side checks either a password or a public key, and every \<open>to\<close> side
  authenticates in one way.  Then the methods the plugin announces are the ones it can accept.
\<close>

abbreviation method_names2 :: "string set" where
  "method_names2 \<equiv> {''publickey'', ''password''}"

lemma method_of_in: "method_of f \<in> method_names2"
  by (simp add: method_of_def)

lemma methods_of_set:
  assumes "set ms \<subseteq> method_names2" "distinct ms"
  shows "set (methods_of froms ms) = set ms \<union> method_of ` set froms"
  using assms
proof (induction froms arbitrary: ms)
  case (Cons fr froms)
  let ?ms = "List.insert (method_of fr) ms"
  have s: "set ?ms = insert (method_of fr) (set ms)"
    by simp
  have ms: "set ?ms \<subseteq> method_names2" "distinct ?ms"
    using Cons.prems method_of_in [of fr] unfolding s by simp_all
  show ?case
  proof (cases "length ?ms = 2")
    case True
    then have "card (set ?ms) = card method_names2"
      using distinct_card [OF ms(2)] by simp
    then have "set ?ms = method_names2"
      by (intro card_subset_eq ms(1)) simp_all
    moreover have "methods_of (fr # froms) ms = ?ms"
      using True by simp
    moreover have "method_of ` set froms \<subseteq> method_names2"
      using method_of_in by blast
    ultimately show ?thesis
      using s by auto
  next
    case False
    then show ?thesis
      using Cons.IH [OF ms] s by simp
  qed
qed simp

lemma methods_of_distinct: "distinct ms \<Longrightarrow> distinct (methods_of froms ms)"
  by (induction froms ms rule: methods_of.induct) (auto simp: Let_def)

lemma SupportedMethods_set:
  assumes "SupportedMethods lp conn = Inr ms" "lp conn = Inr pipes"
  shows "distinct ms" "set ms = method_of ` set (concat pipes)"
proof -
  have "set ms0 \<subseteq> method_names2 \<Longrightarrow> distinct ms0 \<Longrightarrow>
      distinct (fold methods_of pipes ms0) \<and> set (fold methods_of pipes ms0) = set ms0 \<union> method_of ` set (concat pipes)" for ms0
  proof (induction pipes arbitrary: ms0)
    case (Cons p pipes)
    have s: "set (methods_of p ms0) = set ms0 \<union> method_of ` set p"
      by (rule methods_of_set [OF Cons.prems])
    then have "set (methods_of p ms0) \<subseteq> method_names2"
      using Cons.prems(1) method_of_in by blast
    from Cons.IH [OF this methods_of_distinct [OF Cons.prems(2)]] show ?case
      by (auto simp: s)
  qed simp
  from this [of "[]"] assms
  show "distinct ms" "set ms = method_of ` set (concat pipes)"
    by (auto simp: SupportedMethods_def)
qed

locale skel_plugin =
  fixes listPipe :: list_pipe
  assumes one_credential: "listPipe conn = Inr pipes \<Longrightarrow> from \<in> set (concat pipes) \<Longrightarrow>
      TestPassword from = None \<longleftrightarrow> from_PublicKey from \<noteq> None"
    and one_auth: "listPipe conn = Inr pipes \<Longrightarrow> from \<in> set (concat pipes) \<Longrightarrow> MatchConn from conn = Inr (Some to) \<Longrightarrow>
      to_OverridePassword to = None \<longleftrightarrow> to_PrivateKey to \<noteq> None"
begin

lemma password_announced:
  assumes "SupportedMethods listPipe conn = Inr ms" "skel_PasswordCallback listPipe conn password = Some (Inr ou)"
  shows "''password'' \<in> set ms"
proof -
  obtain fr to where "skel_match listPipe conn (verify_password conn password) = Some (Inr (fr, to))"
    using assms(2) by (auto simp: skel_PasswordCallback_def finish_Inr)
  then obtain pipes where m: "listPipe conn = Inr pipes" "fr \<in> set (concat pipes)" "accepts conn (verify_password conn password) fr to"
    by (rule skel_match_mem)
  then have "TestPassword fr \<noteq> None"
    by (auto simp: accepts_def verify_password_def split: option.splits)
  then have "from_PublicKey fr = None"
    using one_credential [OF m(1,2)] by metis
  then have "method_of fr = ''password''"
    by (simp add: method_of_def)
  then show ?thesis
    using SupportedMethods_set(2) [OF assms(1) m(1)] m(2) by (metis imageI)
qed

lemma publickey_announced:
  assumes "SupportedMethods listPipe conn = Inr ms" "skel_PublicKeyCallback X listPipe conn key = Some (Inr ou)"
  shows "''publickey'' \<in> set ms"
proof -
  obtain pubKey fr to u where "skel_match listPipe conn (verify_key X conn key pubKey) = Some (Inr (fr, to))"
    by (rule publickey_callback_accepts [OF assms(2)])
  then obtain pipes where m: "listPipe conn = Inr pipes" "fr \<in> set (concat pipes)" "accepts conn (verify_key X conn key pubKey) fr to"
    by (rule skel_match_mem)
  then have "from_PublicKey fr \<noteq> None"
    by (auto simp: accepts_def verify_key_def split: option.splits)
  then have "method_of fr = ''publickey''"
    by (simp add: method_of_def)
  then show ?thesis
    using SupportedMethods_set(2) [OF assms(1) m(1)] m(2) by (metis imageI)
qed

lemma auth_supported:
  assumes "listPipe conn = Inr pipes" "from \<in> set (concat pipes)" "MatchConn from conn = Inr (Some to)"
    "SplitHostPortForSSH (to_Host to conn) = (host, port, None)" "to_KnownHosts to conn = Inr data"
    "\<And>f. to_OverridePassword to = Some f \<Longrightarrow> \<exists>p. f conn = Inr p" "\<And>f. to_PrivateKey to = Some f \<Longrightarrow> \<exists>k. f conn = Inr k"
  shows "\<exists>u. skel_createUpstream conn to password = Inr u"
proof (cases "to_OverridePassword to")
  case None
  then obtain f k c where "to_PrivateKey to = Some f" "f conn = Inr (k, c)"
    using one_auth [OF assms(1-3)] assms(7) by (metis not_None_eq old.prod.exhaust)
  with None show ?thesis
    using assms(4,5) by (simp add: skel_createUpstream_def Let_def)
next
  case (Some f)
  then show ?thesis
    using assms(4,5,6) by (fastforce simp: skel_createUpstream_def Let_def)
qed

end

end
