(* ===== verification/Yaml_Plugin.thy ===== *)
theory Yaml_Plugin
  imports Skel Go_Path
begin

text \<open>
  The yaml plugin (\<^verbatim>\<open>plugin/yaml/yaml.go\<close>, \<^verbatim>\<open>skel.go\<close>): pipes read from configuration files, matched by user name,
  regular expression or group, with keys and known hosts from files whose paths may hold placeholders.

  Parameters (\<open>yaml_env\<close>) are the operating system (files, environment, users and groups), the yaml and base64 decoders
  and the regular expressions.  \<^verbatim>\<open>os.Expand\<close> is modelled: \<open>expand_tokens\<close> splits a path into literal text and
  placeholder names.
\<close>

section \<open>os.Expand\<close>

definition isShellSpecialVar :: "char \<Rightarrow> bool" where
  "isShellSpecialVar c \<longleftrightarrow> c \<in> set ''*#$@!?-'' \<or> is_digit c"

definition isAlphaNum :: "char \<Rightarrow> bool" where
  "isAlphaNum c \<longleftrightarrow> c = CHR ''_'' \<or> is_digit c
     \<or> (97 \<le> (of_char c :: int) \<and> (of_char c :: int) \<le> 122) \<or> (65 \<le> (of_char c :: int) \<and> (of_char c :: int) \<le> 90)"

text \<open>The name after a dollar sign and the number of bytes it takes; the argument is not empty.\<close>

definition getShellName :: "string \<Rightarrow> string \<times> nat" where
  "getShellName s =
     (if hd s = CHR ''{'' then
        if length s > 2 \<and> isShellSpecialVar (s ! 1) \<and> s ! 2 = CHR ''}'' then ([s ! 1], 3)
        else (case index_byte (CHR ''}'') (tl s) of
                Some 0 \<Rightarrow> ('''', 2)
              | Some n \<Rightarrow> (take n (tl s), n + 2)
              | None \<Rightarrow> ('''', 1))
      else if isShellSpecialVar (hd s) then ([hd s], 1)
      else (takeWhile isAlphaNum s, length (takeWhile isAlphaNum s)))"

datatype token = Lit char | Placeholder string

function expand_tokens :: "string \<Rightarrow> token list" where
  "expand_tokens [] = []"
| "expand_tokens (c # s) =
     (if c = CHR ''$'' \<and> s \<noteq> [] then
        (case getShellName s of
           (name, w) \<Rightarrow>
             (if name = '''' \<and> w > 0 then [] else if name = '''' then [Lit c] else [Placeholder name])
             @ expand_tokens (drop w s))
      else Lit c # expand_tokens s)"
  by pat_completeness auto

termination
  by (relation "measure length") auto

fun expand_token :: "(string \<Rightarrow> string) \<Rightarrow> token \<Rightarrow> string" where
  "expand_token f (Lit c) = [c]"
| "expand_token f (Placeholder n) = f n"

definition os_expand :: "(string \<Rightarrow> string) \<Rightarrow> string \<Rightarrow> string" where
  "os_expand f s = concat (map (expand_token f) (expand_tokens s))"

fun placeholder :: "token \<Rightarrow> string list" where
  "placeholder (Lit c) = []"
| "placeholder (Placeholder n) = [n]"

text \<open>The names the mapping function is called with, in order.\<close>

definition expand_names :: "string \<Rightarrow> string list" where
  "expand_names s = concat (map placeholder (expand_tokens s))"

section \<open>Configuration\<close>

record listOrString =
  LList :: "string list"
  LStr :: string
  present :: bool

definition Any :: "listOrString \<Rightarrow> bool" where
  "Any l \<longleftrightarrow> LList l \<noteq> [] \<or> LStr l \<noteq> ''''"

definition Configured :: "listOrString \<Rightarrow> bool" where
  "Configured l \<longleftrightarrow> present l \<or> Any l"

definition Combine :: "listOrString \<Rightarrow> string list" where
  "Combine l = (if LStr l \<noteq> '''' then LList l @ [LStr l] else LList l)"

record yamlPipeFrom =
  yf_Username :: string
  yf_Groupname :: string
  yf_UsernameRegexMatch :: bool
  yf_AuthorizedKeys :: listOrString
  yf_AuthorizedKeysData :: listOrString
  yf_TrustedUserCAKeys :: listOrString
  yf_TrustedUserCAKeysData :: listOrString

definition SupportPublicKey :: "yamlPipeFrom \<Rightarrow> bool" where
  "SupportPublicKey f \<longleftrightarrow>
     Any (yf_AuthorizedKeys f) \<or> Any (yf_AuthorizedKeysData f) \<or> Any (yf_TrustedUserCAKeys f) \<or> Any (yf_TrustedUserCAKeysData f)"

record yamlPipeTo =
  yt_Username :: string
  yt_Host :: string
  yt_Password :: string
  yt_PrivateKey :: string
  yt_PrivateKeyData :: string
  yt_KnownHosts :: listOrString
  yt_KnownHostsData :: listOrString

record yamlPipe =
  yp_From :: "yamlPipeFrom list"
  yp_To :: yamlPipeTo

record piperConfig =
  Pipes :: "yamlPipe list"
  filename :: string

record regexp =
  MatchString :: "string \<Rightarrow> bool"
  ReplaceAllString :: "string \<Rightarrow> string \<Rightarrow> string"

datatype user_lookup = UnknownUser | LookupError goerr | KnownUser

record yaml_env =
  regexp_Compile :: "string \<Rightarrow> regexp res"
  user_Lookup :: "string \<Rightarrow> user_lookup"
  user_GroupIds :: "string \<Rightarrow> string list res"
  user_LookupGroupId :: "string \<Rightarrow> string res"
  os_Getenv :: "string \<Rightarrow> string"
  os_ReadFile :: "string \<Rightarrow> bytes res"
  os_OpenStat :: "string \<Rightarrow> u32 res"
  base64_Decode :: "string \<Rightarrow> bytes res"
  filepath_Glob :: "string \<Rightarrow> string list res"
  yaml_Unmarshal :: "bytes \<Rightarrow> piperConfig res"

definition checkPerm :: "yaml_env \<Rightarrow> bool \<Rightarrow> string \<Rightarrow> unit res" where
  "checkPerm Y noCheckPerm file =
     bind_res (os_OpenStat Y file) (\<lambda>perm.
       if noCheckPerm then Inr ()
       else if perm AND 63 \<noteq> 0 then Inl (Errorf ''%v's perm is too open'' [file])
       else Inr ())"

fun load_files :: "yaml_env \<Rightarrow> bool \<Rightarrow> string list \<Rightarrow> piperConfig list res" where
  "load_files Y noCheckPerm [] = Inr []"
| "load_files Y noCheckPerm (file # files) =
     bind_res (checkPerm Y noCheckPerm file) (\<lambda>_.
     bind_res (os_ReadFile Y file) (\<lambda>configbyte.
     bind_res (yaml_Unmarshal Y configbyte) (\<lambda>config.
     bind_res (load_files Y noCheckPerm files) (\<lambda>rest.
     Inr (config\<lparr>filename := file\<rparr> # rest)))))"

fun loadConfig :: "yaml_env \<Rightarrow> bool \<Rightarrow> string list \<Rightarrow> piperConfig list res" where
  "loadConfig Y noCheckPerm [] = Inr []"
| "loadConfig Y noCheckPerm (fg # fgs) =
     bind_res (filepath_Glob Y fg) (\<lambda>files.
     bind_res (load_files Y noCheckPerm files) (\<lambda>cs.
     bind_res (loadConfig Y noCheckPerm fgs) (\<lambda>rest. Inr (cs @ rest))))"

definition isPathSafeValue :: "string \<Rightarrow> bool" where
  "isPathSafeValue v \<longleftrightarrow> CHR ''/'' \<notin> set v \<and> CHR 0x5C \<notin> set v \<and> v \<noteq> DotDot \<and> v \<noteq> Dot"

text \<open>The first placeholder with an unsafe value fails the expansion.\<close>

definition expand_path :: "yaml_env \<Rightarrow> strmap \<Rightarrow> string \<Rightarrow> string res" where
  "expand_path Y vars file =
     (case find (\<lambda>n. case vars n of Some v \<Rightarrow> \<not> isPathSafeValue v | None \<Rightarrow> False) (expand_names file) of
        Some n \<Rightarrow> Inl (Errorf ''value of placeholder %v is not allowed to be used in a path: %q'' [n, the (vars n)])
      | None \<Rightarrow> Inr (os_expand (\<lambda>n. case vars n of Some v \<Rightarrow> v | None \<Rightarrow> os_Getenv Y n) file))"

text \<open>\<^verbatim>\<open>filepath.Dir\<close>: all but the last element, cleaned.\<close>

definition path_dir :: "string \<Rightarrow> string" where
  "path_dir p = path_clean (case last_index_byte slash p of None \<Rightarrow> '''' | Some i \<Rightarrow> take (Suc i) p)"

definition config_path :: "piperConfig \<Rightarrow> string \<Rightarrow> string" where
  "config_path c file = (if is_rooted file then file else path_join [path_dir (filename c), file])"

definition loadFileOrDecode :: "yaml_env \<Rightarrow> piperConfig \<Rightarrow> string \<Rightarrow> string \<Rightarrow> strmap \<Rightarrow> bytes option res" where
  "loadFileOrDecode Y c file base64data vars =
     (if file \<noteq> '''' then
        bind_res (expand_path Y vars file) (\<lambda>f. bind_res (os_ReadFile Y (config_path c f)) (\<lambda>d. Inr (Some d)))
      else if base64data \<noteq> '''' then bind_res (base64_Decode Y base64data) (\<lambda>d. Inr (Some d))
      else Inr None)"

fun load_many :: "(string \<Rightarrow> bytes option res) \<Rightarrow> string list \<Rightarrow> bytes list res" where
  "load_many load [] = Inr []"
| "load_many load (x # xs) =
     bind_res (load x) (\<lambda>d. bind_res (load_many load xs) (\<lambda>ds. Inr (case d of None \<Rightarrow> ds | Some b \<Rightarrow> b # ds)))"

definition loadFileOrDecodeMany :: "yaml_env \<Rightarrow> piperConfig \<Rightarrow> listOrString \<Rightarrow> listOrString \<Rightarrow> strmap \<Rightarrow> bytes res" where
  "loadFileOrDecodeMany Y c files base64data vars =
     bind_res (load_many (\<lambda>file. loadFileOrDecode Y c file '''' vars) (Combine files)) (\<lambda>fs.
     bind_res (load_many (\<lambda>data. bind_res (base64_Decode Y data) (\<lambda>d. Inr (Some d))) (Combine base64data)) (\<lambda>ds.
     Inr (join (bytes_of [CHR 0x0A]) (fs @ ds))))"

section \<open>Pipes\<close>

definition yaml_KnownHosts :: "yaml_env \<Rightarrow> piperConfig \<Rightarrow> string \<Rightarrow> yamlPipeTo \<Rightarrow> conn_meta \<Rightarrow> bytes res" where
  "yaml_KnownHosts Y c username to conn =
     (let configured = Configured (yt_KnownHosts to) \<or> Configured (yt_KnownHostsData to)
      in bind_res (loadFileOrDecodeMany Y c (yt_KnownHosts to) (yt_KnownHostsData to)
                     [''DOWNSTREAM_USER'' \<mapsto> UserName conn, ''UPSTREAM_USER'' \<mapsto> username])
           (\<lambda>data. if configured \<and> data = []
              then Inl (Errorf ''known_hosts is configured for upstream user %q but resolved to no data'' [username])
              else Inr data))"

definition yaml_PrivateKey :: "yaml_env \<Rightarrow> piperConfig \<Rightarrow> string \<Rightarrow> yamlPipeTo \<Rightarrow> conn_meta \<Rightarrow> (bytes \<times> bytes) res" where
  "yaml_PrivateKey Y c username to conn =
     bind_res (loadFileOrDecode Y c (yt_PrivateKey to) (yt_PrivateKeyData to)
                 [''DOWNSTREAM_USER'' \<mapsto> UserName conn, ''UPSTREAM_USER'' \<mapsto> username])
       (\<lambda>p. Inr (case p of None \<Rightarrow> [] | Some d \<Rightarrow> d, []))"

definition yaml_to :: "yaml_env \<Rightarrow> piperConfig \<Rightarrow> string \<Rightarrow> yamlPipeTo \<Rightarrow> skel_to" where
  "yaml_to Y c username to =
     (let withKey = yt_PrivateKey to \<noteq> '''' \<or> yt_PrivateKeyData to \<noteq> ''''
      in \<lparr>to_Host = \<lambda>_. yt_Host to, to_User = \<lambda>_. username, to_KnownHosts = yaml_KnownHosts Y c username to,
          to_OverridePassword = (if withKey then None else Some (\<lambda>_. Inr None)),
          to_PrivateKey = (if withKey then Some (yaml_PrivateKey Y c username to) else None)\<rparr>)"

fun group_names :: "yaml_env \<Rightarrow> string list \<Rightarrow> string list res" where
  "group_names Y [] = Inr []"
| "group_names Y (g # gs) =
     bind_res (user_LookupGroupId Y g) (\<lambda>n. bind_res (group_names Y gs) (\<lambda>ns. Inr (n # ns)))"

definition getUserGroups :: "yaml_env \<Rightarrow> string \<Rightarrow> string list res" where
  "getUserGroups Y username = bind_res (user_GroupIds Y username) (group_names Y)"

text \<open>Whether the user name matches, and the target user before the default.\<close>

definition yaml_matched :: "yaml_env \<Rightarrow> yamlPipeFrom \<Rightarrow> yamlPipeTo \<Rightarrow> string \<Rightarrow> (bool \<times> string) res" where
  "yaml_matched Y from to username =
     (if yf_Username from \<noteq> '''' then
        if yf_UsernameRegexMatch from then
          bind_res (regexp_Compile Y (yf_Username from)) (\<lambda>re.
            Inr (MatchString re username,
                 if MatchString re username then ReplaceAllString re username (yt_Username to) else yt_Username to))
        else Inr (yf_Username from = username, yt_Username to)
      else if yf_Groupname from \<noteq> '''' then
        (case user_Lookup Y username of
           UnknownUser \<Rightarrow> Inr (False, yt_Username to)
         | LookupError e \<Rightarrow> Inl e
         | KnownUser \<Rightarrow>
             bind_res (getUserGroups Y username) (\<lambda>gs. Inr (yf_Groupname from \<in> set gs, yt_Username to)))
      else Inr (False, yt_Username to))"

definition yaml_MatchConn :: "yaml_env \<Rightarrow> piperConfig \<Rightarrow> yamlPipeFrom \<Rightarrow> yamlPipeTo \<Rightarrow> conn_meta \<Rightarrow> skel_to option res" where
  "yaml_MatchConn Y c from to conn =
     bind_res (yaml_matched Y from to (UserName conn)) (\<lambda>(matched, t).
       let targetuser = (if t = '''' then UserName conn else t)
       in Inr (if matched then Some (yaml_to Y c targetuser to) else None))"

definition yaml_from :: "yaml_env \<Rightarrow> piperConfig \<Rightarrow> yamlPipeTo \<Rightarrow> yamlPipeFrom \<Rightarrow> skel_from" where
  "yaml_from Y c to f =
     \<lparr>MatchConn = yaml_MatchConn Y c f to,
      TestPassword = (if SupportPublicKey f then None else Some (\<lambda>_ _. Inr True)),
      from_PublicKey =
        (if SupportPublicKey f then
           Some \<lparr>AuthorizedKeys = \<lambda>conn. loadFileOrDecodeMany Y c (yf_AuthorizedKeys f) (yf_AuthorizedKeysData f) [''DOWNSTREAM_USER'' \<mapsto> UserName conn],
                 TrustedUserCAKeys = \<lambda>conn. loadFileOrDecodeMany Y c (yf_TrustedUserCAKeys f) (yf_TrustedUserCAKeysData f) [''DOWNSTREAM_USER'' \<mapsto> UserName conn]\<rparr>
         else None)\<rparr>"

definition yaml_pipe :: "yaml_env \<Rightarrow> piperConfig \<Rightarrow> yamlPipe \<Rightarrow> skel_pipe" where
  "yaml_pipe Y c p = map (yaml_from Y c (yp_To p)) (yp_From p)"

definition yaml_listPipe :: "yaml_env \<Rightarrow> bool \<Rightarrow> string list \<Rightarrow> list_pipe" where
  "yaml_listPipe Y noCheckPerm globs _ =
     bind_res (loadConfig Y noCheckPerm globs) (\<lambda>configs.
       Inr (concat (map (\<lambda>c. map (yaml_pipe Y c) (Pipes c)) configs)))"

lemma yaml_listed:
  assumes "yaml_listPipe Y ncp globs conn = Inr pipes" "from \<in> set (concat pipes)"
  obtains cs c p f where "loadConfig Y ncp globs = Inr cs" "c \<in> set cs" "p \<in> set (Pipes c)" "f \<in> set (yp_From p)"
    "from = yaml_from Y c (yp_To p) f"
proof -
  obtain cs where cs: "loadConfig Y ncp globs = Inr cs" "pipes = concat (map (\<lambda>c. map (yaml_pipe Y c) (Pipes c)) cs)"
    using assms(1) by (auto simp: yaml_listPipe_def bind_res_eq_Inr)
  then obtain c p where "c \<in> set cs" "p \<in> set (Pipes c)" "from \<in> set (yaml_pipe Y c p)"
    using assms(2) by auto
  then show thesis
    using that cs(1) unfolding yaml_pipe_def by auto
qed

lemma yaml_match:
  assumes "MatchConn (yaml_from Y c t f) conn = Inr (Some to)"
  obtains user where "yaml_matched Y f t (UserName conn) = Inr (True, user)"
    "to = yaml_to Y c (if user = '''' then UserName conn else user) t"
proof (cases "yaml_matched Y f t (UserName conn)")
  case (Inl e)
  then show thesis
    using assms by (simp add: yaml_from_def yaml_MatchConn_def)
next
  case (Inr p)
  obtain m user where p: "p = (m, user)"
    by fastforce
  have "m \<and> to = yaml_to Y c (if user = '''' then UserName conn else user) t"
    using assms unfolding yaml_from_def yaml_MatchConn_def by (cases m) (simp_all add: Inr p Let_def)
  then show thesis
    using that [of user] Inr p by simp
qed

interpretation yaml: skel_plugin "yaml_listPipe Y ncp globs" for Y ncp globs
proof
  show "TestPassword fr = None \<longleftrightarrow> from_PublicKey fr \<noteq> None"
    if "yaml_listPipe Y ncp globs conn = Inr pipes" "fr \<in> set (concat pipes)" for conn pipes fr
    by (rule yaml_listed [OF that]) (simp add: yaml_from_def)
  show "to_OverridePassword to = None \<longleftrightarrow> to_PrivateKey to \<noteq> None"
    if "yaml_listPipe Y ncp globs conn = Inr pipes" "fr \<in> set (concat pipes)" "MatchConn fr conn = Inr (Some to)" for conn pipes fr to
  proof -
    note l = yaml_listed [OF that(1,2)] and m = that(3)
    obtain c t f where fr: "fr = yaml_from Y c t f"
      by (rule l)
    obtain user where "to = yaml_to Y c user t"
      by (rule yaml_match [OF m [unfolded fr]])
    then show ?thesis
      by (simp add: yaml_to_def Let_def)
  qed
qed

section \<open>Known hosts\<close>

lemma yaml_known_hosts:
  "Configured (yt_KnownHosts t) \<or> Configured (yt_KnownHostsData t) \<Longrightarrow> yaml_KnownHosts Y c user t conn = Inr d \<Longrightarrow> d \<noteq> []"
  by (auto simp: yaml_KnownHosts_def Let_def bind_res_eq_Inr split: if_splits)

lemma yaml_accepted:
  assumes "skel_match (yaml_listPipe Y ncp globs) conn verify = Some (Inr (fr, to))" "skel_createUpstream conn to password = Inr u"
  shows "\<exists>cs c p f user. loadConfig Y ncp globs = Inr cs \<and> c \<in> set cs \<and> p \<in> set (Pipes c) \<and> f \<in> set (yp_From p)
    \<and> fr = yaml_from Y c (yp_To p) f
    \<and> yaml_matched Y f (yp_To p) (UserName conn) = Inr (True, user)
    \<and> UpUserName u = (if user = '''' then UserName conn else user)
    \<and> SplitHostPortForSSH (yt_Host (yp_To p)) = (Host u, Port u, None)
    \<and> (Configured (yt_KnownHosts (yp_To p)) \<or> Configured (yt_KnownHostsData (yp_To p)) \<longrightarrow> KnownHostsData u \<noteq> [])"
proof -
  obtain pipes where l: "yaml_listPipe Y ncp globs conn = Inr pipes" "fr \<in> set (concat pipes)" and a: "accepts conn verify fr to"
    by (rule skel_match_mem [OF assms(1)])
  obtain cs c p f where c: "loadConfig Y ncp globs = Inr cs" "c \<in> set cs" "p \<in> set (Pipes c)" "f \<in> set (yp_From p)"
    and fr: "fr = yaml_from Y c (yp_To p) f"
    by (rule yaml_listed [OF l])
  have "MatchConn (yaml_from Y c (yp_To p) f) conn = Inr (Some to)"
    using a fr by (simp add: accepts_def)
  then obtain user where m: "yaml_matched Y f (yp_To p) (UserName conn) = Inr (True, user)"
    and to: "to = yaml_to Y c (if user = '''' then UserName conn else user) (yp_To p)"
    by (rule yaml_match)
  note u = createUpstream_host [OF assms(2)]
  have "UpUserName u = (if user = '''' then UserName conn else user)"
    using u(2) by (simp add: to yaml_to_def Let_def)
  moreover have "SplitHostPortForSSH (yt_Host (yp_To p)) = (Host u, Port u, None)"
    using u(3) by (simp add: to yaml_to_def Let_def)
  moreover have "KnownHostsData u \<noteq> []" if "Configured (yt_KnownHosts (yp_To p)) \<or> Configured (yt_KnownHostsData (yp_To p))"
    using u(1) yaml_known_hosts [OF that] by (simp add: to yaml_to_def Let_def)
  ultimately show ?thesis
    using c fr m by blast
qed

text \<open>
  C11: the yaml plugin sends a client only where a configured pipe says.  If it answers a password or a public key with an
  upstream, some pipe of the configuration files has a \<open>from\<close> that matches the client's user name; the upstream is the host
  and user of that pipe; and if the pipe configures known hosts in any form, even an empty one, then the upstream has known hosts to
  be verified against.  A \<open>from\<close> with authorised keys or authorities accepts no password, and one without accepts no key.
\<close>

theorem yaml_routes_as_configured:
  assumes "(if byKey then skel_PublicKeyCallback X (yaml_listPipe Y ncp globs) conn cred
            else skel_PasswordCallback (yaml_listPipe Y ncp globs) conn cred) = Some (Inr ou)"
  shows "\<exists>u cs c p f user. ou = Some u \<and> loadConfig Y ncp globs = Inr cs \<and> c \<in> set cs \<and> p \<in> set (Pipes c) \<and> f \<in> set (yp_From p)
    \<and> SupportPublicKey f = byKey
    \<and> yaml_matched Y f (yp_To p) (UserName conn) = Inr (True, user)
    \<and> UpUserName u = (if user = '''' then UserName conn else user)
    \<and> SplitHostPortForSSH (yt_Host (yp_To p)) = (Host u, Port u, None)
    \<and> (Configured (yt_KnownHosts (yp_To p)) \<or> Configured (yt_KnownHostsData (yp_To p)) \<longrightarrow> KnownHostsData u \<noteq> [])"
proof (cases byKey)
  case True
  then have "skel_PublicKeyCallback X (yaml_listPipe Y ncp globs) conn cred = Some (Inr ou)"
    using assms by simp
  then obtain pubKey fr to u where m: "skel_match (yaml_listPipe Y ncp globs) conn (verify_key X conn cred pubKey) = Some (Inr (fr, to))"
    and u: "skel_createUpstream conn to [] = Inr u" "ou = Some u"
    by (rule publickey_callback_accepts)
  have "from_PublicKey fr \<noteq> None"
    by (rule skel_match_mem [OF m]) (auto simp: accepts_def verify_key_def split: option.splits)
  then have "SupportPublicKey f" if "fr = yaml_from Y c t f" for c t f
    using that by (auto simp: yaml_from_def split: if_splits)
  then show ?thesis
    using yaml_accepted [OF m u(1)] u(2) True by blast
next
  case False
  then have "skel_PasswordCallback (yaml_listPipe Y ncp globs) conn cred = Some (Inr ou)"
    using assms by simp
  then obtain fr to u where m: "skel_match (yaml_listPipe Y ncp globs) conn (verify_password conn cred) = Some (Inr (fr, to))"
    and u: "skel_createUpstream conn to cred = Inr u" "ou = Some u"
    by (rule skel_password_accepts)
  have "TestPassword fr \<noteq> None"
    by (rule skel_match_mem [OF m]) (auto simp: accepts_def verify_password_def split: option.splits)
  then have "\<not> SupportPublicKey f" if "fr = yaml_from Y c t f" for c t f
    using that by (auto simp: yaml_from_def split: if_splits)
  then show ?thesis
    using yaml_accepted [OF m u(1)] u(2) False by blast
qed

definition nothing_listed :: listOrString where
  "nothing_listed = \<lparr>LList = [], LStr = '''', present = False\<rparr>"

definition demo_yaml_pipe :: yamlPipe where
  "demo_yaml_pipe =
     \<lparr>yp_From = [\<lparr>yf_Username = ''u'', yf_Groupname = '''', yf_UsernameRegexMatch = False, yf_AuthorizedKeys = nothing_listed,
        yf_AuthorizedKeysData = nothing_listed, yf_TrustedUserCAKeys = nothing_listed, yf_TrustedUserCAKeysData = nothing_listed\<rparr>],
      yp_To = \<lparr>yt_Username = '''', yt_Host = ''h:22'', yt_Password = '''', yt_PrivateKey = '''', yt_PrivateKeyData = '''',
        yt_KnownHosts = nothing_listed, yt_KnownHostsData = \<lparr>LList = [''aaaa''], LStr = '''', present = True\<rparr>\<rparr>\<rparr>"

definition demo_yaml :: yaml_env where
  "demo_yaml = \<lparr>regexp_Compile = \<lambda>_. Inl (Ext ''regexp''), user_Lookup = \<lambda>_. UnknownUser, user_GroupIds = \<lambda>_. Inr [],
     user_LookupGroupId = \<lambda>_. Inl (Ext ''group''), os_Getenv = \<lambda>_. '''', os_ReadFile = \<lambda>_. Inr [1], os_OpenStat = \<lambda>_. Inr 0x180,
     base64_Decode = \<lambda>_. Inr [7], filepath_Glob = \<lambda>_. Inr [''/etc/s.yaml''],
     yaml_Unmarshal = \<lambda>_. Inr \<lparr>Pipes = [demo_yaml_pipe], filename = ''''\<rparr>\<rparr>"

theorem yaml_routes_as_configured_witness:
  "\<exists>u. skel_PasswordCallback (yaml_listPipe demo_yaml False [''g'']) demo_meta [1] = Some (Inr (Some u)) \<and> KnownHostsData u \<noteq> []"
proof -
  let ?r = "skel_PasswordCallback (yaml_listPipe demo_yaml False [''g'']) demo_meta [1]"
  have "case ?r of Some (Inr _) \<Rightarrow> True | _ \<Rightarrow> False"
    by code_simp
  then obtain ou where ou: "?r = Some (Inr ou)"
    by (auto split: option.splits sum.splits)
  have cs: "loadConfig demo_yaml False [''g''] = Inr [\<lparr>Pipes = [demo_yaml_pipe], filename = ''/etc/s.yaml''\<rparr>]"
    by (simp add: demo_yaml_def checkPerm_def)
  have "(if False then skel_PublicKeyCallback demo_skel_ssh (yaml_listPipe demo_yaml False [''g'']) demo_meta [1] else ?r) = Some (Inr ou)"
    using ou by simp
  from yaml_routes_as_configured [OF this] obtain u p where "ou = Some u" "p = demo_yaml_pipe"
    "Configured (yt_KnownHostsData (yp_To p)) \<longrightarrow> KnownHostsData u \<noteq> []"
    using cs by auto
  then show ?thesis
    using ou by (simp add: demo_yaml_pipe_def Configured_def)
qed

section \<open>Placeholders\<close>

text \<open>A path whose elements are fixed names or single placeholders.\<close>

datatype elem = Fixed string | Var string

fun elem_text :: "elem \<Rightarrow> string" where
  "elem_text (Fixed s) = s"
| "elem_text (Var n) = CHR ''$'' # n"

fun elem_value :: "(string \<Rightarrow> string) \<Rightarrow> elem \<Rightarrow> string" where
  "elem_value f (Fixed s) = s"
| "elem_value f (Var n) = f n"

fun elem_ok :: "elem \<Rightarrow> bool" where
  "elem_ok (Fixed s) \<longleftrightarrow> CHR ''$'' \<notin> set s \<and> slash \<notin> set s"
| "elem_ok (Var n) \<longleftrightarrow> n \<noteq> [] \<and> \<not> is_digit (hd n) \<and> list_all isAlphaNum n"

fun elem_tokens :: "elem \<Rightarrow> token list" where
  "elem_tokens (Fixed s) = map Lit s"
| "elem_tokens (Var n) = [Placeholder n]"

lemma expand_tokens_lits: "CHR ''$'' \<notin> set s \<Longrightarrow> expand_tokens (s @ t) = map Lit s @ expand_tokens t"
  by (induction s) auto

lemma not_special: "isAlphaNum c \<Longrightarrow> \<not> is_digit c \<Longrightarrow> \<not> isShellSpecialVar c \<and> c \<noteq> CHR ''{''"
  by (auto simp: isAlphaNum_def isShellSpecialVar_def)

lemma expand_tokens_var:
  assumes "elem_ok (Var n)" "t = [] \<or> \<not> isAlphaNum (hd t)"
  shows "expand_tokens (CHR ''$'' # n @ t) = Placeholder n # expand_tokens t"
proof -
  obtain c m where n: "n = c # m"
    using assms(1) by (cases n) auto
  have "takeWhile isAlphaNum (n @ t) = n @ takeWhile isAlphaNum t"
    using assms(1) by (intro takeWhile_append2) (auto simp: list_all_iff)
  also have "takeWhile isAlphaNum t = []"
    using assms(2) by (cases t) auto
  finally have tw: "takeWhile isAlphaNum (n @ t) = n"
    by simp
  have "isAlphaNum c" "\<not> is_digit c"
    using assms(1) by (simp_all add: n)
  then have "getShellName (n @ t) = (n, length n)"
    using tw not_special [of c] by (simp add: getShellName_def n)
  then show ?thesis
    using assms(1) by simp
qed

lemma expand_tokens_elem:
  "elem_ok e \<Longrightarrow> t = [] \<or> hd t = slash \<Longrightarrow> expand_tokens (elem_text e @ t) = elem_tokens e @ expand_tokens t"
  using expand_tokens_var [of _ t] expand_tokens_lits [of _ t] by (cases e) (auto simp: isAlphaNum_def is_digit_def)

lemma expand_tokens_join:
  assumes "list_all elem_ok es"
  shows "expand_tokens (join [slash] (map elem_text es)) = join [Lit slash] (map elem_tokens es)"
  using assms
proof (induction es rule: induct_list012)
  case (2 e)
  then show ?case
    using expand_tokens_elem [of e "[]"] by simp
next
  case (3 e e' es)
  then show ?case
    using expand_tokens_elem [of e "slash # join [slash] (map elem_text (e' # es))"] by simp
qed simp

lemma map_join: "map f (join sep xs) = join (map f sep) (map (map f) xs)"
  by (induction sep xs rule: join.induct) auto

lemma concat_map_join: "concat (map f (join sep xs)) = join (concat (map f sep)) (map (\<lambda>x. concat (map f x)) xs)"
  by (induction sep xs rule: join.induct) auto

lemma elem_tokens_value: "concat (map (expand_token f) (elem_tokens e)) = elem_value f e"
  by (cases e) (simp_all add: comp_def)

lemma os_expand_join:
  "list_all elem_ok es \<Longrightarrow> os_expand f (join [slash] (map elem_text es)) = join [slash] (map (elem_value f) es)"
  by (simp add: os_expand_def expand_tokens_join concat_map_join elem_tokens_value comp_def)

lemma set_join_Nil: "set (join [] xs) = \<Union> (set ` set xs)"
  by (induction "[] :: 'a list" xs rule: join.induct) auto

lemma expand_names_join:
  assumes "list_all elem_ok es"
  shows "set (expand_names (join [slash] (map elem_text es))) = {n. Var n \<in> set es}"
proof -
  have "set (concat (map placeholder (elem_tokens e))) = {n. e = Var n}" for e
    by (cases e) auto
  then show ?thesis
    using assms by (auto simp: expand_names_def expand_tokens_join concat_map_join set_join_Nil)
qed

lemma fold_clean_step_plain:
  "\<forall>c \<in> set cs. c \<noteq> Dot \<and> c \<noteq> DotDot \<Longrightarrow> fold (clean_step rooted) cs acc = rev (filter (\<lambda>c. c \<noteq> '''') cs) @ acc"
  by (induction cs arbitrary: acc) (auto simp: clean_step.simps)

lemma expand_path_safe:
  assumes "expand_path Y vars file = Inr p" "n \<in> set (expand_names file)" "vars n = Some v"
  shows "isPathSafeValue v"
proof (rule ccontr)
  assume "\<not> isPathSafeValue v"
  then have "find (\<lambda>n. case vars n of Some v \<Rightarrow> \<not> isPathSafeValue v | None \<Rightarrow> False) (expand_names file) \<noteq> None"
    using assms(2,3) by (auto simp: find_None_iff)
  then show False
    using assms(1) by (auto simp: expand_path_def)
qed

lemma join_rooted: "is_rooted (join [slash] (x # xs)) \<longleftrightarrow> (if x = [] then xs \<noteq> [] else hd x = slash)"
  by (cases xs; cases x) (auto simp: is_rooted_def)

lemma elem_value_ok:
  assumes "e \<in> set es" "list_all elem_ok es"
    and "\<forall>s. Fixed s \<in> set es \<longrightarrow> s \<noteq> Dot \<and> s \<noteq> DotDot" "\<forall>n. Var n \<in> set es \<longrightarrow> vars n \<noteq> None"
    and "expand_path Y vars (join [slash] (map elem_text es)) = Inr p"
  shows "elem_value (\<lambda>n. the (vars n)) e \<noteq> Dot \<and> elem_value (\<lambda>n. the (vars n)) e \<noteq> DotDot
    \<and> slash \<notin> set (elem_value (\<lambda>n. the (vars n)) e)"
proof (cases e)
  case (Fixed s)
  then show ?thesis
    using assms(1-3) by (auto simp: list_all_iff)
next
  case (Var n)
  then obtain v where v: "vars n = Some v"
    using assms(1,4) by auto
  have "isPathSafeValue v"
    using expand_path_safe [OF assms(5) _ v] expand_names_join [OF assms(2)] assms(1) Var by simp
  then show ?thesis
    using v Var by (simp add: isPathSafeValue_def)
qed

text \<open>
  C12: no user name moves a file out of the directory its configured path names.  Take a configured path whose elements
  are fixed names or single user placeholders.  If the plugin expands it at all, the elements of the path it opens are
  the configured ones, in order, with each placeholder replaced by exactly one element: never a step up, never a
  separator.  Only an empty user name drops its element; without one, the path is also absolute exactly when the configured one is.
\<close>

theorem yaml_placeholder_confined:
  assumes "list_all elem_ok es" "es \<noteq> []"
    and "\<forall>s. Fixed s \<in> set es \<longrightarrow> s \<noteq> Dot \<and> s \<noteq> DotDot" "\<forall>n. Var n \<in> set es \<longrightarrow> vars n \<noteq> None"
    and "expand_path Y vars (join [slash] (map elem_text es)) = Inr p"
  shows "comps p = filter (\<lambda>c. c \<noteq> '''') (map (elem_value (\<lambda>n. the (vars n))) es)
    \<and> ((\<forall>n. Var n \<in> set es \<longrightarrow> vars n \<noteq> Some '''') \<longrightarrow> is_rooted p = is_rooted (join [slash] (map elem_text es)))"
proof -
  let ?F = "\<lambda>n. case vars n of Some v \<Rightarrow> v | None \<Rightarrow> os_Getenv Y n"
  let ?cs = "map (elem_value (\<lambda>n. the (vars n))) es"
  have val: "elem_value ?F e = elem_value (\<lambda>n. the (vars n)) e" if "e \<in> set es" for e
    using assms(4) that by (cases e) auto
  have p: "p = join [slash] ?cs"
    using assms(5) os_expand_join [OF assms(1), of ?F] val
    by (auto simp: expand_path_def cong: map_cong split: option.splits)
  have ok: "c \<noteq> Dot \<and> c \<noteq> DotDot \<and> slash \<notin> set c" if "c \<in> set ?cs" for c
    using elem_value_ok [OF _ assms(1,3-5)] that by auto
  have "split_on slash p = ?cs"
    unfolding p using assms(2) ok by (intro split_on_join) auto
  then have "comps p = filter (\<lambda>c. c \<noteq> '''') ?cs"
    using ok fold_clean_step_plain [of ?cs] by (simp add: comps_def)
  moreover have "is_rooted p = is_rooted (join [slash] (map elem_text es))" if nonempty: "\<forall>n. Var n \<in> set es \<longrightarrow> vars n \<noteq> Some ''''"
  proof -
    obtain e es' where es: "es = e # es'"
      using assms(2) by (cases es) auto
    show ?thesis
    proof (cases e)
      case (Var n)
      have "Var n \<in> set es"
        using es Var by simp
      then obtain v where v: "vars n = Some v" "v \<noteq> ''''"
        using assms(4) nonempty by (cases "vars n") auto
      have "slash \<notin> set v"
        using ok [of v] es Var v(1) by simp
      then have "hd v \<noteq> slash"
        using v(2) hd_in_set [of v] by metis
      then show ?thesis
        unfolding p es Var list.map join_rooted using v by simp
    next
      case (Fixed t)
      then show ?thesis
        unfolding p es list.map join_rooted by simp
    qed
  qed
  ultimately show ?thesis
    by blast
qed

theorem yaml_placeholder_confined_witness:
  "\<exists>p. expand_path demo_yaml [''DOWNSTREAM_USER'' \<mapsto> ''bob''] ''/keys/$DOWNSTREAM_USER/authorized_keys'' = Inr p
    \<and> comps p = [''keys'', ''bob'', ''authorized_keys''] \<and> is_rooted p"
proof -
  let ?es = "[Fixed '''', Fixed ''keys'', Var ''DOWNSTREAM_USER'', Fixed ''authorized_keys'']"
  let ?vars = "[''DOWNSTREAM_USER'' \<mapsto> ''bob'']"
  have ok: "list_all elem_ok ?es"
    by (simp add: isAlphaNum_def is_digit_def)
  have tx: "join [slash] (map elem_text ?es) = ''/keys/$DOWNSTREAM_USER/authorized_keys''"
    by simp
  have "case expand_path demo_yaml ?vars ''/keys/$DOWNSTREAM_USER/authorized_keys'' of Inr _ \<Rightarrow> True | Inl _ \<Rightarrow> False"
    by code_simp
  then obtain p where p: "expand_path demo_yaml ?vars ''/keys/$DOWNSTREAM_USER/authorized_keys'' = Inr p"
    by (auto split: sum.splits)
  have "comps p = filter (\<lambda>c. c \<noteq> '''') (map (elem_value (\<lambda>n. the (?vars n))) ?es)
    \<and> ((\<forall>n. Var n \<in> set ?es \<longrightarrow> ?vars n \<noteq> Some '''') \<longrightarrow> is_rooted p = is_rooted (join [slash] (map elem_text ?es)))"
    by (rule yaml_placeholder_confined [OF ok _ _ _ p [folded tx]]) simp_all
  then show ?thesis
    using p by (auto simp: is_rooted_def)
qed

text \<open>
  An empty user name is not refused: a relative path that starts with the placeholder becomes absolute.  And in the path of the
  authorised keys the name \<^verbatim>\<open>UPSTREAM_USER\<close> is not a placeholder but an environment variable.
\<close>

lemma empty_user_makes_absolute:
  "expand_path Y [''DOWNSTREAM_USER'' \<mapsto> ''''] ''$DOWNSTREAM_USER/authorized_keys'' = Inr ''/authorized_keys''"
proof -
  have "expand_tokens ''$DOWNSTREAM_USER/authorized_keys'' = Placeholder ''DOWNSTREAM_USER'' # map Lit ''/authorized_keys''"
    by code_simp
  then show ?thesis
    by (simp add: expand_path_def expand_names_def os_expand_def isPathSafeValue_def)
qed

lemma authorized_keys_upstream_user:
  "expand_path Y [''DOWNSTREAM_USER'' \<mapsto> u] ''/keys/$UPSTREAM_USER'' = Inr (''/keys/'' @ os_Getenv Y ''UPSTREAM_USER'')"
proof -
  have "expand_tokens ''/keys/$UPSTREAM_USER'' = map Lit ''/keys/'' @ [Placeholder ''UPSTREAM_USER'']"
    by code_simp
  then show ?thesis
    by (simp add: expand_path_def expand_names_def os_expand_def)
qed

end
