(* ===== verification/Workingdir_Plugin.thy ===== *)
theory Workingdir_Plugin
  imports Skel Go_Path Grpc_Plugin
begin

text \<open>
  The workingdir plugin (\<^verbatim>\<open>plugin/workingdir/workingdir.go\<close>, \<^verbatim>\<open>skel.go\<close>, the method callback of \<^verbatim>\<open>main.go\<close>):
  each user has a directory below a root with an upstream file, keys and known hosts.

  The file system is a parameter (\<open>wd_fs\<close>): the result of \<^verbatim>\<open>os.Stat\<close>, the permission bits of a file that can be
  opened, its content, and the sequence of entries \<^verbatim>\<open>filepath.Walk\<close> visits when it is not stopped.  \<^verbatim>\<open>Exists\<close>
  dereferences the nil result of a failing \<^verbatim>\<open>Stat\<close>, which ends the plugin; \<open>Exists\<close> is \<open>None\<close> there, and the pipes describe the runs
  in which that does not happen (\<open>stat_works\<close>).
\<close>

section \<open>Files of a user\<close>

datatype stat_result = NotExist | StatError goerr | IsDir | IsFile

datatype walk_entry = WalkError | WalkFile | WalkDir

record wd_fs =
  os_Stat :: "string \<Rightarrow> stat_result"
  wd_OpenStat :: "string \<Rightarrow> u32 res"
  wd_ReadFile :: "string \<Rightarrow> bytes res"
  filepath_Walk :: "string \<Rightarrow> (string \<times> walk_entry) list"

record workingdir =
  Path :: string
  NoCheckPerm :: bool
  Strict :: bool

definition lower :: "char \<Rightarrow> bool" where
  "lower c \<longleftrightarrow> 97 \<le> (of_char c :: int) \<and> (of_char c :: int) \<le> 122"

text \<open>The expression \<^verbatim>\<open>^[a-z_][-a-z0-9_]{0,31}$\<close>.\<close>

definition isUsernameSecure :: "string \<Rightarrow> bool" where
  "isUsernameSecure user \<longleftrightarrow>
     (case user of
        [] \<Rightarrow> False
      | c # cs \<Rightarrow> (lower c \<or> c = CHR ''_'') \<and> length cs \<le> 31
          \<and> list_all (\<lambda>x. x = CHR ''-'' \<or> lower x \<or> is_digit x \<or> x = CHR ''_'') cs)"

definition fullpath :: "workingdir \<Rightarrow> string \<Rightarrow> string" where
  "fullpath w file = path_join [Path w, file]"

definition wd_checkPerm :: "wd_fs \<Rightarrow> workingdir \<Rightarrow> string \<Rightarrow> unit res" where
  "wd_checkPerm F w file =
     bind_res (wd_OpenStat F (path_join [Path w, file])) (\<lambda>perm.
       if NoCheckPerm w then Inr ()
       else if perm AND 63 \<noteq> 0 then Inl (Errorf ''%v's perm is too open'' [path_join [Path w, file]])
       else Inr ())"

definition Readfile :: "wd_fs \<Rightarrow> workingdir \<Rightarrow> string \<Rightarrow> bytes res" where
  "Readfile F w file = bind_res (wd_checkPerm F w file) (\<lambda>_. wd_ReadFile F (fullpath w file))"

definition Exists :: "wd_fs \<Rightarrow> workingdir \<Rightarrow> string \<Rightarrow> bool option" where
  "Exists F w file =
     (case os_Stat F (fullpath w file) of
        NotExist \<Rightarrow> Some False
      | StatError e \<Rightarrow> None
      | IsDir \<Rightarrow> Some False
      | IsFile \<Rightarrow> Some True)"

abbreviation newline :: char where "newline \<equiv> CHR 0x0A"

text \<open>The loop over the lines: \<^verbatim>\<open>ReadString\<close> fails at the end of the data and leaves the last, unterminated line as it is.\<close>

function upstream_line :: "string \<Rightarrow> string" where
  "upstream_line s =
     (case cut newline s of
        None \<Rightarrow> s
      | Some (line, rest) \<Rightarrow>
          let host = trim_space (line @ [newline])
          in if host \<noteq> '''' \<and> hd host \<noteq> CHR ''#'' then host else upstream_line rest)"
  by auto

termination
  by (relation "measure length") (auto dest!: cut_Some)

declare upstream_line.simps [simp del]

definition parseUpstreamFile :: "string \<Rightarrow> string \<times> string \<times> goerr option" where
  "parseUpstreamFile data =
     (let line = upstream_line data;
          (user, host) = (case cut (CHR ''@'') line of Some (u, h) \<Rightarrow> (u, h) | None \<Rightarrow> ('''', line))
      in (host, user, snd (snd (SplitHostPortForSSH host))))"

section \<open>Pipes\<close>

record workdingdirFactory =
  root :: string
  allowBadUsername :: bool
  noPasswordAuth :: bool
  noCheckPerm :: bool
  strictHostKey :: bool
  recursiveSearch :: bool

abbreviation "userAuthorizedKeysFile \<equiv> ''authorized_keys''"
abbreviation "userKeyFile \<equiv> ''id_rsa''"
abbreviation "userUpstreamFile \<equiv> ''sshpiper_upstream''"
abbreviation "userKnownHosts \<equiv> ''known_hosts''"

definition wd_KnownHosts :: "wd_fs \<Rightarrow> workingdir \<Rightarrow> bytes res" where
  "wd_KnownHosts F w = (if \<not> Strict w then Inr [] else Readfile F w userKnownHosts)"

definition wd_to :: "wd_fs \<Rightarrow> workingdir \<Rightarrow> string \<Rightarrow> string \<Rightarrow> skel_to" where
  "wd_to F w host username =
     (let withKey = (Exists F w userKeyFile = Some True)
      in \<lparr>to_Host = \<lambda>_. host, to_User = \<lambda>_. username, to_KnownHosts = \<lambda>_. wd_KnownHosts F w,
          to_OverridePassword = (if withKey then None else Some (\<lambda>_. Inr None)),
          to_PrivateKey = (if withKey then Some (\<lambda>_. bind_res (Readfile F w userKeyFile) (\<lambda>k. Inr (k, []))) else None)\<rparr>)"

definition wd_pipe :: "wd_fs \<Rightarrow> workingdir \<Rightarrow> string \<Rightarrow> string \<Rightarrow> skel_pipe" where
  "wd_pipe F w host username =
     (let byKey = (Exists F w userAuthorizedKeysFile = Some True \<and> Exists F w userKeyFile = Some True)
      in [\<lparr>MatchConn = \<lambda>_. Inr (Some (wd_to F w host username)),
           TestPassword = (if byKey then None else Some (\<lambda>_ _. Inr True)),
           from_PublicKey =
             (if byKey then Some \<lparr>AuthorizedKeys = \<lambda>_. Readfile F w userAuthorizedKeysFile, TrustedUserCAKeys = \<lambda>_. Inr []\<rparr>
              else None)\<rparr>])"

definition wd_at :: "workdingdirFactory \<Rightarrow> string \<Rightarrow> workingdir" where
  "wd_at fac p = \<lparr>Path = p, NoCheckPerm = noCheckPerm fac, Strict = strictHostKey fac\<rparr>"

definition wd_visit :: "wd_fs \<Rightarrow> workdingdirFactory \<Rightarrow> string \<Rightarrow> skel_pipe list" where
  "wd_visit F fac p =
     (case Readfile F (wd_at fac p) userUpstreamFile of
        Inl _ \<Rightarrow> []
      | Inr data \<Rightarrow>
          (case parseUpstreamFile (str data) of
             (_, _, Some _) \<Rightarrow> []
           | (host, user, None) \<Rightarrow> [wd_pipe F (wd_at fac p) host user]))"

fun wd_walk :: "wd_fs \<Rightarrow> workdingdirFactory \<Rightarrow> (string \<times> walk_entry) list \<Rightarrow> skel_pipe list" where
  "wd_walk F fac [] = []"
| "wd_walk F fac ((p, WalkDir) # es) = wd_visit F fac p @ (if recursiveSearch fac then wd_walk F fac es else [])"
| "wd_walk F fac ((p, _) # es) = wd_walk F fac es"

definition wd_listPipe :: "wd_fs \<Rightarrow> workdingdirFactory \<Rightarrow> list_pipe" where
  "wd_listPipe F fac conn =
     (if \<not> allowBadUsername fac \<and> \<not> isUsernameSecure (UserName conn)
      then Inl (Errorf ''bad username: %s'' [UserName conn])
      else Inr (wd_walk F fac (filepath_Walk F (path_join [root fac, UserName conn]))))"

definition wd_NextAuthMethods :: "workdingdirFactory \<Rightarrow> bool \<Rightarrow> conn_meta \<Rightarrow> string list" where
  "wd_NextAuthMethods fac checktotp conn =
     (let auth = ''publickey'' # (if \<not> noPasswordAuth fac then [''password''] else [])
      in if checktotp \<and> GetMeta conn ''totp'' \<noteq> ''checked'' then [''keyboard-interactive''] else auth)"

definition stat_works :: "wd_fs \<Rightarrow> bool" where
  "stat_works F \<longleftrightarrow> (\<forall>p e. os_Stat F p \<noteq> StatError e)"

lemma wd_walk_mem:
  assumes "pipe \<in> set (wd_walk F fac es)"
  obtains p data host user where "(p, WalkDir) \<in> set es" "Readfile F (wd_at fac p) userUpstreamFile = Inr data"
    "parseUpstreamFile (str data) = (host, user, None)" "pipe = wd_pipe F (wd_at fac p) host user"
proof -
  have "\<exists>p. (p, WalkDir) \<in> set es \<and> pipe \<in> set (wd_visit F fac p)"
    using assms by (induction F fac es rule: wd_walk.induct) (auto split: if_splits)
  then obtain p where p: "(p, WalkDir) \<in> set es" "pipe \<in> set (wd_visit F fac p)"
    by blast
  obtain data where d: "Readfile F (wd_at fac p) userUpstreamFile = Inr data"
    using p(2) by (cases "Readfile F (wd_at fac p) userUpstreamFile") (simp_all add: wd_visit_def)
  obtain host user err where h: "parseUpstreamFile (str data) = (host, user, err)"
    by (rule prod_cases3)
  then have "err = None" "pipe = wd_pipe F (wd_at fac p) host user"
    using p(2) d by (cases err; simp add: wd_visit_def)+
  then show thesis
    using that p(1) d h by blast
qed

interpretation workingdir: skel_plugin "wd_listPipe F fac" for F fac
proof
  have one: "\<exists>w host user. fr \<in> set (wd_pipe F w host user)"
    if l: "wd_listPipe F fac conn = Inr pipes" "fr \<in> set (concat pipes)" for conn pipes fr
  proof -
    obtain pipe where "pipe \<in> set pipes" and fr: "fr \<in> set pipe"
      using l(2) by auto
    then have m: "pipe \<in> set (wd_walk F fac (filepath_Walk F (path_join [root fac, UserName conn])))"
      using l(1) by (auto simp: wd_listPipe_def split: if_splits)
    show ?thesis
      by (rule wd_walk_mem [OF m]) (use fr in blast)
  qed
  show "TestPassword fr = None \<longleftrightarrow> from_PublicKey fr \<noteq> None"
    if "wd_listPipe F fac conn = Inr pipes" "fr \<in> set (concat pipes)" for conn pipes fr
    using one [OF that] by (auto simp: wd_pipe_def Let_def split: if_splits)
  show "to_OverridePassword to = None \<longleftrightarrow> to_PrivateKey to \<noteq> None"
    if "wd_listPipe F fac conn = Inr pipes" "fr \<in> set (concat pipes)" "MatchConn fr conn = Inr (Some to)" for conn pipes fr to
    using one [OF that(1,2)] that(3) by (auto simp: wd_pipe_def wd_to_def Let_def split: if_splits)
qed

section \<open>Properties\<close>

lemma comps_join_name:
  assumes "base \<noteq> ''''" "name_ok n"
  shows "comps (path_join [base, n]) = comps base @ [n]"
proof -
  have "split_on slash n = [n]"
    using assms(2) by (intro split_on_single) (simp add: name_ok_def)
  then show ?thesis
    using assms fold_clean_step_names [of "[n]" "is_rooted base" "rev (comps base)"]
    by (simp add: path_join2 comps_append)
qed

lemma secure_name_ok:
  assumes "isUsernameSecure user"
  shows "name_ok user"
proof -
  have "x \<noteq> slash \<and> x \<noteq> CHR ''.''" if "x = CHR ''-'' \<or> lower x \<or> is_digit x \<or> x = CHR ''_''" for x
    using that by (auto simp: lower_def is_digit_def)
  then have "\<forall>x \<in> set user. x \<noteq> slash \<and> x \<noteq> CHR ''.''"
    using assms unfolding isUsernameSecure_def list_all_iff by (cases user) auto
  moreover have "user \<noteq> []"
    using assms by (cases user) (simp_all add: isUsernameSecure_def)
  moreover have "CHR ''.'' \<in> set Dot" "CHR ''.'' \<in> set DotDot"
    by simp_all
  ultimately show ?thesis
    unfolding name_ok_def by metis
qed

text \<open>\<^verbatim>\<open>filepath.Walk\<close> visits the tree rooted at its argument.\<close>

definition walks_below :: "wd_fs \<Rightarrow> bool" where
  "walks_below F \<longleftrightarrow> (\<forall>r p e. (p, e) \<in> set (filepath_Walk F r) \<longrightarrow> prefix (comps r) (comps p))"

lemma Readfile_checked:
  assumes "Readfile F w file = Inr data"
  shows "wd_ReadFile F (path_join [Path w, file]) = Inr data
    \<and> (\<exists>perm. wd_OpenStat F (path_join [Path w, file]) = Inr perm \<and> (NoCheckPerm w \<or> perm AND 63 = 0))"
  using assms by (auto simp: Readfile_def wd_checkPerm_def fullpath_def bind_res_eq_Inr split: if_splits)

lemma wd_accepted:
  assumes "skel_match (wd_listPipe F fac) conn verify = Some (Inr (fr, to))" "skel_createUpstream conn to password = Inr u"
  shows "\<exists>dir data host user. (dir, WalkDir) \<in> set (filepath_Walk F (path_join [root fac, UserName conn]))
    \<and> (allowBadUsername fac \<or> isUsernameSecure (UserName conn))
    \<and> Readfile F (wd_at fac dir) userUpstreamFile = Inr data \<and> parseUpstreamFile (str data) = (host, user, None)
    \<and> UpUserName u = (if user = '''' then UserName conn else user)
    \<and> SplitHostPortForSSH host = (Host u, Port u, None)
    \<and> wd_KnownHosts F (wd_at fac dir) = Inr (KnownHostsData u)"
proof -
  obtain pipes where l: "wd_listPipe F fac conn = Inr pipes" "fr \<in> set (concat pipes)" and a: "accepts conn verify fr to"
    by (rule skel_match_mem [OF assms(1)])
  have name: "allowBadUsername fac \<or> isUsernameSecure (UserName conn)"
    and pipes: "pipes = wd_walk F fac (filepath_Walk F (path_join [root fac, UserName conn]))"
    using l(1) by (auto simp: wd_listPipe_def split: if_splits)
  obtain pipe where p: "pipe \<in> set (wd_walk F fac (filepath_Walk F (path_join [root fac, UserName conn])))" "fr \<in> set pipe"
    using l(2) pipes by auto
  obtain dir data host user where d: "(dir, WalkDir) \<in> set (filepath_Walk F (path_join [root fac, UserName conn]))"
    "Readfile F (wd_at fac dir) userUpstreamFile = Inr data" "parseUpstreamFile (str data) = (host, user, None)"
    and pipe: "pipe = wd_pipe F (wd_at fac dir) host user"
    by (rule wd_walk_mem [OF p(1)])
  have to: "to = wd_to F (wd_at fac dir) host user"
    using a p(2) pipe by (simp add: accepts_def wd_pipe_def Let_def)
  note u = createUpstream_host [OF assms(2)]
  have "UpUserName u = (if user = '''' then UserName conn else user)"
    "SplitHostPortForSSH host = (Host u, Port u, None)" "wd_KnownHosts F (wd_at fac dir) = Inr (KnownHostsData u)"
    using u by (simp_all add: to wd_to_def Let_def)
  then show ?thesis
    using d name by blast
qed

text \<open>
  C21: the workingdir plugin stays in the directory of the user.  Unless bad user names are allowed, an upstream is only given
  to a user name the plugin considers safe, and it comes from an upstream file in a directory at or below
  the one named by the user directly below the root; a file that group or others may access is not used unless
  the check is switched off.  The address and the user of the upstream are those the file gives.
\<close>

theorem workingdir_confined:
  assumes "walks_below F" "root fac \<noteq> ''''" "\<not> allowBadUsername fac"
    and "skel_PublicKeyCallback X (wd_listPipe F fac) conn cred = Some (Inr ou) \<or> skel_PasswordCallback (wd_listPipe F fac) conn cred = Some (Inr ou)"
  shows "\<exists>u dir data host user perm. ou = Some u \<and> isUsernameSecure (UserName conn)
    \<and> prefix (comps (root fac) @ [UserName conn]) (comps dir)
    \<and> wd_ReadFile F (path_join [dir, userUpstreamFile]) = Inr data
    \<and> wd_OpenStat F (path_join [dir, userUpstreamFile]) = Inr perm \<and> (noCheckPerm fac \<or> perm AND 63 = 0)
    \<and> parseUpstreamFile (str data) = (host, user, None)
    \<and> UpUserName u = (if user = '''' then UserName conn else user)
    \<and> SplitHostPortForSSH host = (Host u, Port u, None)"
proof -
  obtain verify fr to pw u where m: "skel_match (wd_listPipe F fac) conn verify = Some (Inr (fr, to))"
    and u: "skel_createUpstream conn to pw = Inr u" "ou = Some u"
    by (rule skel_accepts [OF assms(4)])
  obtain dir data host user where d: "(dir, WalkDir) \<in> set (filepath_Walk F (path_join [root fac, UserName conn]))"
    "isUsernameSecure (UserName conn)"
    "Readfile F (wd_at fac dir) userUpstreamFile = Inr data" "parseUpstreamFile (str data) = (host, user, None)"
    "UpUserName u = (if user = '''' then UserName conn else user)" "SplitHostPortForSSH host = (Host u, Port u, None)"
    using wd_accepted [OF m u(1)] assms(3) by blast
  have "prefix (comps (path_join [root fac, UserName conn])) (comps dir)"
    using assms(1) d(1) unfolding walks_below_def by blast
  then have "prefix (comps (root fac) @ [UserName conn]) (comps dir)"
    by (simp only: comps_join_name [OF assms(2) secure_name_ok [OF d(2)]])
  moreover obtain perm where "wd_OpenStat F (path_join [dir, userUpstreamFile]) = Inr perm" "noCheckPerm fac \<or> perm AND 63 = 0"
    "wd_ReadFile F (path_join [dir, userUpstreamFile]) = Inr data"
    using Readfile_checked [OF d(3)] by (auto simp: wd_at_def)
  ultimately show ?thesis
    using d u(2) by blast
qed

definition demo_fac :: workdingdirFactory where
  "demo_fac = \<lparr>root = ''/var'', allowBadUsername = False, noPasswordAuth = False, noCheckPerm = False,
     strictHostKey = True, recursiveSearch = False\<rparr>"

definition demo_wd_fs :: wd_fs where
  "demo_wd_fs = \<lparr>os_Stat = \<lambda>_. NotExist, wd_OpenStat = \<lambda>_. Inr 0x180,
     wd_ReadFile = \<lambda>p. if p = ''/var/u/known_hosts'' then Inr [] else Inr (bytes_of (''git@h:22'' @ [newline])),
     filepath_Walk = \<lambda>r. [(r, WalkDir)]\<rparr>"

lemma demo_wd_accepts: "\<exists>u. skel_PasswordCallback (wd_listPipe demo_wd_fs demo_fac) demo_meta [1] = Some (Inr (Some u)) \<and> KnownHostsData u = []"
proof -
  have "case skel_PasswordCallback (wd_listPipe demo_wd_fs demo_fac) demo_meta [1] of Some (Inr (Some u)) \<Rightarrow> KnownHostsData u = [] | _ \<Rightarrow> False"
    by code_simp
  then show ?thesis
    by (auto split: option.splits sum.splits)
qed

theorem workingdir_confined_witness:
  "\<exists>u dir. skel_PasswordCallback (wd_listPipe demo_wd_fs demo_fac) demo_meta [1] = Some (Inr (Some u))
    \<and> prefix (comps ''/var'' @ [''u'']) (comps dir)"
proof -
  have w: "walks_below demo_wd_fs"
    by (simp add: walks_below_def demo_wd_fs_def)
  have f: "root demo_fac \<noteq> ''''" "\<not> allowBadUsername demo_fac"
    by (simp_all add: demo_fac_def)
  obtain u where u: "skel_PasswordCallback (wd_listPipe demo_wd_fs demo_fac) demo_meta [1] = Some (Inr (Some u))"
    using demo_wd_accepts by blast
  obtain dir where "prefix (comps (root demo_fac) @ [UserName demo_meta]) (comps dir)"
    using workingdir_confined [OF w f disjI2 [OF u]] by blast
  then show ?thesis
    using u by (auto simp: demo_fac_def demo_meta_def)
qed

text \<open>
  With strict host keys and an empty known-hosts file the reply carries no known hosts, and the daemon then accepts every host
  key: the file is treated like the absence of the option, not like a list without hosts.
\<close>

lemma strict_empty_known_hosts:
  assumes "Strict w" "Readfile F w userKnownHosts = Inr []" "skel_createUpstream conn (wd_to F w host user) pw = Inr u"
    and "\<not> hasVerifyHostKeyCallback g"
  shows "buildHostKeyCallback E g meta u hostname addr key = None"
  using createUpstream_host(1) [OF assms(3)] assms(1,2,4)
  by (simp add: buildHostKeyCallback_def wd_to_def wd_KnownHosts_def Let_def)

lemma exists_returns: "stat_works F \<Longrightarrow> \<exists>b. Exists F w file = Some b"
  by (auto simp: stat_works_def Exists_def split: stat_result.splits)

lemma exists_panics: "os_Stat F (fullpath w file) = StatError e \<Longrightarrow> Exists F w file = None"
  by (simp add: Exists_def)

subsection \<open>The upstream file\<close>

text \<open>What the file format says: the first line that is neither blank nor a comment.\<close>

definition significant :: "string \<Rightarrow> bool" where
  "significant line \<longleftrightarrow> trim_space line \<noteq> '''' \<and> hd (trim_space line) \<noteq> CHR ''#''"

lemma trim_space_newline: "trim_space (line @ [newline]) = trim_space line"
proof -
  have n: "is_space newline"
    by (simp add: is_space_def)
  show ?thesis
  proof (cases "\<forall>c \<in> set line. is_space c")
    case True
    then have a: "dropWhile is_space line = []" "dropWhile is_space (line @ [newline]) = []"
      using n by (simp_all add: dropWhile_eq_Nil_conv)
    show ?thesis
      unfolding trim_space_def a ..
  next
    case False
    then have "dropWhile is_space (line @ [newline]) = dropWhile is_space line @ [newline]"
      by (auto simp: dropWhile_append)
    then show ?thesis
      using n by (simp add: trim_space_def)
  qed
qed

text \<open>
  For a file all of whose lines end with a newline, the loop returns the first line, without surrounding white space,
  that is neither blank nor a comment, and the empty string when there is none.
\<close>

theorem upstream_line_terminated:
  assumes "\<forall>l \<in> set ls. newline \<notin> set l"
  shows "upstream_line (concat (map (\<lambda>l. l @ [newline]) ls)) =
    (case find significant ls of None \<Rightarrow> '''' | Some l \<Rightarrow> trim_space l)"
  using assms
proof (induction ls)
  case Nil
  then show ?case
    by (simp add: upstream_line.simps cut_def)
next
  case (Cons l ls)
  have "cut newline (l @ newline # concat (map (\<lambda>l. l @ [newline]) ls)) = Some (l, concat (map (\<lambda>l. l @ [newline]) ls))"
    using Cons.prems by (intro cut_append) simp
  then show ?case
    using Cons by (subst upstream_line.simps) (simp add: Let_def significant_def [of l] trim_space_newline)
qed

theorem upstream_line_terminated_witness:
  "upstream_line (''# c'' @ [newline] @ '' h:22 '' @ [newline]) = ''h:22''"
  using upstream_line_terminated [of "[''# c'', '' h:22 '']"]
  by (simp add: significant_def trim_space_def is_space_def)

text \<open>A comment on a last line without a newline is taken as the address of the upstream.\<close>

lemma unterminated_comment: "upstream_line ''# no upstream yet'' = ''# no upstream yet''"
  by (subst upstream_line.simps) (simp add: cut_def)

end
