(* ===== verification/Docker_Plugin.thy ===== *)
theory Docker_Plugin
  imports Skel
begin

text \<open>
  The docker plugin (\<^verbatim>\<open>plugin/docker/docker.go\<close>, \<^verbatim>\<open>skel.go\<close>, \<^verbatim>\<open>dockersshd_bridge.go\<close>): pipes from the labels of the
  running containers, and the keys by which the local bridge tells the containers apart.

  Parameters are the docker API (the container list, the inspection of a network), the listener, the base64 decoder and the key
  generator.  The state of the bridge is read and written under one mutex; an operation that releases the mutex in between is split at
  that point.
\<close>

section \<open>State of the bridge\<close>

record bridge =
  BridgeAddr :: string
  Cmds :: strmap
  Keys :: "string \<rightharpoonup> bytes"
  PrivateKeys :: "(string \<times> string) list"
  KeyToContainer :: "bytes \<rightharpoonup> string"

definition empty_bridge :: bridge where
  "empty_bridge = \<lparr>BridgeAddr = '''', Cmds = Map.empty, Keys = Map.empty, PrivateKeys = [], KeyToContainer = Map.empty\<rparr>"

text \<open>The value a Go map gives for an absent key.\<close>

definition get :: "('k \<rightharpoonup> string) \<Rightarrow> 'k \<Rightarrow> string" where
  "get m k = (case m k of None \<Rightarrow> '''' | Some v \<Rightarrow> v)"

definition setDockerSshdCmdLocked :: "string \<Rightarrow> string \<Rightarrow> bridge \<Rightarrow> bridge" where
  "setDockerSshdCmdLocked cid cmd b = (if cmd \<noteq> '''' then b\<lparr>Cmds := (Cmds b)(cid \<mapsto> cmd)\<rparr> else b)"

abbreviation defaultDockerSshdShell :: string where
  "defaultDockerSshdShell \<equiv> ''/bin/sh''"

definition dockerSshdCmd :: "string \<Rightarrow> bridge \<Rightarrow> string" where
  "dockerSshdCmd cid b = (if get (Cmds b) cid = '''' then defaultDockerSshdShell else get (Cmds b) cid)"

definition ensure_first :: "bridge \<Rightarrow> string option" where
  "ensure_first b = (if BridgeAddr b \<noteq> '''' then Some (BridgeAddr b) else None)"

definition ensure_second :: "string \<Rightarrow> bridge \<Rightarrow> bridge \<times> string" where
  "ensure_second addr b = (if BridgeAddr b = '''' then (b\<lparr>BridgeAddr := addr\<rparr>, addr) else (b, BridgeAddr b))"

definition ensureDockerSshdBridge :: "string res \<Rightarrow> bridge \<Rightarrow> bridge \<times> string res" where
  "ensureDockerSshdBridge listen b =
     (case ensure_first b of
        Some addr \<Rightarrow> (b, Inr addr)
      | None \<Rightarrow>
          (case listen of
             Inl e \<Rightarrow> (b, Inl e)
           | Inr addr \<Rightarrow> (case ensure_second addr b of (b', a) \<Rightarrow> (b', Inr a))))"

text \<open>The two critical sections of the registration; between them the public key of the new private key is computed.\<close>

definition register_first :: "string \<Rightarrow> string \<Rightarrow> bridge \<Rightarrow> bridge \<times> string option" where
  "register_first cid cmd b =
     (let k = get (map_of (PrivateKeys b)) cid
      in if k \<noteq> '''' then (setDockerSshdCmdLocked cid cmd b, Some k) else (b, None))"

definition register_second :: "string \<Rightarrow> string \<Rightarrow> string \<Rightarrow> bytes \<Rightarrow> bridge \<Rightarrow> bridge \<times> string" where
  "register_second cid cmd privateKeyBase64 pubKey b =
     (let k = get (map_of (PrivateKeys b)) cid
      in if k \<noteq> '''' then (setDockerSshdCmdLocked cid cmd b, k)
         else
           let b1 = (case Keys b cid of
                       Some oldPubKey \<Rightarrow> b\<lparr>KeyToContainer := (KeyToContainer b)(oldPubKey := None)\<rparr>
                     | None \<Rightarrow> b);
               b2 = b1\<lparr>PrivateKeys := put (PrivateKeys b1) cid privateKeyBase64,
                       Keys := (Keys b1)(cid \<mapsto> pubKey),
                       KeyToContainer := (KeyToContainer b1)(pubKey \<mapsto> cid)\<rparr>
           in (setDockerSshdCmdLocked cid cmd b2, privateKeyBase64))"

record docker_env =
  generateKey :: "string res"
  decode_b64 :: "string \<Rightarrow> bytes res"
  publicKeyOf :: "bytes \<Rightarrow> bytes res"
  listenAddr :: "string res"
  networkInspect :: "string \<Rightarrow> string res"

definition registerDockerSshdContainer :: "docker_env \<Rightarrow> string \<Rightarrow> string \<Rightarrow> bridge \<Rightarrow> bridge \<times> string res" where
  "registerDockerSshdContainer E cid cmd b =
     (case register_first cid cmd b of
        (b', Some k) \<Rightarrow> (b', Inr k)
      | (b', None) \<Rightarrow>
          (case bind_res (generateKey E) (\<lambda>k. bind_res (decode_b64 E k) (\<lambda>priv. bind_res (publicKeyOf E priv) (\<lambda>pub. Inr (k, pub)))) of
             Inl e \<Rightarrow> (b', Inl e)
           | Inr (k, pub) \<Rightarrow> (case register_second cid cmd k pub b' of (b'', r) \<Rightarrow> (b'', Inr r))))"

fun sync_loop :: "string list \<Rightarrow> (string \<times> string) list \<Rightarrow> bridge \<Rightarrow> bridge" where
  "sync_loop active [] b = b"
| "sync_loop active ((cid, _) # es) b =
     (if cid \<in> set active then sync_loop active es b
      else
        let b1 = b\<lparr>PrivateKeys := del (PrivateKeys b) cid, Cmds := (Cmds b)(cid := None), Keys := (Keys b)(cid := None)\<rparr>
        in sync_loop active es
             (case Keys b cid of
                Some pubKey \<Rightarrow> b1\<lparr>KeyToContainer := (KeyToContainer b1)(pubKey := None)\<rparr>
              | None \<Rightarrow> b1))"

definition syncDockerSshdState :: "string list \<Rightarrow> bridge \<Rightarrow> bridge" where
  "syncDockerSshdState active b = sync_loop active (PrivateKeys b) b"

text \<open>The callback of the bridge server for a public key in wire form: the container and its command.\<close>

definition bridge_PublicKeyCallback :: "bytes \<Rightarrow> bridge \<Rightarrow> (string \<times> string) res" where
  "bridge_PublicKeyCallback key b =
     (case KeyToContainer b key of
        None \<Rightarrow> Inl (Errorf ''unexpected public key for docker-sshd upstream'' [])
      | Some cid \<Rightarrow> Inr (cid, if get (Cmds b) cid = '''' then defaultDockerSshdShell else get (Cmds b) cid))"

section \<open>Listing the containers\<close>

record pipe =
  ClientUsername :: string
  ContainerUsername :: string
  PipeHost :: string
  DockerSshdCmd :: string
  PipeAuthorizedKeys :: string
  PipeTrustedUserCAKeys :: string
  PipePrivateKey :: string

record network =
  IPAddress :: "string option"
  NetworkID :: string

record container =
  ID :: string
  Labels :: strmap
  Networks :: "network list"

definition label :: "container \<Rightarrow> string \<Rightarrow> string" where
  "label c k = get (Labels c) k"

definition pipe_of :: "container \<Rightarrow> pipe" where
  "pipe_of c = \<lparr>ClientUsername = label c ''sshpiper.username'', ContainerUsername = label c ''sshpiper.container_username'',
     PipeHost = '''', DockerSshdCmd = label c ''sshpiper.docker_sshd_cmd'', PipeAuthorizedKeys = label c ''sshpiper.authorized_keys'',
     PipeTrustedUserCAKeys = label c ''sshpiper.trusted_user_ca_keys'', PipePrivateKey = label c ''sshpiper.private_key''\<rparr>"

text \<open>The address of a container: \<open>Inr None\<close> skips it.\<close>

definition container_host :: "docker_env \<Rightarrow> container \<Rightarrow> string option res" where
  "container_host E c =
     (let hostcandidates = filter (\<lambda>nw. IPAddress nw \<noteq> None) (Networks c);
          ip = (\<lambda>nw. the (IPAddress nw));
          with_port = (\<lambda>h. let port = label c ''sshpiper.port''
                           in join_host_port h (if port \<noteq> '''' then port else ''22''))
      in case hostcandidates of
           [] \<Rightarrow> Inl (Errorf ''no ip address found for container %v'' [ID c])
         | [nw] \<Rightarrow> Inr (Some (with_port (ip nw)))
         | nw # _ \<Rightarrow>
             let netname = label c ''sshpiper.network''
             in if netname = '''' then Inl (Errorf ''multiple networks found for container %v, please specify sshpiper.network'' [ID c])
                else (case networkInspect E netname of
                        Inl _ \<Rightarrow> Inr None
                      | Inr netid \<Rightarrow>
                          (case find (\<lambda>n. NetworkID n = netid) hostcandidates of
                             Some n \<Rightarrow> Inr (Some (with_port (ip n)))
                           | None \<Rightarrow> Inr (Some (with_port (ip nw))))))"

text \<open>One container: the state, the pipe if it gives one, and whether it uses the bridge.\<close>

definition list_one :: "docker_env \<Rightarrow> container \<Rightarrow> bridge \<Rightarrow> bridge \<times> (pipe option \<times> bool) res" where
  "list_one E c b =
     (let p = pipe_of c
      in if ClientUsername p = '''' \<and> PipeAuthorizedKeys p = '''' \<and> PipeTrustedUserCAKeys p = '''' then (b, Inr (None, False))
         else if map to_lower (label c ''sshpiper.docker_exec_cmd'') = ''true'' then
           if PipeAuthorizedKeys p = '''' \<and> PipeTrustedUserCAKeys p = '''' then (b, Inr (None, False))
           else (case ensureDockerSshdBridge (listenAddr E) b of
                   (b1, Inl _) \<Rightarrow> (b1, Inr (None, False))
                 | (b1, Inr addr) \<Rightarrow>
                     (case registerDockerSshdContainer E (ID c) (DockerSshdCmd p) b1 of
                        (b2, Inl _) \<Rightarrow> (b2, Inr (None, False))
                      | (b2, Inr k) \<Rightarrow> (b2, Inr (Some (p\<lparr>PipePrivateKey := k, PipeHost := addr\<rparr>), True))))
         else if (PipeAuthorizedKeys p \<noteq> '''' \<or> PipeTrustedUserCAKeys p \<noteq> '''') \<and> PipePrivateKey p = '''' then (b, Inr (None, False))
         else (b, bind_res (container_host E c) (\<lambda>h. Inr (map_option (\<lambda>a. p\<lparr>PipeHost := a\<rparr>) h, False))))"

fun list_loop :: "(nat \<Rightarrow> docker_env) \<Rightarrow> container list \<Rightarrow> bridge \<Rightarrow> pipe list \<Rightarrow> string list \<Rightarrow> bridge \<times> (pipe list \<times> string list) res" where
  "list_loop E [] b ps active = (b, Inr (ps, active))"
| "list_loop E (c # cs) b ps active =
     (case list_one (E (length cs)) c b of
        (b', Inl e) \<Rightarrow> (b', Inl e)
      | (b', Inr (p, exec)) \<Rightarrow>
          list_loop E cs b' (case p of None \<Rightarrow> ps | Some q \<Rightarrow> ps @ [q]) (if exec then active @ [ID c] else active))"

definition docker_list :: "container list res \<Rightarrow> (nat \<Rightarrow> docker_env) \<Rightarrow> bridge \<Rightarrow> bridge \<times> pipe list res" where
  "docker_list items E b =
     (case items of
        Inl e \<Rightarrow> (b, Inl e)
      | Inr cs \<Rightarrow>
          (case list_loop E cs b [] [] of
             (b', Inl e) \<Rightarrow> (b', Inl e)
           | (b', Inr (ps, active)) \<Rightarrow> (syncDockerSshdState active b', Inr ps)))"

section \<open>Pipes\<close>

definition docker_to :: "(string \<Rightarrow> bytes res) \<Rightarrow> pipe \<Rightarrow> string \<Rightarrow> skel_to" where
  "docker_to dec p username =
     \<lparr>to_Host = \<lambda>_. PipeHost p, to_User = \<lambda>_. username, to_KnownHosts = \<lambda>_. Inr [],
      to_OverridePassword = (if PipePrivateKey p \<noteq> '''' then None else Some (\<lambda>_. Inr None)),
      to_PrivateKey = (if PipePrivateKey p \<noteq> '''' then Some (\<lambda>_. bind_res (dec (PipePrivateKey p)) (\<lambda>k. Inr (k, []))) else None)\<rparr>"

definition docker_MatchConn :: "(string \<Rightarrow> bytes res) \<Rightarrow> pipe \<Rightarrow> conn_meta \<Rightarrow> skel_to option res" where
  "docker_MatchConn dec p conn =
     (let user = UserName conn;
          matched = (ClientUsername p = user \<or> ClientUsername p = '''');
          targetuser = (if ContainerUsername p = '''' then user else ContainerUsername p)
      in Inr (if matched then Some (docker_to dec p targetuser) else None))"

definition docker_from :: "(string \<Rightarrow> bytes res) \<Rightarrow> pipe \<Rightarrow> skel_pipe" where
  "docker_from dec p =
     (let byKey = (PipePrivateKey p \<noteq> '''' \<or> PipeAuthorizedKeys p \<noteq> '''' \<or> PipeTrustedUserCAKeys p \<noteq> '''')
      in [\<lparr>MatchConn = docker_MatchConn dec p,
           TestPassword = (if byKey then None else Some (\<lambda>_ _. Inr True)),
           from_PublicKey =
             (if byKey then Some \<lparr>AuthorizedKeys = \<lambda>_. dec (PipeAuthorizedKeys p), TrustedUserCAKeys = \<lambda>_. dec (PipeTrustedUserCAKeys p)\<rparr>
              else None)\<rparr>])"

definition docker_listPipe :: "(string \<Rightarrow> bytes res) \<Rightarrow> container list res \<Rightarrow> (nat \<Rightarrow> docker_env) \<Rightarrow> bridge \<Rightarrow> list_pipe" where
  "docker_listPipe dec items E b _ = bind_res (snd (docker_list items E b)) (\<lambda>ps. Inr (map (docker_from dec) ps))"

interpretation docker: skel_plugin "docker_listPipe dec items E b" for dec items E b
proof
  show "TestPassword fr = None \<longleftrightarrow> from_PublicKey fr \<noteq> None"
    if "docker_listPipe dec items E b conn = Inr pipes" "fr \<in> set (concat pipes)" for conn pipes fr
    using that by (auto simp: docker_listPipe_def bind_res_eq_Inr docker_from_def Let_def)
  show "to_OverridePassword to = None \<longleftrightarrow> to_PrivateKey to \<noteq> None"
    if "docker_listPipe dec items E b conn = Inr pipes" "fr \<in> set (concat pipes)" "MatchConn fr conn = Inr (Some to)" for conn pipes fr to
    using that by (auto simp: docker_listPipe_def bind_res_eq_Inr docker_from_def docker_MatchConn_def docker_to_def Let_def split: if_splits)
qed

section \<open>Keys of the containers\<close>

definition inverse_maps :: "('a \<rightharpoonup> 'b) \<Rightarrow> ('b \<rightharpoonup> 'a) \<Rightarrow> bool" where
  "inverse_maps f g \<longleftrightarrow> (\<forall>a b. f a = Some b \<longleftrightarrow> g b = Some a)"

definition without :: "'b option \<Rightarrow> ('b \<rightharpoonup> 'a) \<Rightarrow> ('b \<rightharpoonup> 'a)" where
  "without ob g = (case ob of Some b \<Rightarrow> g(b := None) | None \<Rightarrow> g)"

lemma inverse_del:
  assumes "inverse_maps f g"
  shows "inverse_maps (f(a := None)) (without (f a) g)"
proof (cases "f a")
  case None
  then have "g b \<noteq> Some a" for b
    using assms unfolding inverse_maps_def by (metis option.distinct(1))
  with None show ?thesis
    using assms unfolding inverse_maps_def without_def by simp
next
  case (Some b)
  then have "g b' = Some a \<longleftrightarrow> b' = b" for b'
    using assms unfolding inverse_maps_def by (metis option.inject)
  moreover have "g b = Some a' \<longleftrightarrow> a' = a" for a'
    using Some assms unfolding inverse_maps_def by (metis option.inject)
  moreover have "without (f a) g = g(b := None)"
    by (simp add: without_def Some)
  moreover have "f a' = Some c \<longleftrightarrow> g c = Some a'" for a' c
    using assms by (simp add: inverse_maps_def)
  ultimately show ?thesis
    unfolding inverse_maps_def by auto
qed

lemma inverse_put:
  assumes "inverse_maps f g" "g b = None"
  shows "inverse_maps (f(a \<mapsto> b)) ((without (f a) g)(b \<mapsto> a))"
proof -
  have "f a' \<noteq> Some b" for a'
    using assms unfolding inverse_maps_def by (metis option.distinct(1))
  then show ?thesis
    using inverse_del [OF assms(1), of a] unfolding inverse_maps_def by (auto split: if_splits)
qed

definition bridge_inv :: "bridge \<Rightarrow> bool" where
  "bridge_inv b \<longleftrightarrow> gomap (PrivateKeys b) \<and> dom (Keys b) = set (keys (PrivateKeys b))
     \<and> inverse_maps (Keys b) (KeyToContainer b)"

text \<open>
  The critical sections in any order, from any number of connections.  A newly generated key is not yet registered.
\<close>

inductive bridge_step :: "bridge \<Rightarrow> bridge \<Rightarrow> bool" where
  step_listen: "bridge_step b (fst (ensure_second addr b))"
| step_first: "bridge_step b (fst (register_first cid cmd b))"
| step_second: "KeyToContainer b pubKey = None \<Longrightarrow> bridge_step b (fst (register_second cid cmd privateKey pubKey b))"
| step_sync: "bridge_step b (syncDockerSshdState active b)"
| step_closed: "bridge_step b (b\<lparr>BridgeAddr := ''''\<rparr>)"

lemma setCmd_simps [simp]:
  "PrivateKeys (setDockerSshdCmdLocked cid cmd b) = PrivateKeys b"
  "Keys (setDockerSshdCmdLocked cid cmd b) = Keys b"
  "KeyToContainer (setDockerSshdCmdLocked cid cmd b) = KeyToContainer b"
  by (simp_all add: setDockerSshdCmdLocked_def)

lemma register_second_inv:
  assumes "bridge_inv b" "KeyToContainer b pubKey = None"
  shows "bridge_inv (fst (register_second cid cmd privateKey pubKey b))"
proof (cases "get (map_of (PrivateKeys b)) cid = ''''")
  case True
  have i: "gomap (PrivateKeys b)" "dom (Keys b) = set (keys (PrivateKeys b))"
    "inverse_maps (Keys b) (KeyToContainer b)"
    using assms(1) by (simp_all add: bridge_inv_def)
  let ?b = "fst (register_second cid cmd privateKey pubKey b)"
  have p: "PrivateKeys ?b = put (PrivateKeys b) cid privateKey"
    and k: "Keys ?b = (Keys b)(cid \<mapsto> pubKey)"
    and m: "KeyToContainer ?b = (without (Keys b cid) (KeyToContainer b))(pubKey \<mapsto> cid)"
    using True by (simp_all add: register_second_def Let_def without_def split: option.split)
  have "inverse_maps (Keys ?b) (KeyToContainer ?b)"
    unfolding k m by (rule inverse_put [OF i(3) assms(2)])
  moreover have "gomap (PrivateKeys ?b)"
    unfolding p by (rule gomap_put [OF i(1)])
  moreover have "dom (Keys ?b) = set (keys (PrivateKeys ?b))"
    unfolding p k using i(2) by simp
  ultimately show ?thesis
    unfolding bridge_inv_def by blast
qed (use assms(1) in \<open>simp add: register_second_def Let_def bridge_inv_def\<close>)

lemma sync_one_inv:
  assumes "bridge_inv b"
  shows "bridge_inv (case Keys b cid of
      Some pubKey \<Rightarrow> b\<lparr>PrivateKeys := del (PrivateKeys b) cid, Cmds := (Cmds b)(cid := None), Keys := (Keys b)(cid := None),
        KeyToContainer := (KeyToContainer b)(pubKey := None)\<rparr>
    | None \<Rightarrow> b\<lparr>PrivateKeys := del (PrivateKeys b) cid, Cmds := (Cmds b)(cid := None), Keys := (Keys b)(cid := None)\<rparr>)"
  using assms inverse_del [of "Keys b" "KeyToContainer b" cid]
  by (cases "Keys b cid") (auto simp: bridge_inv_def without_def)

lemma sync_loop_inv: "bridge_inv b \<Longrightarrow> bridge_inv (sync_loop active es b)"
proof (induction active es b rule: sync_loop.induct)
  case (2 active cid k es b)
  then show ?case
    using sync_one_inv [OF 2(3), of cid] by (cases "Keys b cid") (simp_all add: Let_def)
qed simp

lemma sync_loop_keys:
  "dom (Keys (sync_loop active es b)) = dom (Keys b) - (set (keys es) - set active)"
proof (induction active es b rule: sync_loop.induct)
  case (2 active cid k es b)
  then show ?case
    by (cases "Keys b cid") (auto simp: Let_def keys_def split: if_splits)
qed (simp add: keys_def)

lemma bridge_step_inv: "bridge_step b b' \<Longrightarrow> bridge_inv b \<Longrightarrow> bridge_inv b'"
proof (induction rule: bridge_step.induct)
  case (step_second b pubKey cid cmd privateKey)
  then show ?case
    by (simp add: register_second_inv)
next
  case (step_sync b active)
  then show ?case
    by (simp add: syncDockerSshdState_def sync_loop_inv)
qed (simp_all add: bridge_inv_def ensure_second_def register_first_def Let_def)

interpretation bridge: step_invariant "\<lambda>b. b = empty_bridge" bridge_step bridge_inv
proof
  show "bridge_inv b" if "b = empty_bridge" for b
    using that by (simp add: bridge_inv_def empty_bridge_def keys_def inverse_maps_def)
  show "bridge_inv b'" if "bridge_inv b" "bridge_step b b'" for b b'
    by (rule bridge_step_inv [OF that(2,1)])
qed

text \<open>
  C22: the bridge tells containers apart by their keys.  However registrations and clean-ups of several connections interleave, a
  public key opens a container exactly when it is the key generated for that container, so no key opens two containers;
  and after a clean-up no key opens a container that is not active any more.
\<close>

theorem docker_keys_isolated:
  assumes "bridge_step\<^sup>*\<^sup>* empty_bridge b"
  shows "(\<forall>key cid cmd. bridge_PublicKeyCallback key b = Inr (cid, cmd) \<longleftrightarrow> Keys b cid = Some key \<and> cmd = dockerSshdCmd cid b)
    \<and> (\<forall>c1 c2 key. Keys b c1 = Some key \<longrightarrow> Keys b c2 = Some key \<longrightarrow> c1 = c2)
    \<and> (\<forall>active key cid cmd. bridge_PublicKeyCallback key (syncDockerSshdState active b) = Inr (cid, cmd) \<longrightarrow> cid \<in> set active)"
proof -
  have i: "bridge_inv b"
    by (rule bridge.reachable_inv [OF refl assms])
  have cb: "bridge_PublicKeyCallback key b' = Inr (cid, cmd) \<longleftrightarrow> Keys b' cid = Some key \<and> cmd = dockerSshdCmd cid b'"
    if "bridge_inv b'" for key cid cmd b'
  proof -
    have "Keys b' cid = Some key \<longleftrightarrow> KeyToContainer b' key = Some cid"
      using that unfolding bridge_inv_def inverse_maps_def by blast
    then show ?thesis
      by (auto simp: bridge_PublicKeyCallback_def dockerSshdCmd_def split: option.split)
  qed
  have "c1 = c2" if "Keys b c1 = Some key" "Keys b c2 = Some key" for c1 c2 key
    using i that unfolding bridge_inv_def inverse_maps_def by (metis option.inject)
  moreover have "cid \<in> set active" if "bridge_PublicKeyCallback key (syncDockerSshdState active b) = Inr (cid, cmd)" for active key cid cmd
  proof -
    have "cid \<in> dom (Keys (syncDockerSshdState active b))"
      using that cb [of "syncDockerSshdState active b"] sync_loop_inv [OF i] by (simp add: syncDockerSshdState_def domI)
    then show ?thesis
      using i by (simp add: syncDockerSshdState_def sync_loop_keys bridge_inv_def)
  qed
  ultimately show ?thesis
    using cb [OF i] by blast
qed

theorem docker_keys_isolated_witness:
  "bridge_PublicKeyCallback [7] (fst (register_second ''c'' '''' ''k'' [7] empty_bridge)) = Inr (''c'', ''/bin/sh'')"
proof -
  let ?b = "fst (register_second ''c'' '''' ''k'' [7] empty_bridge)"
  have "bridge_step\<^sup>*\<^sup>* empty_bridge ?b"
    by (rule r_into_rtranclp, rule step_second) (simp add: empty_bridge_def)
  note t = docker_keys_isolated [OF this]
  have "Keys ?b ''c'' = Some [7]" "dockerSshdCmd ''c'' ?b = ''/bin/sh''"
    by (simp_all add: register_second_def empty_bridge_def get_def setDockerSshdCmdLocked_def dockerSshdCmd_def)
  then show ?thesis
    using conjunct1 [OF t] by simp
qed

end
