(* ===== verification/Session_Store.thy ===== *)
theory Session_Store
  imports Go_Path
begin

text \<open>
  Where the reverse-tunnel plugin keeps its registrations (\<^verbatim>\<open>plugin/revtunnel/store.go\<close>, \<^verbatim>\<open>store_memory.go\<close>,
  \<^verbatim>\<open>store_file.go\<close>).  The interface \<^verbatim>\<open>sessionStore\<close> is the locale \<open>session_store\<close>: its laws say what a store
  promises about the records it holds.  The memory store and the file store are interpretations.
\<close>

section \<open>Records and the interface\<close>

record tunnel =
  Guid :: string
  TargetUser :: string
  BindAddr :: string
  BindPort :: u32
  ConnectorKeyWire :: bytes
  UpstreamKeyPEM :: bytes
  UpstreamKeyPub :: string
  AllowPassword :: bool
  CreatedAt :: int
  LastActivity :: int

record 's store_ops =
  so_put :: "tunnel \<Rightarrow> 's \<Rightarrow> 's \<times> goerr option"
  so_get :: "string \<Rightarrow> 's \<Rightarrow> tunnel option res"
  so_delete :: "string \<Rightarrow> 's \<Rightarrow> 's \<times> goerr option"
  so_list :: "'s \<Rightarrow> tunnel list res"

text \<open>\<open>held s\<close> is the abstract content of the store: the record kept for each guid.\<close>

locale session_store =
  fixes S :: "'s store_ops" and ok :: "'s \<Rightarrow> bool" and held :: "'s \<Rightarrow> string \<rightharpoonup> tunnel"
  assumes held_guid: "ok s \<Longrightarrow> held s g = Some r \<Longrightarrow> Guid r = g"
    and put_stores: "ok s \<Longrightarrow> so_put S r s = (s', None) \<Longrightarrow> ok s' \<and> held s' = (held s)(Guid r \<mapsto> r)"
    and put_fails: "ok s \<Longrightarrow> so_put S r s = (s', Some e) \<Longrightarrow> ok s' \<and> held s' = held s"
    and get_held: "ok s \<Longrightarrow> so_get S g s = Inr x \<Longrightarrow> x = held s g"
    and delete_removes: "ok s \<Longrightarrow> so_delete S g s = (s', None) \<Longrightarrow> ok s' \<and> held s' = (held s)(g := None)"
    and delete_fails: "ok s \<Longrightarrow> so_delete S g s = (s', Some e) \<Longrightarrow> ok s' \<and> held s' = held s"
    and list_held: "ok s \<Longrightarrow> so_list S s = Inr rs \<Longrightarrow> distinct rs \<and> set rs = ran (held s)"
begin

lemma put_held:
  assumes "ok s"
  shows "ok (fst (so_put S r s)) \<and>
    held (fst (so_put S r s)) = (if snd (so_put S r s) = None then (held s)(Guid r \<mapsto> r) else held s)"
proof (cases "so_put S r s")
  case (Pair s' oe)
  show ?thesis
    using put_stores [OF assms, of r s'] put_fails [OF assms, of r s'] by (cases oe) (simp_all add: Pair)
qed

lemma delete_held:
  assumes "ok s"
  shows "ok (fst (so_delete S g s)) \<and>
    held (fst (so_delete S g s)) = (if snd (so_delete S g s) = None then (held s)(g := None) else held s)"
proof (cases "so_delete S g s")
  case (Pair s' oe)
  show ?thesis
    using delete_removes [OF assms, of g s'] delete_fails [OF assms, of g s'] by (cases oe) (simp_all add: Pair)
qed

lemma delete_other: "ok s \<Longrightarrow> g' \<noteq> g \<Longrightarrow> held (fst (so_delete S g s)) g' = held s g'"
  using delete_held [of s g] by simp

lemma get_after_put:
  "ok s \<Longrightarrow> so_put S r s = (s', None) \<Longrightarrow> so_get S (Guid r) s' = Inr x \<Longrightarrow> x = Some r"
  using put_stores [of s r s'] get_held [of s' "Guid r" x] by simp

end

section \<open>The memory store\<close>

type_synonym memory_store = "(string \<times> tunnel) list"

definition memoryStore_Put :: "tunnel \<Rightarrow> memory_store \<Rightarrow> memory_store \<times> goerr option" where
  "memoryStore_Put rec s = (put s (Guid rec) rec, None)"

definition memoryStore_Get :: "string \<Rightarrow> memory_store \<Rightarrow> tunnel option res" where
  "memoryStore_Get guid s = Inr (map_of s guid)"

definition memoryStore_Delete :: "string \<Rightarrow> memory_store \<Rightarrow> memory_store \<times> goerr option" where
  "memoryStore_Delete guid s = (del s guid, None)"

definition memoryStore_List :: "memory_store \<Rightarrow> tunnel list res" where
  "memoryStore_List s = Inr (map snd s)"

definition memory_ops :: "memory_store store_ops" where
  "memory_ops = \<lparr>so_put = memoryStore_Put, so_get = memoryStore_Get, so_delete = memoryStore_Delete, so_list = memoryStore_List\<rparr>"

definition memory_ok :: "memory_store \<Rightarrow> bool" where
  "memory_ok s \<longleftrightarrow> gomap s \<and> (\<forall>g r. map_of s g = Some r \<longrightarrow> Guid r = g)"

lemma memory_list:
  assumes "memory_ok s"
  shows "distinct (map snd s) \<and> set (map snd s) = ran (map_of s)"
proof -
  have g: "gomap s" and k: "\<And>g r. (g, r) \<in> set s \<Longrightarrow> Guid r = g"
    using assms by (auto simp: memory_ok_def gomap_mem)
  have "map Guid (map snd s) = keys s"
    using k by (auto simp: keys_def)
  then have "distinct (map Guid (map snd s))"
    using g by (simp add: gomap_def)
  then have "distinct (map snd s)"
    by (auto simp: distinct_map inj_on_def)
  moreover have "set (map snd s) = ran (map_of s)"
    using g by (rule gomap_ran)
  ultimately show ?thesis
    by blast
qed

interpretation mem: session_store memory_ops memory_ok map_of
proof
  show "memory_ok s \<Longrightarrow> so_list memory_ops s = Inr rs \<Longrightarrow> distinct rs \<and> set rs = ran (map_of s)" for s rs
    using memory_list by (auto simp: memory_ops_def memoryStore_List_def)
qed (auto simp: memory_ops_def memory_ok_def memoryStore_Put_def memoryStore_Get_def memoryStore_Delete_def split: if_splits)

section \<open>The file store\<close>

text \<open>
  The directory of a file store maps file names to contents.  A content is the JSON text of a record
  (\<^verbatim>\<open>json.Unmarshal\<close> of it gives the record back) or any other text, which does not unmarshal.  The
  errors the operating system may report are the fields of \<open>os_errors\<close>; \<open>tmpRandom\<close> is the random part
  of the name \<^verbatim>\<open>os.CreateTemp\<close> chooses.
\<close>

datatype file_content = JsonOf tunnel | OtherText

type_synonym directory = "(string \<times> file_content) list"

record os_errors =
  tmpRandom :: string
  createTempErr :: "goerr option"
  tmpWriteErr :: "goerr option"
  chmodErr :: "goerr option"
  closeErr :: "goerr option"
  renameErr :: "goerr option"
  tmpRemoveErr :: "goerr option"
  readErr :: "string \<Rightarrow> goerr option"
  removeErr :: "string \<Rightarrow> goerr option"
  readDirErr :: "goerr option"

definition safe_char :: "char \<Rightarrow> bool" where
  "safe_char c \<longleftrightarrow> c \<in> set ''ABCDEFGHIJKLMNOPQRSTUVWXYZabcdefghijklmnopqrstuvwxyz0123456789_-''"

definition safeGuid :: "string \<Rightarrow> bool" where
  "safeGuid guid \<longleftrightarrow> 1 \<le> length guid \<and> length guid \<le> 128 \<and> list_all safe_char guid"

text \<open>\<^verbatim>\<open>path\<close>: the file of a guid, by its name in the store's directory.\<close>

definition fileStore_path :: "string \<Rightarrow> string res" where
  "fileStore_path guid =
     (if \<not> safeGuid guid then Inl (Errorf ''revtunnel: refusing unsafe guid %q'' [guid])
      else Inr (guid @ ''.json''))"

text \<open>\<^verbatim>\<open>filepath.Ext\<close> of a name without slash.\<close>

definition ext :: "string \<Rightarrow> string" where
  "ext name = (case last_index_byte (CHR ''.'') name of None \<Rightarrow> '''' | Some i \<Rightarrow> drop i name)"

definition tmp_name :: "os_errors \<Rightarrow> string" where
  "tmp_name X = ''.revtunnel-'' @ tmpRandom X @ ''.tmp''"

text \<open>The deferred clean-up: the error of the removal is ignored.\<close>

definition cleanup_tmp :: "os_errors \<Rightarrow> directory \<Rightarrow> directory" where
  "cleanup_tmp X d = (if tmpRemoveErr X = None then del d (tmp_name X) else d)"

definition fileStore_Put :: "os_errors \<Rightarrow> tunnel \<Rightarrow> directory \<Rightarrow> directory \<times> goerr option" where
  "fileStore_Put X rec d =
     (case fileStore_path (Guid rec) of
        Inl e \<Rightarrow> (d, Some e)
      | Inr p \<Rightarrow>
          (case createTempErr X of
             Some e \<Rightarrow> (d, Some e)
           | None \<Rightarrow>
               let d1 = put d (tmp_name X) OtherText
               in case tmpWriteErr X of
                    Some e \<Rightarrow> (cleanup_tmp X d1, Some e)
                  | None \<Rightarrow>
                      let d2 = put d1 (tmp_name X) (JsonOf rec)
                      in case chmodErr X of
                           Some e \<Rightarrow> (cleanup_tmp X d2, Some e)
                         | None \<Rightarrow>
                             (case closeErr X of
                                Some e \<Rightarrow> (cleanup_tmp X d2, Some e)
                              | None \<Rightarrow>
                                  (case renameErr X of
                                     Some e \<Rightarrow> (cleanup_tmp X d2, Some e)
                                   | None \<Rightarrow> (put (del d2 (tmp_name X)) p (JsonOf rec), None)))))"

definition read_record :: "os_errors \<Rightarrow> string \<Rightarrow> file_content \<Rightarrow> tunnel res" where
  "read_record X p c =
     (case readErr X p of
        Some e \<Rightarrow> Inl e
      | None \<Rightarrow> (case c of JsonOf rec \<Rightarrow> Inr rec | OtherText \<Rightarrow> Inl (Ext ''invalid character'')))"

definition fileStore_Get :: "os_errors \<Rightarrow> string \<Rightarrow> directory \<Rightarrow> tunnel option res" where
  "fileStore_Get X guid d =
     bind_res (fileStore_path guid) (\<lambda>p.
       case map_of d p of
         None \<Rightarrow> Inr None
       | Some c \<Rightarrow> bind_res (read_record X p c) (\<lambda>rec. Inr (Some rec)))"

definition fileStore_Delete :: "os_errors \<Rightarrow> string \<Rightarrow> directory \<Rightarrow> directory \<times> goerr option" where
  "fileStore_Delete X guid d =
     (case fileStore_path guid of
        Inl e \<Rightarrow> (d, Some e)
      | Inr p \<Rightarrow>
          (case map_of d p of
             None \<Rightarrow> (d, None)
           | Some _ \<Rightarrow> (case removeErr X p of Some e \<Rightarrow> (d, Some e) | None \<Rightarrow> (del d p, None))))"

fun list_records :: "os_errors \<Rightarrow> directory \<Rightarrow> tunnel list res" where
  "list_records X [] = Inr []"
| "list_records X ((name, c) # d) =
     (if ext name \<noteq> ''.json'' then list_records X d
      else bind_res (read_record X name c) (\<lambda>rec.
           bind_res (list_records X d) (\<lambda>out. Inr (rec # out))))"

definition fileStore_List :: "os_errors \<Rightarrow> directory \<Rightarrow> tunnel list res" where
  "fileStore_List X d = (case readDirErr X of Some e \<Rightarrow> Inl e | None \<Rightarrow> list_records X d)"

definition file_ops :: "os_errors \<Rightarrow> directory store_ops" where
  "file_ops X = \<lparr>so_put = fileStore_Put X, so_get = fileStore_Get X, so_delete = fileStore_Delete X, so_list = fileStore_List X\<rparr>"

subsection \<open>A directory of records\<close>

definition file_ok :: "directory \<Rightarrow> bool" where
  "file_ok d \<longleftrightarrow> gomap d \<and>
     (\<forall>n c. map_of d n = Some c \<longrightarrow> ext n = ''.json'' \<longrightarrow> (\<exists>r. c = JsonOf r \<and> n = Guid r @ ''.json'' \<and> safeGuid (Guid r)))"

fun json_record :: "file_content \<Rightarrow> tunnel option" where
  "json_record (JsonOf r) = Some r"
| "json_record OtherText = None"

definition file_held :: "directory \<Rightarrow> string \<rightharpoonup> tunnel" where
  "file_held d g = Option.bind (map_of d (g @ ''.json'')) json_record"

lemma json_record_Some [simp]: "json_record c = Some r \<longleftrightarrow> c = JsonOf r"
  by (cases c) auto

lemma file_held_iff: "file_held d g = Some r \<longleftrightarrow> map_of d (g @ ''.json'') = Some (JsonOf r)"
  by (auto simp: file_held_def bind_eq_Some_conv)

lemma file_okD:
  "file_ok d \<Longrightarrow> map_of d n = Some c \<Longrightarrow> ext n = ''.json'' \<Longrightarrow> \<exists>r. c = JsonOf r \<and> n = Guid r @ ''.json'' \<and> safeGuid (Guid r)"
  by (simp add: file_ok_def)

lemma ext_append: "CHR ''.'' \<notin> set e \<Longrightarrow> ext (n @ CHR ''.'' # e) = CHR ''.'' # e"
  by (simp add: ext_def)

lemma ext_json [simp]: "ext (g @ ''.json'') = ''.json''"
  using ext_append [of "''json''" g] by simp

lemma ext_tmp [simp]: "ext (tmp_name X) = ''.tmp''"
  using ext_append [of "''tmp''" "''.revtunnel-'' @ tmpRandom X"] by (simp add: tmp_name_def)

lemma tmp_name_not_json [simp]: "tmp_name X \<noteq> g @ ''.json''" "g @ ''.json'' \<noteq> tmp_name X"
proof -
  show "tmp_name X \<noteq> g @ ''.json''"
  proof
    assume "tmp_name X = g @ ''.json''"
    then have "ext (tmp_name X) = ext (g @ ''.json'')"
      by (rule arg_cong)
    then show False
      unfolding ext_tmp ext_json by simp
  qed
  then show "g @ ''.json'' \<noteq> tmp_name X"
    by (rule not_sym)
qed

lemma file_ok_tmp:
  "file_ok d \<Longrightarrow> file_ok (put d (tmp_name X) c)" "file_ok d \<Longrightarrow> file_ok (del d n)" "file_ok d \<Longrightarrow> file_ok (cleanup_tmp X d)"
  by (auto simp: file_ok_def cleanup_tmp_def)

lemma file_held_tmp [simp]:
  "file_held (put d (tmp_name X) c) = file_held d" "file_held (del d (tmp_name X)) = file_held d"
  "file_held (cleanup_tmp X d) = file_held d"
  by (simp_all add: fun_eq_iff file_held_def cleanup_tmp_def)

lemma file_ok_put: "file_ok d \<Longrightarrow> safeGuid (Guid r) \<Longrightarrow> file_ok (put d (Guid r @ ''.json'') (JsonOf r))"
  by (auto simp: file_ok_def)

lemma file_held_put: "file_held (put d (g @ ''.json'') (JsonOf r)) = (file_held d)(g \<mapsto> r)"
  by (simp add: fun_eq_iff file_held_def)

lemma file_held_del: "file_held (del d (g @ ''.json'')) = (file_held d)(g := None)"
  by (simp add: fun_eq_iff file_held_def)

lemma file_held_Some:
  assumes "file_ok d" "map_of d (g @ ''.json'') = Some c"
  obtains r where "c = JsonOf r" "Guid r = g" "file_held d g = Some r"
  using file_okD [OF assms] assms(2) by (auto simp: file_held_iff)

lemma fileStore_Put_cases:
  assumes "file_ok d"
  shows "file_ok (fst (fileStore_Put X r d)) \<and>
    file_held (fst (fileStore_Put X r d)) = (if snd (fileStore_Put X r d) = None then (file_held d)(Guid r \<mapsto> r) else file_held d)"
proof (cases "safeGuid (Guid r)")
  case True
  then show ?thesis
    using assms
    by (simp add: fileStore_Put_def fileStore_path_def Let_def file_ok_tmp file_ok_put file_held_put split: option.split)
qed (use assms in \<open>simp add: fileStore_Put_def fileStore_path_def\<close>)

lemma list_records_held:
  assumes "list_records X d = Inr rs" "file_ok d"
  shows "distinct rs \<and> set rs = {r. \<exists>n. map_of d n = Some (JsonOf r) \<and> ext n = ''.json''}"
  using assms
proof (induction d arbitrary: rs)
  case (Cons nc d)
  obtain n c where nc: "nc = (n, c)"
    by fastforce
  have g: "gomap (nc # d)" and fresh: "map_of d n = None"
    using Cons.prems(2) by (auto simp: file_ok_def gomap_def keys_def nc map_of_eq_None_iff)
  have mem: "map_of (nc # d) m = Some c' \<longleftrightarrow> m = n \<and> c' = c \<or> map_of d m = Some c'" for m c'
    using fresh by (auto simp: nc)
  have okd: "file_ok d"
  proof -
    have "gomap d"
      using g by (simp add: gomap_def keys_def)
    then show ?thesis
      using Cons.prems(2) unfolding file_ok_def mem by blast
  qed
  show ?case
  proof (cases "ext n = ''.json''")
    case False
    then show ?thesis
      using Cons.IH [OF _ okd, of rs] Cons.prems(1) by (auto simp: mem simp del: map_of.simps) (auto simp: nc)
  next
    case True
    then obtain r where r: "c = JsonOf r" "n = Guid r @ ''.json''"
      using file_okD [OF Cons.prems(2), of n c] by (auto simp: nc)
    with Cons.prems(1) True obtain out where out: "list_records X d = Inr out" "rs = r # out"
      by (auto simp: nc read_record_def bind_res_eq_Inr split: option.splits)
    have "r \<notin> set out"
    proof
      assume "r \<in> set out"
      then obtain m where m: "map_of d m = Some (JsonOf r)" "ext m = ''.json''"
        using Cons.IH [OF out(1) okd] by blast
      then show False
        using file_okD [OF okd m] fresh r(2) by simp
    qed
    then show ?thesis
      using Cons.IH [OF out(1) okd] True r by (auto simp: mem out(2) simp del: map_of.simps)
  qed
qed simp

lemma file_list_ran:
  assumes "file_ok d"
  shows "{r. \<exists>n. map_of d n = Some (JsonOf r) \<and> ext n = ''.json''} = ran (file_held d)"
proof -
  have "(\<exists>n. map_of d n = Some (JsonOf r) \<and> ext n = ''.json'') \<longleftrightarrow> (\<exists>g. file_held d g = Some r)" for r
  proof
    assume "\<exists>n. map_of d n = Some (JsonOf r) \<and> ext n = ''.json''"
    then obtain n where "map_of d n = Some (JsonOf r)" "ext n = ''.json''"
      by blast
    moreover from this have "n = Guid r @ ''.json''"
      using assms by (auto simp: file_ok_def)
    ultimately show "\<exists>g. file_held d g = Some r"
      by (intro exI [of _ "Guid r"]) (simp add: file_held_iff)
  next
    assume "\<exists>g. file_held d g = Some r"
    then obtain g where "map_of d (g @ ''.json'') = Some (JsonOf r)"
      by (auto simp: file_held_iff)
    then show "\<exists>n. map_of d n = Some (JsonOf r) \<and> ext n = ''.json''"
      by (intro exI [of _ "g @ ''.json''"]) simp
  qed
  then show ?thesis
    by (auto simp: ran_def)
qed

lemma fileStore_Delete_cases:
  assumes "file_ok d"
  shows "file_ok (fst (fileStore_Delete X g d)) \<and>
    file_held (fst (fileStore_Delete X g d)) = (if snd (fileStore_Delete X g d) = None then (file_held d)(g := None) else file_held d)"
proof (cases "safeGuid g \<and> map_of d (g @ ''.json'') = None")
  case True
  then have "file_held d g = None"
    by (simp add: file_held_def)
  then have "(file_held d)(g := None) = file_held d"
    by (simp add: fun_upd_idem)
  with True assms show ?thesis
    by (simp add: fileStore_Delete_def fileStore_path_def)
next
  case False
  then show ?thesis
    using assms by (auto simp: fileStore_Delete_def fileStore_path_def file_ok_tmp file_held_del split: option.split)
qed

lemma fileStore_Get_held:
  assumes "file_ok d" "fileStore_Get X g d = Inr x"
  shows "x = file_held d g"
  using assms(2)
  by (cases "map_of d (g @ ''.json'')")
    (auto simp: fileStore_Get_def fileStore_path_def bind_res_eq_Inr file_held_def read_record_def
      split: if_splits option.splits file_content.splits)

interpretation filedir: session_store "file_ops X" file_ok file_held for X
proof
  show "file_ok s \<Longrightarrow> file_held s g = Some r \<Longrightarrow> Guid r = g" for s g r
    by (auto simp: file_held_iff dest!: file_okD [of s])
  show "file_ok s \<Longrightarrow> so_put (file_ops X) r s = (s', None) \<Longrightarrow> file_ok s' \<and> file_held s' = (file_held s)(Guid r \<mapsto> r)"
    "file_ok s \<Longrightarrow> so_put (file_ops X) r s = (s', Some e) \<Longrightarrow> file_ok s' \<and> file_held s' = file_held s" for s r s' e
    using fileStore_Put_cases [of s X r] by (simp_all add: file_ops_def)
  show "file_ok s \<Longrightarrow> so_get (file_ops X) g s = Inr x \<Longrightarrow> x = file_held s g" for s g x
    by (simp add: file_ops_def fileStore_Get_held)
  show "file_ok s \<Longrightarrow> so_delete (file_ops X) g s = (s', None) \<Longrightarrow> file_ok s' \<and> file_held s' = (file_held s)(g := None)"
    "file_ok s \<Longrightarrow> so_delete (file_ops X) g s = (s', Some e) \<Longrightarrow> file_ok s' \<and> file_held s' = file_held s" for s g s' e
    using fileStore_Delete_cases [of s X g] by (simp_all add: file_ops_def)
  show "file_ok s \<Longrightarrow> so_list (file_ops X) s = Inr rs \<Longrightarrow> distinct rs \<and> set rs = ran (file_held s)" for s rs
    using list_records_held [of X s rs] file_list_ran [of s]
    by (simp add: file_ops_def fileStore_List_def split: option.splits)
qed

subsection \<open>What a write leaves behind\<close>

text \<open>
  C38: a record is replaced atomically.  Whatever the operating system reports, a write of a record leaves every other record as
  it was, and its own record is either exactly the new one, when the write succeeds, or exactly
  what it was before; no half-written record is ever read back.  An unsafe guid touches no file at all, and
  a safe one names a file directly in the store's directory.
\<close>

theorem file_store_atomic:
  assumes "file_ok d" "fileStore_Put X r d = (d', e)"
  shows "(\<forall>g. g \<noteq> Guid r \<longrightarrow> file_held d' g = file_held d g)
    \<and> file_held d' (Guid r) = (if e = None then Some r else file_held d (Guid r))
    \<and> file_ok d'
    \<and> (if safeGuid (Guid r) then name_ok (Guid r @ ''.json'') else d' = d \<and> e \<noteq> None)"
proof -
  have "\<not> safe_char slash"
    by (simp add: safe_char_def)
  then have "slash \<notin> set g" if "safeGuid g" for g
    using that unfolding safeGuid_def list_all_iff by blast
  moreover have "g @ ''.json'' \<noteq> Dot" "g @ ''.json'' \<noteq> DotDot" for g
    by (cases g; simp)+
  ultimately have "safeGuid (Guid r) \<Longrightarrow> name_ok (Guid r @ ''.json'')"
    by (simp add: name_ok_def)
  moreover have "\<not> safeGuid (Guid r) \<Longrightarrow> d' = d \<and> e \<noteq> None"
    using assms(2) by (auto simp: fileStore_Put_def fileStore_path_def)
  ultimately show ?thesis
    using fileStore_Put_cases [OF assms(1), of X r] assms(2) by simp
qed

definition demo_os :: os_errors where
  "demo_os = \<lparr>tmpRandom = ''1'', createTempErr = None, tmpWriteErr = Some (Ext ''no space left on device''), chmodErr = None, closeErr = None,
     renameErr = None, tmpRemoveErr = None, readErr = \<lambda>_. None, removeErr = \<lambda>_. None, readDirErr = None\<rparr>"

definition demo_tunnel :: "string \<Rightarrow> tunnel" where
  "demo_tunnel g = \<lparr>Guid = g, TargetUser = ''root'', BindAddr = ''localhost'', BindPort = 22, ConnectorKeyWire = [1],
     UpstreamKeyPEM = [2], UpstreamKeyPub = ''k'', AllowPassword = False, CreatedAt = 0, LastActivity = 0\<rparr>"

theorem file_store_atomic_witness:
  "file_held (fst (fileStore_Put demo_os (demo_tunnel ''b'') [(''a.json'', JsonOf (demo_tunnel ''a''))])) =
     [''a'' \<mapsto> demo_tunnel ''a'']"
proof -
  let ?d = "[(''a.json'', JsonOf (demo_tunnel ''a''))]"
  have ok: "file_ok ?d"
    using file_ok_put [of "[]" "demo_tunnel ''a''"]
    by (simp add: file_ok_def demo_tunnel_def safeGuid_def safe_char_def)
  have held: "file_held ?d = [''a'' \<mapsto> demo_tunnel ''a'']"
    using file_held_put [of "[]" "''a''" "demo_tunnel ''a''"] by (simp add: file_held_def fun_eq_iff)
  obtain d' e where p: "fileStore_Put demo_os (demo_tunnel ''b'') ?d = (d', e)" "e \<noteq> None"
    by (cases "fileStore_Put demo_os (demo_tunnel ''b'') ?d") (auto simp: fileStore_Put_def fileStore_path_def demo_os_def Let_def split: if_splits)
  from file_store_atomic [OF ok p(1)] have "file_held d' g = file_held ?d g" for g
    using p(2) by (cases "g = ''b''") (auto simp: demo_tunnel_def)
  then show ?thesis
    using p(1) held by (simp add: fun_eq_iff)
qed

end
