(* ===== verification/Tunnel_Registry.thy ===== *)
theory Tunnel_Registry
  imports Session_Store
begin

text \<open>
  The registry of reverse tunnels (\<^verbatim>\<open>plugin/revtunnel/registry.go\<close>): the live registrations with the SSH connection
  each belongs to, the channels open through them, and the persisted records in a session store.

  Connections and channels are named by numbers; a nil connection is \<open>None\<close>.  Maps the code ranges over are
  association lists.  Each operation runs under the registry's lock and is one step; what it closes
  after releasing the lock (channels, then connections) is returned in \<open>closed\<close>.
\<close>

section \<open>State and operations\<close>

record liveEntry =
  entry_rec :: tunnel
  entry_conn :: "nat option"

record 's tunnels =
  live :: "(string \<times> liveEntry) list"
  chans :: "string \<rightharpoonup> nat list"
  rstore :: "'s option"
  maxTotal :: nat

record closed =
  closed_channels :: "nat list"
  closed_conns :: "nat list"

abbreviation nothing_closed :: closed where
  "nothing_closed \<equiv> \<lparr>closed_channels = [], closed_conns = []\<rparr>"

definition newRegistry :: "'s option \<Rightarrow> nat \<Rightarrow> 's tunnels" where
  "newRegistry st cap = \<lparr>live = [], chans = Map.empty, rstore = st, maxTotal = cap\<rparr>"

definition TrackChannel :: "string \<Rightarrow> nat \<Rightarrow> 's tunnels \<Rightarrow> 's tunnels \<times> bool" where
  "TrackChannel guid c r =
     (if map_of (live r) guid = None then (r, False)
      else (r\<lparr>chans := (chans r)(guid \<mapsto> (case chans r guid of None \<Rightarrow> [c] | Some cs \<Rightarrow> List.insert c cs))\<rparr>, True))"

definition UntrackChannel :: "string \<Rightarrow> nat \<Rightarrow> 's tunnels \<Rightarrow> 's tunnels" where
  "UntrackChannel guid c r =
     (case chans r guid of
        None \<Rightarrow> r
      | Some cs \<Rightarrow>
          let cs' = removeAll c cs
          in if cs' = [] then r\<lparr>chans := (chans r)(guid := None)\<rparr> else r\<lparr>chans := (chans r)(guid \<mapsto> cs')\<rparr>)"

definition takeChannelsLocked :: "string \<Rightarrow> 's tunnels \<Rightarrow> 's tunnels \<times> nat list" where
  "takeChannelsLocked guid r =
     (r\<lparr>chans := (chans r)(guid := None)\<rparr>, case chans r guid of None \<Rightarrow> [] | Some cs \<Rightarrow> cs)"

definition Count :: "'s tunnels \<Rightarrow> nat" where
  "Count r = length (live r)"

definition IsLive :: "string \<Rightarrow> 's tunnels \<Rightarrow> bool" where
  "IsLive guid r \<longleftrightarrow> map_of (live r) guid \<noteq> None"

definition store_put :: "'s store_ops \<Rightarrow> tunnel \<Rightarrow> 's option \<Rightarrow> 's option \<times> goerr option" where
  "store_put S rec st = (case st of None \<Rightarrow> (None, None) | Some s \<Rightarrow> (case so_put S rec s of (s', e) \<Rightarrow> (Some s', e)))"

definition store_delete :: "'s store_ops \<Rightarrow> string \<Rightarrow> 's option \<Rightarrow> 's option \<times> goerr option" where
  "store_delete S guid st = (case st of None \<Rightarrow> (None, None) | Some s \<Rightarrow> (case so_delete S guid s of (s', e) \<Rightarrow> (Some s', e)))"

abbreviation errTooManyTunnels :: goerr where
  "errTooManyTunnels \<equiv> Errorf ''revtunnel: global tunnel limit reached'' []"

definition Put :: "'s store_ops \<Rightarrow> int \<Rightarrow> tunnel \<Rightarrow> nat option \<Rightarrow> 's tunnels \<Rightarrow> 's tunnels \<times> goerr option" where
  "Put S now rec conn r =
     (if maxTotal r > 0 \<and> length (live r) \<ge> maxTotal r then (r, Some errTooManyTunnels)
      else if map_of (live r) (Guid rec) \<noteq> None
      then (r, Some (Errorf ''revtunnel: guid %q already registered'' [Guid rec]))
      else
        let rec' = rec\<lparr>LastActivity := now\<rparr>;
            l = put (live r) (Guid rec) \<lparr>entry_rec = rec', entry_conn = conn\<rparr>
        in case store_put S rec' (rstore r) of
             (st, Some e) \<Rightarrow> (r\<lparr>live := del l (Guid rec), rstore := st\<rparr>, Some e)
           | (st, None) \<Rightarrow> (r\<lparr>live := l, rstore := st\<rparr>, None))"

definition Lookup :: "string \<Rightarrow> 's tunnels \<Rightarrow> (tunnel \<times> nat option) option" where
  "Lookup guid r = map_option (\<lambda>e. (entry_rec e, entry_conn e)) (map_of (live r) guid)"

definition LookupPersisted :: "'s store_ops \<Rightarrow> string \<Rightarrow> 's tunnels \<Rightarrow> tunnel option res" where
  "LookupPersisted S guid r =
     (case map_of (live r) guid of
        Some e \<Rightarrow> Inr (Some (entry_rec e))
      | None \<Rightarrow> (case rstore r of None \<Rightarrow> Inr None | Some s \<Rightarrow> so_get S guid s))"

definition Touch :: "int \<Rightarrow> string \<Rightarrow> 's tunnels \<Rightarrow> 's tunnels" where
  "Touch now guid r =
     (case map_of (live r) guid of
        None \<Rightarrow> r
      | Some e \<Rightarrow> r\<lparr>live := put (live r) guid (e\<lparr>entry_rec := (entry_rec e)\<lparr>LastActivity := now\<rparr>\<rparr>)\<rparr>)"

text \<open>\<^verbatim>\<open>Delete\<close> and \<^verbatim>\<open>Remove\<close> do the same: the connection is closed when no other live tunnel uses it.\<close>

definition conn_unused :: "nat option \<Rightarrow> (string \<times> liveEntry) list \<Rightarrow> nat list" where
  "conn_unused conn l =
     (case conn of
        None \<Rightarrow> []
      | Some c \<Rightarrow> if list_ex (\<lambda>(_, e). entry_conn e = Some c) l then [] else [c])"

definition Delete :: "'s store_ops \<Rightarrow> string \<Rightarrow> 's tunnels \<Rightarrow> 's tunnels \<times> closed" where
  "Delete S guid r =
     (case takeChannelsLocked guid (r\<lparr>live := del (live r) guid\<rparr>) of
        (r1, channels) \<Rightarrow>
          let r2 = r1\<lparr>rstore := fst (store_delete S guid (rstore r1))\<rparr>
          in (r2, \<lparr>closed_channels = channels,
                   closed_conns = (case map_of (live r) guid of
                                     None \<Rightarrow> [] | Some e \<Rightarrow> conn_unused (entry_conn e) (live r2))\<rparr>))"

definition Remove :: "'s store_ops \<Rightarrow> string \<Rightarrow> 's tunnels \<Rightarrow> 's tunnels \<times> closed" where
  "Remove S guid r = Delete S guid r"

definition update_live :: "'s store_ops \<Rightarrow> string \<Rightarrow> liveEntry \<Rightarrow> tunnel \<Rightarrow> 's tunnels \<Rightarrow> 's tunnels \<times> bool" where
  "update_live S guid e updated r =
     (case store_put S updated (rstore r) of
        (st, Some _) \<Rightarrow> (r\<lparr>rstore := st\<rparr>, False)
      | (st, None) \<Rightarrow> (r\<lparr>rstore := st, live := put (live r) guid (e\<lparr>entry_rec := updated\<rparr>)\<rparr>, True))"

definition UpdateConnectorKeyWire :: "'s store_ops \<Rightarrow> string \<Rightarrow> bytes \<Rightarrow> 's tunnels \<Rightarrow> 's tunnels \<times> bool" where
  "UpdateConnectorKeyWire S guid key r =
     (case map_of (live r) guid of
        None \<Rightarrow> (r, False)
      | Some e \<Rightarrow> update_live S guid e ((entry_rec e)\<lparr>ConnectorKeyWire := key\<rparr>) r)"

definition UpdateAllowPassword :: "'s store_ops \<Rightarrow> string \<Rightarrow> bool \<Rightarrow> 's tunnels \<Rightarrow> 's tunnels \<times> bool" where
  "UpdateAllowPassword S guid allow r =
     (case map_of (live r) guid of
        None \<Rightarrow> (r, False)
      | Some e \<Rightarrow>
          if AllowPassword (entry_rec e) = allow then (r, True)
          else update_live S guid e ((entry_rec e)\<lparr>AllowPassword := allow\<rparr>) r)"

section \<open>Eviction\<close>

text \<open>
  The loop over the live entries, in map order, deleting while it ranges: entries already deleted are not visited again.
  It collects the connections and channels of the idle entries and their guids.
\<close>

fun evict_live ::
  "'s store_ops \<Rightarrow> int \<Rightarrow> (string \<times> liveEntry) list \<Rightarrow> 's tunnels \<Rightarrow> 's tunnels \<times> nat option list \<times> nat list \<times> string list" where
  "evict_live S cutoff [] r = (r, [], [], [])"
| "evict_live S cutoff ((guid, e) # es) r =
     (if LastActivity (entry_rec e) < cutoff then
        (case takeChannelsLocked guid r of
           (r1, cs) \<Rightarrow>
             let r2 = r1\<lparr>live := del (live r1) guid, rstore := fst (store_delete S guid (rstore r1))\<rparr>
             in case evict_live S cutoff es r2 of
                  (r3, conns, chs, gs) \<Rightarrow> (r3, entry_conn e # conns, cs @ chs, guid # gs))
      else evict_live S cutoff es r)"

fun close_conns :: "(string \<times> liveEntry) list \<Rightarrow> nat option list \<Rightarrow> nat list \<Rightarrow> nat list" where
  "close_conns l [] acc = acc"
| "close_conns l (None # conns) acc = close_conns l conns acc"
| "close_conns l (Some c # conns) acc =
     (if c \<in> set acc then close_conns l conns acc
      else if list_ex (\<lambda>(_, e). entry_conn e = Some c) l then close_conns l conns acc
      else close_conns l conns (acc @ [c]))"

fun evict_persisted ::
  "'s store_ops \<Rightarrow> int \<Rightarrow> (string \<times> liveEntry) list \<Rightarrow> tunnel list \<Rightarrow> 's \<Rightarrow> 's \<times> string list" where
  "evict_persisted S cutoff l [] s = (s, [])"
| "evict_persisted S cutoff l (rec # recs) s =
     (if map_of l (Guid rec) \<noteq> None then evict_persisted S cutoff l recs s
      else if LastActivity rec < cutoff then
        (case so_delete S (Guid rec) s of
           (s', Some _) \<Rightarrow> evict_persisted S cutoff l recs s'
         | (s', None) \<Rightarrow> (case evict_persisted S cutoff l recs s' of (s'', gs) \<Rightarrow> (s'', Guid rec # gs)))
      else evict_persisted S cutoff l recs s)"

definition EvictIdle :: "'s store_ops \<Rightarrow> int \<Rightarrow> int \<Rightarrow> 's tunnels \<Rightarrow> 's tunnels \<times> closed \<times> string list" where
  "EvictIdle S now idle r =
     (let cutoff = now - idle in
      case evict_live S cutoff (live r) r of
        (r1, idleConns, idleChannels, evicted) \<Rightarrow>
          let closes = close_conns (live r1) idleConns [] in
          case rstore r1 of
            None \<Rightarrow> (r1, \<lparr>closed_channels = idleChannels, closed_conns = closes\<rparr>, evicted)
          | Some s \<Rightarrow>
              (case so_list S s of
                 Inl _ \<Rightarrow> (r1, \<lparr>closed_channels = idleChannels, closed_conns = closes\<rparr>, evicted)
               | Inr recs \<Rightarrow>
                   (case evict_persisted S cutoff (live r1) recs s of
                      (s', gs) \<Rightarrow> (r1\<lparr>rstore := Some s'\<rparr>,
                        \<lparr>closed_channels = idleChannels, closed_conns = closes\<rparr>, evicted @ gs))))"

section \<open>The invariant\<close>

text \<open>
  Every live entry is under its own guid and, up to its activity time, in the store; channels are tracked for live tunnels
  only; and the cap is respected.
\<close>

definition same_tunnel :: "tunnel \<Rightarrow> tunnel \<Rightarrow> bool" where
  "same_tunnel a b \<longleftrightarrow> a\<lparr>LastActivity := 0\<rparr> = b\<lparr>LastActivity := 0\<rparr>"

definition persisted :: "('s \<Rightarrow> string \<rightharpoonup> tunnel) \<Rightarrow> 's \<Rightarrow> (string \<times> liveEntry) list \<Rightarrow> bool" where
  "persisted held s l \<longleftrightarrow>
     (\<forall>g e. map_of l g = Some e \<longrightarrow> (\<exists>p. held s g = Some p \<and> same_tunnel p (entry_rec e)))"

definition rt_inv :: "('s \<Rightarrow> bool) \<Rightarrow> ('s \<Rightarrow> string \<rightharpoonup> tunnel) \<Rightarrow> 's tunnels \<Rightarrow> bool" where
  "rt_inv ok held r \<longleftrightarrow> gomap (live r)
     \<and> (\<forall>g e. map_of (live r) g = Some e \<longrightarrow> Guid (entry_rec e) = g)
     \<and> (maxTotal r > 0 \<longrightarrow> length (live r) \<le> maxTotal r)
     \<and> (\<forall>g cs. chans r g = Some cs \<longrightarrow> map_of (live r) g \<noteq> None)
     \<and> (\<forall>s. rstore r = Some s \<longrightarrow> ok s \<and> persisted held s (live r))"

inductive rt_step :: "'s store_ops set \<Rightarrow> 's tunnels \<Rightarrow> 's tunnels \<Rightarrow> bool" for Ops where
  step_track: "rt_step Ops r (fst (TrackChannel g c r))"
| step_untrack: "rt_step Ops r (UntrackChannel g c r)"
| step_put: "S \<in> Ops \<Longrightarrow> rt_step Ops r (fst (Put S now rec conn r))"
| step_touch: "rt_step Ops r (Touch now g r)"
| step_delete: "S \<in> Ops \<Longrightarrow> rt_step Ops r (fst (Delete S g r))"
| step_remove: "S \<in> Ops \<Longrightarrow> rt_step Ops r (fst (Remove S g r))"
| step_key: "S \<in> Ops \<Longrightarrow> rt_step Ops r (fst (UpdateConnectorKeyWire S g k r))"
| step_password: "S \<in> Ops \<Longrightarrow> rt_step Ops r (fst (UpdateAllowPassword S g a r))"
| step_evict: "S \<in> Ops \<Longrightarrow> rt_step Ops r (fst (EvictIdle S now idle r))"

lemma same_tunnel_refl [simp]: "same_tunnel a a" "same_tunnel a (b\<lparr>LastActivity := t\<rparr>) = same_tunnel a b"
  by (simp_all add: same_tunnel_def)

lemma persisted_put:
  "persisted held s l \<Longrightarrow> held s g = Some p \<Longrightarrow> same_tunnel p (entry_rec e) \<Longrightarrow> persisted held s (put l g e)"
  by (simp add: persisted_def)

lemma persisted_del: "persisted held s l \<Longrightarrow> persisted held s (del l g)"
  by (simp add: persisted_def)

lemma persisted_held:
  "persisted held s l \<Longrightarrow> (\<And>g. map_of l g \<noteq> None \<Longrightarrow> held s' g = held s g) \<Longrightarrow> persisted held s' l"
  by (simp add: persisted_def)

lemma rt_inv_track: "rt_inv ok held r \<Longrightarrow> rt_inv ok held (fst (TrackChannel g c r))"
  by (auto simp: rt_inv_def TrackChannel_def)

lemma rt_inv_untrack: "rt_inv ok held r \<Longrightarrow> rt_inv ok held (UntrackChannel g c r)"
  by (auto simp: rt_inv_def UntrackChannel_def Let_def split: option.splits)

lemma rt_inv_touch:
  assumes "rt_inv ok held r"
  shows "rt_inv ok held (Touch now g r)"
proof (cases "map_of (live r) g")
  case (Some e)
  let ?e = "e\<lparr>entry_rec := (entry_rec e)\<lparr>LastActivity := now\<rparr>\<rparr>"
  have "g \<in> set (keys (live r))"
    using Some by (auto simp: set_keys_dom)
  then have "length (put (live r) g ?e) = length (live r)"
    by (simp add: length_put)
  moreover have "persisted held s (put (live r) g ?e)" if "persisted held s (live r)" for s
    using that Some by (auto simp: persisted_def)
  moreover have "Guid (entry_rec e) = g"
    using assms Some by (simp add: rt_inv_def)
  ultimately show ?thesis
    using assms Some by (auto simp: rt_inv_def Touch_def)
qed (use assms in \<open>simp add: Touch_def\<close>)

context session_store
begin

lemma store_put_held:
  assumes "store_put S rec (Some s) = (st, e)" "ok s"
  obtains s' where "st = Some s'" "ok s'" "held s' = (if e = None then (held s)(Guid rec \<mapsto> rec) else held s)"
  using assms put_held [of s rec] by (auto simp: store_put_def split: prod.splits)

lemma store_delete_held:
  assumes "ok s"
  obtains s' where "fst (store_delete S g (Some s)) = Some s'" "ok s'"
    "\<And>g'. g' \<noteq> g \<Longrightarrow> held s' g' = held s g'" "snd (store_delete S g (Some s)) = None \<Longrightarrow> held s' g = None"
  using delete_held [OF assms, of g] delete_other [OF assms, of _ g]
  by (cases "so_delete S g s") (auto simp: store_delete_def)

lemma rt_inv_put:
  assumes "rt_inv ok held r"
  shows "rt_inv ok held (fst (Put S now rec conn r))"
proof (cases "maxTotal r > 0 \<and> length (live r) \<ge> maxTotal r \<or> map_of (live r) (Guid rec) \<noteq> None")
  case True
  then show ?thesis
    using assms by (auto simp: Put_def)
next
  case False
  let ?rec = "rec\<lparr>LastActivity := now\<rparr>"
  let ?l = "put (live r) (Guid rec) \<lparr>entry_rec = ?rec, entry_conn = conn\<rparr>"
  have fresh: "Guid rec \<notin> set (keys (live r))"
    using False by (auto simp: set_keys_dom)
  obtain st e where sp: "store_put S ?rec (rstore r) = (st, e)"
    by fastforce
  have undo: "del ?l (Guid rec) = live r"
    using fresh by (rule del_put_fresh)
  have store: "st = None" if "rstore r = None"
    using sp that by (simp add: store_put_def)
  have sinv: "ok s' \<and> persisted held s' (live r) \<and> (e = None \<longrightarrow> persisted held s' ?l)" if "rstore r = Some s" "st = Some s'" for s s'
  proof -
    have i: "ok s" "persisted held s (live r)"
      using assms that by (auto simp: rt_inv_def)
    then have h: "ok s'" "held s' = (if e = None then (held s)(Guid rec \<mapsto> ?rec) else held s)"
      using sp that by (auto elim: store_put_held)
    have "persisted held s' (live r)"
      by (rule persisted_held [OF i(2)]) (use False h in auto)
    with h show ?thesis
      by (auto intro: persisted_put)
  qed
  show ?thesis
  proof (cases e)
    case None
    then have "fst (Put S now rec conn r) = r\<lparr>live := ?l, rstore := st\<rparr>"
      using False sp by (auto simp: Put_def Let_def)
    then show ?thesis
      using assms False fresh None sinv store
      by (cases "rstore r"; cases st) (auto simp: rt_inv_def length_put)
  next
    case (Some x)
    then have "fst (Put S now rec conn r) = r\<lparr>live := live r, rstore := st\<rparr>"
      using False sp undo by (auto simp: Put_def Let_def)
    then show ?thesis
      using assms sinv store by (cases "rstore r"; cases st) (auto simp: rt_inv_def)
  qed
qed

end

context session_store
begin

lemma rt_inv_delete:
  assumes "rt_inv ok held r"
  shows "rt_inv ok held (fst (Delete S g r))"
proof -
  have d: "fst (Delete S g r) = r\<lparr>live := del (live r) g, chans := (chans r)(g := None),
      rstore := fst (store_delete S g (rstore r))\<rparr>"
    by (simp add: Delete_def takeChannelsLocked_def Let_def)
  have s: "ok s' \<and> persisted held s' (del (live r) g)" if "fst (store_delete S g (rstore r)) = Some s'" for s'
  proof (cases "rstore r")
    case (Some s)
    then have i: "ok s" "persisted held s (live r)"
      using assms by (auto simp: rt_inv_def)
    obtain s1 where s1: "fst (store_delete S g (Some s)) = Some s1" "ok s1" "\<And>g'. g' \<noteq> g \<Longrightarrow> held s1 g' = held s g'"
      by (rule store_delete_held [OF i(1), of g]) blast
    have "persisted held s1 (del (live r) g)"
      by (rule persisted_held [OF persisted_del [OF i(2)]]) (use s1(3) in \<open>auto split: if_splits\<close>)
    then show ?thesis
      using s1 that Some by simp
  qed (use that in \<open>simp add: store_delete_def\<close>)
  have "length (del (live r) g) \<le> length (live r)"
    by (rule length_del_le)
  then show ?thesis
    using assms s unfolding d by (auto simp: rt_inv_def)
qed

lemma rt_inv_update:
  assumes "rt_inv ok held r" "map_of (live r) g = Some e" "Guid updated = g"
  shows "rt_inv ok held (fst (update_live S g e updated r))"
proof -
  obtain st er where sp: "store_put S updated (rstore r) = (st, er)"
    by fastforce
  let ?l = "put (live r) g (e\<lparr>entry_rec := updated\<rparr>)"
  have len: "length ?l = length (live r)"
    using assms(2) by (auto simp: length_put set_keys_dom)
  have s: "ok s' \<and> (if er = None then persisted held s' ?l else persisted held s' (live r))" if "st = Some s'" for s'
  proof (cases "rstore r")
    case (Some s)
    then have i: "ok s" "persisted held s (live r)"
      using assms by (auto simp: rt_inv_def)
    then have h: "ok s'" "held s' = (if er = None then (held s)(g \<mapsto> updated) else held s)"
      using sp Some that assms(3) by (auto elim: store_put_held)
    show ?thesis
      using h i(2) by (auto simp: persisted_def)
  qed (use sp that in \<open>simp add: store_put_def\<close>)
  show ?thesis
    using assms s len by (cases er) (auto simp: rt_inv_def update_live_def sp)
qed

lemma rt_inv_guid: "rt_inv ok held r \<Longrightarrow> map_of (live r) g = Some e \<Longrightarrow> Guid (entry_rec e) = g"
  by (simp add: rt_inv_def)

lemma rt_inv_key:
  assumes "rt_inv ok held r"
  shows "rt_inv ok held (fst (UpdateConnectorKeyWire S g k r))"
proof (cases "map_of (live r) g")
  case (Some e)
  then show ?thesis
    using rt_inv_update [OF assms Some, of "(entry_rec e)\<lparr>ConnectorKeyWire := k\<rparr>"] rt_inv_guid [OF assms Some]
    by (simp add: UpdateConnectorKeyWire_def)
qed (use assms in \<open>simp add: UpdateConnectorKeyWire_def\<close>)

lemma rt_inv_password:
  assumes "rt_inv ok held r"
  shows "rt_inv ok held (fst (UpdateAllowPassword S g a r))"
proof (cases "map_of (live r) g")
  case (Some e)
  then show ?thesis
    using rt_inv_update [OF assms Some, of "(entry_rec e)\<lparr>AllowPassword := a\<rparr>"] rt_inv_guid [OF assms Some] assms
    by (simp add: UpdateAllowPassword_def)
qed (use assms in \<open>simp add: UpdateAllowPassword_def\<close>)

end

subsection \<open>Eviction\<close>

definition is_idle :: "int \<Rightarrow> string \<times> liveEntry \<Rightarrow> bool" where
  "is_idle cutoff ge \<longleftrightarrow> LastActivity (entry_rec (snd ge)) < cutoff"

lemma evict_live_Cons:
  "evict_live S cutoff (ge # es) r =
     (if is_idle cutoff ge then
        (case evict_live S cutoff es (fst (Delete S (fst ge) r)) of
           (r', conns, chs, gs) \<Rightarrow>
             (r', entry_conn (snd ge) # conns, (case chans r (fst ge) of None \<Rightarrow> [] | Some cs \<Rightarrow> cs) @ chs, fst ge # gs))
      else evict_live S cutoff es r)"
proof -
  have "fst (Delete S g r) =
      r\<lparr>chans := (chans r)(g := None), live := del (live r) g, rstore := fst (store_delete S g (rstore r))\<rparr>" for g
    by (simp add: Delete_def takeChannelsLocked_def Let_def)
  then show ?thesis
    by (cases ge) (simp add: is_idle_def takeChannelsLocked_def Let_def)
qed

declare evict_live.simps(2) [simp del]

lemma live_Delete [simp]: "live (fst (Delete S g r)) = del (live r) g"
  by (simp add: Delete_def takeChannelsLocked_def Let_def)

lemma evict_live_result:
  assumes "evict_live S cutoff es r = (r', conns, chs, gs)"
  shows "gs = map fst (filter (is_idle cutoff) es) \<and> conns = map (entry_conn \<circ> snd) (filter (is_idle cutoff) es)
    \<and> live r' = filter (\<lambda>ge. fst ge \<notin> set gs) (live r)"
  using assms
proof (induction es arbitrary: r conns chs gs)
  case (Cons ge es)
  show ?case
  proof (cases "is_idle cutoff ge")
    case True
    then obtain conns' chs' gs' where e: "evict_live S cutoff es (fst (Delete S (fst ge) r)) = (r', conns', chs', gs')"
      "conns = entry_conn (snd ge) # conns'" "gs = fst ge # gs'"
      using Cons.prems by (auto simp: evict_live_Cons split: prod.splits)
    show ?thesis
      using Cons.IH [OF e(1)] True e(2,3) by (auto simp: del_def intro: filter_cong)
  next
    case False
    then show ?thesis
      using Cons.IH [of r conns chs gs] Cons.prems by (simp add: evict_live_Cons)
  qed
qed simp

lemma evict_all_live:
  assumes "evict_live S cutoff (live r) r = (r', conns, chs, gs)" "gomap (live r)"
  shows "live r' = filter (\<lambda>ge. \<not> is_idle cutoff ge) (live r)"
proof -
  have "fst ge \<notin> set (map fst (filter (is_idle cutoff) (live r))) \<longleftrightarrow> \<not> is_idle cutoff ge" if "ge \<in> set (live r)" for ge
  proof -
    have "ge' = ge" if "ge' \<in> set (live r)" "fst ge' = fst ge" for ge'
      using that \<open>ge \<in> set (live r)\<close> gomap_unique [OF assms(2)] by blast
    then show ?thesis
      using that by force
  qed
  then show ?thesis
    using evict_live_result [OF assms(1)] by (simp cong: filter_cong)
qed

lemma close_conns_set:
  "set (close_conns l conns acc) = set acc \<union> {c. Some c \<in> set conns \<and> \<not> list_ex (\<lambda>(_, e). entry_conn e = Some c) l}"
  by (induction l conns acc rule: close_conns.induct) auto

lemma close_conns_distinct: "distinct acc \<Longrightarrow> distinct (close_conns l conns acc)"
  by (induction l conns acc rule: close_conns.induct) auto

context session_store
begin

lemma rt_inv_evict_live:
  assumes "rt_inv ok held r" "evict_live S cutoff es r = (r', conns, chs, gs)"
  shows "rt_inv ok held r'"
  using assms
proof (induction es arbitrary: r conns chs gs)
  case (Cons ge es)
  show ?case
  proof (cases "is_idle cutoff ge")
    case True
    obtain r1 conns1 chs1 gs1 where e: "evict_live S cutoff es (fst (Delete S (fst ge) r)) = (r1, conns1, chs1, gs1)"
      by (rule prod_cases4)
    moreover have "r' = r1"
      using Cons.prems(2) True e by (simp add: evict_live_Cons)
    ultimately show ?thesis
      using Cons.IH [OF rt_inv_delete [OF Cons.prems(1)]] by blast
  next
    case False
    then have "evict_live S cutoff es r = (r', conns, chs, gs)"
      using Cons.prems(2) by (simp add: evict_live_Cons)
    then show ?thesis
      by (rule Cons.IH [OF Cons.prems(1)])
  qed
qed simp

lemma evict_persisted_held:
  assumes "evict_persisted S cutoff l recs s = (s', gs)" "ok s"
  shows "ok s' \<and> (\<forall>g. held s' g = held s g \<or> (held s' g = None \<and> map_of l g = None))"
  using assms
proof (induction recs arbitrary: s gs)
  case (Cons rec recs)
  show ?case
  proof (cases "map_of l (Guid rec) = None \<and> LastActivity rec < cutoff")
    case True
    obtain s1 e where d: "so_delete S (Guid rec) s = (s1, e)"
      by fastforce
    obtain gs1 where ev: "evict_persisted S cutoff l recs s1 = (s', gs1)"
      using Cons.prems(1) True d by (cases e) (auto split: prod.splits)
    have h: "ok s1" "held s1 = (if e = None then (held s)(Guid rec := None) else held s)"
      using delete_held [OF Cons.prems(2), of "Guid rec"] d by simp_all
    from Cons.IH [OF ev h(1)] show ?thesis
      using h(2) True by (auto split: if_splits)
  next
    case False
    then have "evict_persisted S cutoff l recs s = (s', gs)"
      using Cons.prems(1) by (auto split: if_splits)
    then show ?thesis
      using Cons.IH Cons.prems(2) by blast
  qed
qed simp

lemma rt_inv_evict:
  assumes "rt_inv ok held r"
  shows "rt_inv ok held (fst (EvictIdle S now idle r))"
proof -
  obtain r1 conns chs gs where e: "evict_live S (now - idle) (live r) r = (r1, conns, chs, gs)"
    by (rule prod_cases4)
  have i: "rt_inv ok held r1"
    by (rule rt_inv_evict_live [OF assms e])
  show ?thesis
  proof (cases "\<exists>s recs. rstore r1 = Some s \<and> so_list S s = Inr recs")
    case True
    then obtain s recs where s: "rstore r1 = Some s" "so_list S s = Inr recs"
      by blast
    obtain s' gs' where ep: "evict_persisted S (now - idle) (live r1) recs s = (s', gs')"
      by fastforce
    have o: "ok s" "persisted held s (live r1)"
      using i s by (auto simp: rt_inv_def)
    have h: "ok s'" "\<And>g. held s' g = held s g \<or> (held s' g = None \<and> map_of (live r1) g = None)"
      using evict_persisted_held [OF ep o(1)] by auto
    have "persisted held s' (live r1)"
      by (rule persisted_held [OF o(2)]) (use h(2) in metis)
    then have "rt_inv ok held (r1\<lparr>rstore := Some s'\<rparr>)"
      using i h(1) by (simp add: rt_inv_def)
    then show ?thesis
      by (simp add: EvictIdle_def e s ep Let_def)
  next
    case False
    then have "fst (EvictIdle S now idle r) = r1"
      by (auto simp: EvictIdle_def e Let_def split: option.split sum.split)
    with i show ?thesis
      by simp
  qed
qed

end

lemma rt_step_inv:
  assumes "rt_step Ops r r'" "\<And>S. S \<in> Ops \<Longrightarrow> session_store S ok held" "rt_inv ok held r"
  shows "rt_inv ok held r'"
  using assms
  by cases (simp_all add: Remove_def rt_inv_track rt_inv_untrack rt_inv_touch session_store.rt_inv_put session_store.rt_inv_delete
      session_store.rt_inv_key session_store.rt_inv_password session_store.rt_inv_evict)

lemma maxTotal_evict_live: "evict_live S cutoff es r = (r', x) \<Longrightarrow> maxTotal r' = maxTotal r"
proof (induction es arbitrary: r x)
  case (Cons ge es)
  have "maxTotal (fst (Delete S g r)) = maxTotal r" for g
    by (simp add: Delete_def takeChannelsLocked_def Let_def)
  with Cons show ?case
    by (auto simp: evict_live_Cons split: if_splits prod.splits)
qed simp

lemma rt_step_maxTotal:
  assumes "rt_step Ops r r'"
  shows "maxTotal r' = maxTotal r"
  using assms
proof cases
  case (step_evict S now idle)
  obtain r1 conns chs gs where e: "evict_live S (now - idle) (live r) r = (r1, conns, chs, gs)"
    by (rule prod_cases4)
  with step_evict show ?thesis
    using maxTotal_evict_live [OF e] by (simp add: EvictIdle_def Let_def split: option.split sum.split prod.split)
qed (simp_all add: TrackChannel_def UntrackChannel_def Put_def Touch_def Delete_def Remove_def takeChannelsLocked_def
    UpdateConnectorKeyWire_def UpdateAllowPassword_def update_live_def Let_def split: option.split prod.split)

interpretation rt: step_invariant "\<lambda>r. \<exists>d. file_ok d \<and> r = newRegistry (Some d) cap" "rt_step (range file_ops)"
  "\<lambda>r. rt_inv file_ok file_held r \<and> maxTotal r = cap" for cap
proof
  show "\<exists>d. file_ok d \<and> r = newRegistry (Some d) cap \<Longrightarrow> rt_inv file_ok file_held r \<and> maxTotal r = cap" for r
    by (auto simp: rt_inv_def newRegistry_def persisted_def)
  show "rt_inv file_ok file_held r \<and> maxTotal r = cap \<Longrightarrow> rt_step (range file_ops) r r' \<Longrightarrow>
      rt_inv file_ok file_held r' \<and> maxTotal r' = cap" for r r'
    using rt_step_inv [of "range file_ops" r r' file_ok file_held] rt_step_maxTotal [of "range file_ops" r r'] filedir.session_store_axioms
    by auto
qed

text \<open>
  C15: whatever sequence of registrations, updates, channel openings, closings and evictions a registry with a file store goes
  through, and whatever errors the operating system reports to the store meanwhile: the number of live tunnels stays
  within the configured limit; a lookup of a guid returns the tunnel of that guid; every live tunnel is in the store
  with the same keys, target and password permission (only its activity time may be older there); and channels are tracked only
  for live tunnels.
\<close>

theorem tunnels_consistent:
  assumes "file_ok d" "(rt_step (range file_ops))\<^sup>*\<^sup>* (newRegistry (Some d) cap) r"
  shows "(cap > 0 \<longrightarrow> Count r \<le> cap)
    \<and> (\<forall>g rec conn. Lookup g r = Some (rec, conn) \<longrightarrow> Guid rec = g)
    \<and> (\<forall>g rec conn s. Lookup g r = Some (rec, conn) \<longrightarrow> rstore r = Some s \<longrightarrow>
        (\<exists>p. file_held s g = Some p \<and> p\<lparr>LastActivity := 0\<rparr> = rec\<lparr>LastActivity := 0\<rparr>))
    \<and> (\<forall>g. chans r g \<noteq> None \<longrightarrow> IsLive g r)"
proof -
  have i: "rt_inv file_ok file_held r" "maxTotal r = cap"
    using rt.reachable_inv [of "newRegistry (Some d) cap" cap r] assms by blast+
  have "\<exists>p. file_held s g = Some p \<and> p\<lparr>LastActivity := 0\<rparr> = rec\<lparr>LastActivity := 0\<rparr>"
    if "Lookup g r = Some (rec, conn)" "rstore r = Some s" for g rec conn s
    using i(1) that by (force simp: rt_inv_def persisted_def same_tunnel_def Lookup_def)
  moreover have "Guid rec = g" if "Lookup g r = Some (rec, conn)" for g rec conn
    using i(1) that by (force simp: rt_inv_def Lookup_def)
  moreover have "IsLive g r" if "chans r g \<noteq> None" for g
    using i(1) that by (force simp: rt_inv_def IsLive_def)
  ultimately show ?thesis
    using i by (auto simp: rt_inv_def Count_def)
qed

definition fine_os :: os_errors where
  "fine_os = demo_os\<lparr>tmpWriteErr := None\<rparr>"

definition demo_registry :: "directory tunnels" where
  "demo_registry = fst (Put (file_ops fine_os) 5 (demo_tunnel ''a'') (Some 7) (newRegistry (Some []) 1))"

lemma demo_registry_live: "live demo_registry = [(''a'', \<lparr>entry_rec = (demo_tunnel ''a'')\<lparr>LastActivity := 5\<rparr>, entry_conn = Some 7\<rparr>)]"
  by (simp add: demo_registry_def Put_def newRegistry_def store_put_def file_ops_def fileStore_Put_def fileStore_path_def fine_os_def demo_os_def
      demo_tunnel_def safeGuid_def safe_char_def Let_def)

lemma demo_registry_store: "\<exists>s. rstore demo_registry = Some s"
  unfolding demo_registry_def by (simp add: Put_def newRegistry_def store_put_def Let_def split_beta split: option.split)

theorem tunnels_consistent_witness:
  "\<exists>s p. rstore demo_registry = Some s \<and> file_held s ''a'' = Some p \<and> ConnectorKeyWire p = [1] \<and> Count demo_registry \<le> 1"
proof -
  have ok: "file_ok []"
    by (simp add: file_ok_def)
  have "(rt_step (range file_ops))\<^sup>*\<^sup>* (newRegistry (Some []) 1) demo_registry"
    unfolding demo_registry_def by (rule r_into_rtranclp, rule step_put) simp
  note c = tunnels_consistent [OF ok this]
  have l: "Lookup ''a'' demo_registry = Some ((demo_tunnel ''a'')\<lparr>LastActivity := 5\<rparr>, Some 7)"
    by (simp add: Lookup_def demo_registry_live)
  obtain s where s: "rstore demo_registry = Some s"
    using demo_registry_store by blast
  obtain p where p: "file_held s ''a'' = Some p" "p\<lparr>LastActivity := 0\<rparr> = (demo_tunnel ''a'')\<lparr>LastActivity := 0\<rparr>"
    using c [THEN conjunct2, THEN conjunct2, THEN conjunct1, rule_format, OF l s] by auto
  have "ConnectorKeyWire p = ConnectorKeyWire (p\<lparr>LastActivity := 0\<rparr>)"
    by simp
  also have "\<dots> = [1]"
    unfolding p(2) by (simp add: demo_tunnel_def)
  finally show ?thesis
    using conjunct1 [OF c] s p(1) by simp
qed

subsection \<open>Connections\<close>

definition in_use :: "'s tunnels \<Rightarrow> nat \<Rightarrow> bool" where
  "in_use r c \<longleftrightarrow> list_ex (\<lambda>(_, e). entry_conn e = Some c) (live r)"

lemma in_use_iff: "in_use r c \<longleftrightarrow> (\<exists>ge \<in> set (live r). entry_conn (snd ge) = Some c)"
  by (auto simp: in_use_def list_ex_iff split_beta)

lemma Delete_closes:
  assumes "gomap (live r)"
  shows "c \<in> set (closed_conns (snd (Delete S g r))) \<longleftrightarrow> in_use r c \<and> \<not> in_use (fst (Delete S g r)) c"
proof -
  have used: "in_use (fst (Delete S g r)) c \<longleftrightarrow> (\<exists>ge \<in> set (live r). fst ge \<noteq> g \<and> entry_conn (snd ge) = Some c)"
    by (auto simp: in_use_iff del_def split_beta simp del: split_paired_Ex)
  have cl: "c \<in> set (closed_conns (snd (Delete S g r))) \<longleftrightarrow>
      (\<exists>e. map_of (live r) g = Some e \<and> entry_conn e = Some c) \<and> \<not> in_use (fst (Delete S g r)) c"
    by (cases "map_of (live r) g")
      (auto simp: Delete_def takeChannelsLocked_def conn_unused_def in_use_def Let_def split: option.split)
  have "(\<exists>e. map_of (live r) g = Some e \<and> entry_conn e = Some c) \<longleftrightarrow> (\<exists>ge \<in> set (live r). fst ge = g \<and> entry_conn (snd ge) = Some c)"
    using gomap_mem [OF assms, of g] by force
  then show ?thesis
    using cl used by (auto simp: in_use_iff)
qed

text \<open>
  Several tunnels may share the connection of one registrar.  Deleting a tunnel closes a connection
  exactly when that tunnel was the last live one on it.  An eviction drops exactly the tunnels whose last
  activity is older than the allowed idle time, and closes exactly the connections all of whose tunnels it dropped, each once;
  a connection with a busy tunnel stays open.
\<close>

theorem shared_connection_closed_last:
  assumes "gomap (live r)" "EvictIdle S now idle r = (r', cl, gs)"
  shows "live r' = filter (\<lambda>(_, e). now - idle \<le> LastActivity (entry_rec e)) (live r)
    \<and> (\<forall>c. c \<in> set (closed_conns cl) \<longleftrightarrow> in_use r c \<and> \<not> in_use r' c)
    \<and> distinct (closed_conns cl)
    \<and> (\<forall>c g. c \<in> set (closed_conns (snd (Delete S g r))) \<longleftrightarrow> in_use r c \<and> \<not> in_use (fst (Delete S g r)) c)"
proof -
  obtain r1 conns chs gs1 where e: "evict_live S (now - idle) (live r) r = (r1, conns, chs, gs1)"
    by (rule prod_cases4)
  have r': "live r' = live r1" and cl: "closed_conns cl = close_conns (live r1) conns []"
    using assms(2) by (auto simp: EvictIdle_def e Let_def split: option.splits sum.splits prod.splits)
  have l: "live r1 = filter (\<lambda>ge. \<not> is_idle (now - idle) ge) (live r)"
    by (rule evict_all_live [OF e assms(1)])
  have conns: "conns = map (entry_conn \<circ> snd) (filter (is_idle (now - idle)) (live r))"
    using evict_live_result [OF e] by simp
  have "c \<in> set (closed_conns cl) \<longleftrightarrow> Some c \<in> set conns \<and> \<not> in_use r' c" for c
    unfolding cl by (simp add: close_conns_set in_use_def r')
  moreover have "Some c \<in> set conns \<and> \<not> in_use r' c \<longleftrightarrow> in_use r c \<and> \<not> in_use r' c" for c
    by (force simp: conns in_use_iff r' l)
  moreover have "live r' = filter (\<lambda>(_, e). now - idle \<le> LastActivity (entry_rec e)) (live r)"
    unfolding r' l by (rule filter_cong) (auto simp: is_idle_def)
  moreover have "distinct (closed_conns cl)"
    unfolding cl by (simp add: close_conns_distinct)
  ultimately show ?thesis
    using Delete_closes [OF assms(1)] by blast
qed

theorem shared_connection_closed_last_witness:
  "closed_conns (fst (snd (EvictIdle (file_ops fine_os) 100 10 demo_registry))) = [7]"
proof -
  obtain r' cl gs where e: "EvictIdle (file_ops fine_os) 100 10 demo_registry = (r', cl, gs)"
    by (rule prod_cases3)
  have "gomap (live demo_registry)"
    by (simp add: demo_registry_live gomap_def keys_def)
  note s = shared_connection_closed_last [OF this e]
  have "live r' = []"
    using s by (simp add: demo_registry_live)
  then have "set (closed_conns cl) = {7}"
    using s by (auto simp: in_use_def demo_registry_live)
  then have "closed_conns cl = [7]"
    using s by (simp add: distinct_set_single)
  then show ?thesis
    by (simp add: e)
qed

end
