(* ===== verification/Revtunnel_Plugin.thy ===== *)
theory Revtunnel_Plugin
  imports Tunnel_Registry Plugin_Server
begin

text \<open>
  The callbacks of the revtunnel plugin (\<^verbatim>\<open>plugin/revtunnel/plugin_config.go\<close>): which tunnel a client is routed to,
  the channels opened through the tunnels, and the idle timer they refresh.

  Parameters are the parsers of \<^verbatim>\<open>uuid\<close> and \<^verbatim>\<open>net/url\<close> and the base64 coder.  A channel is named by its index in
  the list of all channels ever opened; time is in seconds.
\<close>

section \<open>Routing\<close>



abbreviation "registerScheme \<equiv> ''revtunnel-register''"
abbreviation "connectScheme \<equiv> ''revtunnel''"





section \<open>Channels\<close>

record channelConn =
  ch_conn :: "nat option"
  ch_bind :: "string \<times> u32"
  ch_guid :: string
  ch_uid :: string
  authed :: bool
  lastTouch :: int

record 's rt_state =
  reg :: "'s tunnels"
  channels :: "channelConn list"
  pipeConns :: "string \<rightharpoonup> nat"

definition cleanupPendingPipe :: "nat \<Rightarrow> 's rt_state \<Rightarrow> 's rt_state" where
  "cleanupPendingPipe c st =
     (let uid = ch_uid (channels st ! c)
      in if uid \<noteq> '''' \<and> pipeConns st uid = Some c then st\<lparr>pipeConns := (pipeConns st)(uid := None)\<rparr> else st)"

text \<open>
  Opening a channel through the tunnel of \<open>rec\<close>: \<open>opened\<close> is the error of the registrar's connection, if any.  The registry
  is asked again once the channel is open, since the tunnel may have gone meanwhile; then the channel is closed at once.
\<close>

definition openForwardedTcpip :: "goerr option \<Rightarrow> nat option \<Rightarrow> tunnel \<Rightarrow> 's rt_state \<Rightarrow> 's rt_state \<times> nat res" where
  "openForwardedTcpip opened sshConn rec st =
     (case opened of
        Some e \<Rightarrow> (st, Inl (Wrapf ''revtunnel: open forwarded-tcpip on tunnel %q: %w'' [Guid rec] e))
      | None \<Rightarrow>
          let c = length (channels st);
              st1 = st\<lparr>channels := channels st @ [\<lparr>ch_conn = sshConn, ch_bind = (BindAddr rec, BindPort rec), ch_guid = Guid rec,
                         ch_uid = '''', authed = False, lastTouch = 0\<rparr>]\<rparr>
          in case TrackChannel (Guid rec) c (reg st1) of
               (r', True) \<Rightarrow> (st1\<lparr>reg := r'\<rparr>, Inr c)
             | (r', False) \<Rightarrow>
                 (cleanupPendingPipe c (st1\<lparr>reg := r'\<rparr>),
                  Inl (Errorf ''revtunnel: tunnel %q was removed while opening forwarded channel'' [Guid rec])))"



definition open_connect :: "goerr option \<Rightarrow> tunnel \<Rightarrow> nat option \<Rightarrow> string \<Rightarrow> 's rt_state \<Rightarrow> 's rt_state \<times> nat res" where
  "open_connect opened rec sshConn uid st =
     (case openForwardedTcpip opened sshConn rec st of
        (st1, Inl e) \<Rightarrow> (st1, Inl e)
      | (st1, Inr c) \<Rightarrow>
          (if uid \<noteq> ''''
           then st1\<lparr>channels := (channels st1)[c := (channels st1 ! c)\<lparr>ch_uid := uid\<rparr>], pipeConns := (pipeConns st1)(uid \<mapsto> c)\<rparr>
           else st1, Inr c))"





text \<open>The registry closes channels by \<^verbatim>\<open>closeFromRegistry\<close>.\<close>

definition closeFromRegistry :: "nat list \<Rightarrow> 's rt_state \<Rightarrow> 's rt_state" where
  "closeFromRegistry cs st = fold cleanupPendingPipe cs st"

section \<open>The idle timer\<close>

datatype 's event =
    EOpen "goerr option" tunnel "nat option" string
  | EPipeStart int string
  | EIo int nat nat
  | EClose nat
  | EPut "'s store_ops" int tunnel "nat option"
  | EDelete "'s store_ops" string
  | EKey "'s store_ops" string bytes
  | EPassword "'s store_ops" string bool
  | EEvict "'s store_ops" int int

definition registry_closes :: "'s tunnels \<times> nat list \<Rightarrow> 's rt_state \<Rightarrow> 's rt_state" where
  "registry_closes rc st = closeFromRegistry (snd rc) (st\<lparr>reg := fst rc\<rparr>)"




text \<open>The last activity of a live tunnel.\<close>

definition activity :: "'s tunnels \<Rightarrow> string \<Rightarrow> int option" where
  "activity r g = map_option (\<lambda>e. LastActivity (entry_rec e)) (map_of (live r) g)"










definition opened_for :: "'s event list \<Rightarrow> string \<Rightarrow> string \<Rightarrow> bool" where
  "opened_for evs g uid \<longleftrightarrow> uid \<noteq> '''' \<and> (\<exists>opened rec conn. EOpen opened rec conn uid \<in> set evs \<and> Guid rec = g)"

definition started :: "'s event list \<Rightarrow> string \<Rightarrow> bool" where
  "started evs uid \<longleftrightarrow> (\<exists>now. EPipeStart now uid \<in> set evs)"

definition chan_ok :: "'s event list \<Rightarrow> channelConn \<Rightarrow> bool" where
  "chan_ok evs cc \<longleftrightarrow> (ch_uid cc \<noteq> '''' \<longrightarrow> opened_for evs (ch_guid cc) (ch_uid cc))
     \<and> (authed cc \<longrightarrow> ch_uid cc \<noteq> '''' \<and> started evs (ch_uid cc))"

definition rp_inv :: "'s event list \<Rightarrow> 's rt_state \<Rightarrow> bool" where
  "rp_inv evs st \<longleftrightarrow> (\<forall>cc \<in> set (channels st). chan_ok evs cc)
     \<and> (\<forall>uid c. pipeConns st uid = Some c \<longrightarrow> c < length (channels st) \<and> ch_uid (channels st ! c) = uid \<and> uid \<noteq> '''')"



lemma rp_inv_reg [simp]: "rp_inv evs (st\<lparr>reg := r\<rparr>) = rp_inv evs st"
  by (simp add: rp_inv_def)

lemma channels_cleanup [simp]: "channels (cleanupPendingPipe c st) = channels st"
  by (simp add: cleanupPendingPipe_def Let_def)

lemma reg_cleanup [simp]: "reg (cleanupPendingPipe c st) = reg st"
  by (simp add: cleanupPendingPipe_def Let_def)



lemma reg_fold: "reg (fold cleanupPendingPipe cs st) = reg st"
  by (induction cs arbitrary: st) simp_all


lemma reg_closes [simp]: "reg (registry_closes rc st) = fst rc"
  by (simp add: registry_closes_def closeFromRegistry_def reg_fold)








lemma activity_untracked [simp]: "activity (UntrackChannel g c r) g' = activity r g'"
  by (simp add: activity_def UntrackChannel_def Let_def split: option.split)

lemma activity_open [simp]: "activity (reg (fst (open_connect opened rec conn uid st))) g = activity (reg st) g"
  by (cases opened)
    (auto simp: open_connect_def openForwardedTcpip_def TrackChannel_def activity_def Let_def)





section \<open>Routing of a client\<close>





end
