(* ===== verification/Revtunnel_Server.thy ===== *)
theory Revtunnel_Server
  imports Tunnel_Registry
begin

text \<open>
  The registration server of the revtunnel plugin (\<^verbatim>\<open>plugin/revtunnel/server.go\<close>): the authenticated header of a
  registration connection, the forwards a registrar asks for and cancels, the overrides of its session, and the clean-up when it
  disconnects.

  Parameters are the message authentication code, the generated keys and identifiers, the parser of key lines, and the store of the
  registry.  The requests of one connection are handled one after the other; each handler is a function of the handler's
  state, the registry and the port counter.  What the registry closes meanwhile is returned by its own operations.
\<close>

section \<open>The header of a registration connection\<close>

definition auth_header :: "(bytes \<Rightarrow> bytes) \<Rightarrow> bytes \<Rightarrow> bytes" where
  "auth_header mac authKeyWire = put_uint32 (word_of_nat (length authKeyWire)) @ authKeyWire @ mac authKeyWire"

text \<open>\<^verbatim>\<open>io.ReadFull\<close> of \<open>n\<close> bytes: an error on a stream that ends before.\<close>

definition read_full :: "nat \<Rightarrow> bytes \<Rightarrow> (bytes \<times> bytes) res" where
  "read_full n s = (if length s < n then Inl (if s = [] then EOF else Errorf ''unexpected EOF'' []) else Inr (take n s, drop n s))"

definition readAuthHeader :: "(bytes \<Rightarrow> bytes) \<Rightarrow> bytes \<Rightarrow> (bytes \<times> bytes) res" where
  "readAuthHeader mac s =
     bind_res (read_full 4 s) (\<lambda>(lenBuf, s1).
       let n = the (uint32_at lenBuf 0)
       in if n = 0 \<or> n > 8192 then Inl (Errorf ''revtunnel: invalid auth header length %d'' [itoa (uint n)])
          else bind_res (read_full (unat n) s1) (\<lambda>(key, s2).
               bind_res (read_full 32 s2) (\<lambda>(tag, s3).
                 if tag \<noteq> mac key then Inl (Errorf ''revtunnel: invalid internal auth tag'' []) else Inr (key, s3))))"

section \<open>State of a registration connection\<close>

record registerServer =
  piperHost :: string
  piperPort :: int
  maxPerConn :: nat
  srvMaxTotal :: nat

definition notificationQueueCapacity :: "registerServer \<Rightarrow> nat" where
  "notificationQueueCapacity s =
     (let capacity = (if maxPerConn s > 0 then maxPerConn s else 0);
          capacity = (if srvMaxTotal s > 0 \<and> (capacity = 0 \<or> srvMaxTotal s < capacity) then srvMaxTotal s else capacity)
      in if capacity > 0 then capacity else 1024)"

record connHandler =
  guids :: "string list"
  forwards :: "(string \<times> string) list"
  defaultConnKeyWire :: bytes
  guidCh :: "string list"
  sc :: nat
  scUser :: string

record regSession =
  envConnKeyWire :: "bytes option"
  envConnKeyInval :: bool
  envAllowPassword :: bool

definition newRegSession :: regSession where
  "newRegSession = \<lparr>envConnKeyWire = None, envConnKeyInval = False, envAllowPassword = False\<rparr>"

definition enqueueRegistration :: "registerServer \<Rightarrow> string \<Rightarrow> connHandler \<Rightarrow> connHandler \<times> bool" where
  "enqueueRegistration s guid h =
     (if length (guidCh h) < notificationQueueCapacity s then (h\<lparr>guidCh := guidCh h @ [guid]\<rparr>, True) else (h, False))"

definition envTruthy :: "string \<Rightarrow> bool" where
  "envTruthy v \<longleftrightarrow> map to_lower (trim_space v) \<in> {''1'', ''true'', ''yes'', ''on''}"

text \<open>\<open>envReq\<close> is the unmarshalled payload; \<open>parseKey\<close> reads a key line and gives the wire form of its key.\<close>

definition applyEnvRequest :: "(bytes \<Rightarrow> bytes res) \<Rightarrow> (string \<times> string) option \<Rightarrow> regSession \<Rightarrow> regSession" where
  "applyEnvRequest parseKey envReq s =
     (case envReq of
        None \<Rightarrow> s
      | Some (name, value) \<Rightarrow>
          if name = ''CONNECTOR_PUBKEY'' then
            (case parseKey (bytes_of value) of
               Inl _ \<Rightarrow> s\<lparr>envConnKeyInval := True\<rparr>
             | Inr pub \<Rightarrow> if envConnKeyWire s = None then s\<lparr>envConnKeyWire := Some pub\<rparr> else s)
          else if name = ''ALLOWPASSWORD'' then (if envTruthy value then s\<lparr>envAllowPassword := True\<rparr> else s)
          else s)"

section \<open>Overrides and revocation\<close>

definition applyEnvOverrides :: "'s store_ops \<Rightarrow> regSession \<Rightarrow> string \<Rightarrow> 's tunnels \<Rightarrow> 's tunnels \<times> goerr option" where
  "applyEnvOverrides S sess guid r =
     (let envKey = (case envConnKeyWire sess of None \<Rightarrow> [] | Some k \<Rightarrow> k)
      in if envConnKeyInval sess then (r, Some (Errorf ''invalid CONNECTOR_PUBKEY supplied for guid %s'' [guid]))
         else
           let (r1, ok1) = (if length envKey > 0 then UpdateConnectorKeyWire S guid envKey r else (r, True))
           in if \<not> ok1 then (r1, Some (Errorf ''could not apply CONNECTOR_PUBKEY for guid %s'' [guid]))
              else
                let (r2, ok2) = (if envAllowPassword sess then UpdateAllowPassword S guid True r1 else (r1, True))
                in if \<not> ok2 then (r2, Some (Errorf ''could not enable password auth for guid %s'' [guid]))
                   else (r2, None))"

definition revokeGuid :: "'s store_ops \<Rightarrow> string \<Rightarrow> connHandler \<times> 's tunnels \<Rightarrow> connHandler \<times> 's tunnels" where
  "revokeGuid S guid = (\<lambda>(h, r).
     (h\<lparr>guids := filter (\<lambda>g. g \<noteq> guid) (guids h), forwards := filter (\<lambda>kg. snd kg \<noteq> guid) (forwards h)\<rparr>,
      fst (Remove S guid r)))"

text \<open>What a session writes: an error line, the block of a tunnel, or nothing.\<close>

datatype session_output = ErrorLine goerr | Block tunnel | Silent

definition handleRegistration ::
  "'s store_ops \<Rightarrow> regSession \<Rightarrow> string \<Rightarrow> connHandler \<times> 's tunnels \<Rightarrow> (connHandler \<times> 's tunnels) \<times> session_output" where
  "handleRegistration S sess guid = (\<lambda>(h, r).
     case applyEnvOverrides S sess guid r of
       (r1, Some e) \<Rightarrow> (revokeGuid S guid (h, r1), ErrorLine e)
     | (r1, None) \<Rightarrow>
         (case Lookup guid r1 of
            None \<Rightarrow> ((h, r1), Silent)
          | Some (rec, _) \<Rightarrow> ((h, r1), Block rec)))"

definition cleanup :: "'s store_ops \<Rightarrow> connHandler \<times> 's tunnels \<Rightarrow> connHandler \<times> 's tunnels" where
  "cleanup S = (\<lambda>(h, r). (h, fold (\<lambda>g r. fst (Delete S g r)) (guids h) r))"

definition countLiveForwards :: "connHandler \<times> 's tunnels \<Rightarrow> connHandler \<times> nat" where
  "countLiveForwards = (\<lambda>(h, r).
     let h1 = h\<lparr>guids := filter (\<lambda>g. IsLive g r) (guids h), forwards := filter (\<lambda>kg. IsLive (snd kg) r) (forwards h)\<rparr>
     in (h1, length (guids h1)))"

definition perConnLimitReached :: "registerServer \<Rightarrow> connHandler \<times> 's tunnels \<Rightarrow> connHandler \<times> bool" where
  "perConnLimitReached s hr =
     (case countLiveForwards hr of (h1, n) \<Rightarrow> (h1, maxPerConn s > 0 \<and> n \<ge> maxPerConn s))"

section \<open>Forward requests\<close>

definition forwardKey :: "string \<Rightarrow> u32 \<Rightarrow> string" where
  "forwardKey bindAddr bindPort = join_host_port bindAddr (itoa (uint bindPort))"

text \<open>The counter is an atomic 32-bit integer; \<^verbatim>\<open>Add\<close> wraps around and returns the new value.\<close>

definition allocPseudoPort :: "u32 \<Rightarrow> u32 \<times> u32" where
  "allocPseudoPort counter = (let n = counter + 1 in (n, 40000 + n mod 20000))"

fun reserve_loop :: "nat \<Rightarrow> string \<Rightarrow> connHandler \<Rightarrow> u32 \<Rightarrow> u32 \<times> u32 option" where
  "reserve_loop 0 bindAddr h counter = (counter, None)"
| "reserve_loop (Suc i) bindAddr h counter =
     (case allocPseudoPort counter of
        (counter', p) \<Rightarrow>
          if map_of (forwards h) (forwardKey bindAddr p) = None then (counter', Some p)
          else reserve_loop i bindAddr h counter')"

definition reserveForwardPort :: "string \<Rightarrow> u32 \<Rightarrow> connHandler \<Rightarrow> u32 \<Rightarrow> u32 \<times> u32 option" where
  "reserveForwardPort bindAddr reqPort h counter =
     (if reqPort \<noteq> 0 then
        (counter, if map_of (forwards h) (forwardKey bindAddr reqPort) \<noteq> None then None else Some reqPort)
      else reserve_loop 20000 bindAddr h counter)"

record 's forward_env =
  fe_store :: "'s store_ops"
  fe_now :: int
  fe_guid :: string
  fe_key :: "(bytes \<times> string) res"

datatype reply = Refused | Granted | GrantedPort u32

definition new_record :: "'s forward_env \<Rightarrow> connHandler \<Rightarrow> string \<Rightarrow> u32 \<Rightarrow> bytes \<Rightarrow> string \<Rightarrow> tunnel" where
  "new_record E h bindAddr boundPort pem pub =
     \<lparr>Guid = fe_guid E, TargetUser = scUser h, BindAddr = bindAddr, BindPort = boundPort, ConnectorKeyWire = defaultConnKeyWire h,
      UpstreamKeyPEM = pem, UpstreamKeyPub = pub, AllowPassword = False, CreatedAt = fe_now E, LastActivity = fe_now E\<rparr>"

definition handleTcpipForward ::
  "'s forward_env \<Rightarrow> registerServer \<Rightarrow> (string \<times> u32) option \<Rightarrow> connHandler \<times> 's tunnels \<Rightarrow> u32 \<Rightarrow> (connHandler \<times> 's tunnels) \<times> u32 \<times> reply" where
  "handleTcpipForward E s payload = (\<lambda>(h, r) counter.
     case payload of
       None \<Rightarrow> ((h, r), counter, Refused)
     | Some (bindAddr, bindPort) \<Rightarrow>
         if length (defaultConnKeyWire h) = 0 then ((h, r), counter, Refused)
         else case perConnLimitReached s (h, r) of
           (h1, True) \<Rightarrow> ((h1, r), counter, Refused)
         | (h1, False) \<Rightarrow>
             if srvMaxTotal s > 0 \<and> Count r \<ge> srvMaxTotal s then ((h1, r), counter, Refused)
             else case reserveForwardPort bindAddr bindPort h1 counter of
               (counter', None) \<Rightarrow> ((h1, r), counter', Refused)
             | (counter', Some boundPort) \<Rightarrow>
                 (case fe_key E of
                    Inl _ \<Rightarrow> ((h1, r), counter', Refused)
                  | Inr (pem, pub) \<Rightarrow>
                      (case Put (fe_store E) (fe_now E) (new_record E h1 bindAddr boundPort pem pub) (Some (sc h1)) r of
                         (r1, Some _) \<Rightarrow> ((h1, r1), counter', Refused)
                       | (r1, None) \<Rightarrow>
                           let h2 = h1\<lparr>guids := guids h1 @ [fe_guid E], forwards := put (forwards h1) (forwardKey bindAddr boundPort) (fe_guid E)\<rparr>
                           in case enqueueRegistration s (fe_guid E) h2 of
                                (h3, False) \<Rightarrow> (revokeGuid (fe_store E) (fe_guid E) (h3, r1), counter', Refused)
                              | (h3, True) \<Rightarrow> ((h3, r1), counter', if bindPort = 0 then GrantedPort boundPort else Granted))))"

definition cancelled :: "string \<Rightarrow> u32 \<Rightarrow> connHandler \<Rightarrow> (string \<times> string) \<Rightarrow> bool" where
  "cancelled bindAddr bindPort h = (\<lambda>(key, g).
     if bindPort \<noteq> 0 then key = forwardKey bindAddr bindPort
     else (case split_host_port key of Inr (addr, _) \<Rightarrow> addr = bindAddr | Inl _ \<Rightarrow> False))"

definition revokeForward :: "'s store_ops \<Rightarrow> string \<Rightarrow> u32 \<Rightarrow> connHandler \<times> 's tunnels \<Rightarrow> connHandler \<times> 's tunnels" where
  "revokeForward S bindAddr bindPort = (\<lambda>(h, r).
     let gone = map snd (filter (cancelled bindAddr bindPort h) (forwards h))
     in (h\<lparr>forwards := filter (\<lambda>kg. \<not> cancelled bindAddr bindPort h kg) (forwards h),
           guids := filter (\<lambda>g. g \<notin> set gone) (guids h)\<rparr>,
         fold (\<lambda>g r. fst (Remove S g r)) gone r))"

definition handleCancelTcpipForward ::
  "'s store_ops \<Rightarrow> (string \<times> u32) option \<Rightarrow> connHandler \<times> 's tunnels \<Rightarrow> (connHandler \<times> 's tunnels) \<times> reply" where
  "handleCancelTcpipForward S payload hr =
     (case payload of
        None \<Rightarrow> (hr, Refused)
      | Some (bindAddr, bindPort) \<Rightarrow> (revokeForward S bindAddr bindPort hr, Granted))"

section \<open>Sessions and output\<close>

datatype channel_decision = RejectType | RejectSecond | AcceptFailed | Accepted

fun handleChannels :: "bool \<Rightarrow> (string \<times> bool) list \<Rightarrow> channel_decision list" where
  "handleChannels sessionAccepted [] = []"
| "handleChannels sessionAccepted ((typ, acceptOk) # chs) =
     (if typ \<noteq> ''session'' then RejectType # handleChannels sessionAccepted chs
      else if sessionAccepted then RejectSecond # handleChannels sessionAccepted chs
      else if \<not> acceptOk then AcceptFailed # handleChannels False chs
      else Accepted # handleChannels True chs)"

definition trimRight :: "string \<Rightarrow> string" where
  "trimRight s = rev (dropWhile (\<lambda>c. c = CHR 0x0A \<or> c = CHR 0x0D) (rev s))"

abbreviation crlf :: string where "crlf \<equiv> [CHR 0x0D, CHR 0x0A]"

definition writeRegistrationBlock :: "tunnel \<Rightarrow> string \<Rightarrow> int \<Rightarrow> string" where
  "writeRegistrationBlock rec host port =
     (let portFlag = (if port > 0 \<and> port \<noteq> 22 then '' -p '' @ itoa port else '''')
      in Guid rec @ crlf @ crlf
         @ (if AllowPassword rec then
              ''# password auth enabled '' @ map char_of [0xE2, 0x80, 0x94 :: nat] @ '' connect as '' @ TargetUser rec
                @ '' with the target's password:'' @ crlf
              @ ''ssh'' @ portFlag @ '' '' @ Guid rec @ ''@'' @ host @ ''  # prompts for the target password'' @ crlf @ crlf
            else '''')
         @ ''# add to target's authorized_keys:'' @ crlf
         @ ''echo ''  @ [CHR 0x27] @ trimRight (UpstreamKeyPub rec) @ [CHR 0x27] @ '' >> ~/.ssh/authorized_keys'' @ crlf @ crlf
         @ ''# connect as '' @ TargetUser rec @ '' (use the same key you registered with, or the CONNECTOR_PUBKEY key):'' @ crlf
         @ ''ssh'' @ portFlag @ '' -i <your-key> '' @ Guid rec @ ''@'' @ host @ crlf @ crlf
         @ ''# press Ctrl+C to stop forwarding'' @ crlf)"

section \<open>Properties\<close>

subsection \<open>The header\<close>

lemma read_full_Inr: "read_full n s = Inr (a, b) \<longleftrightarrow> s = a @ b \<and> length a = n"
  by (auto simp: read_full_def)

lemma uint32_at_put_uint32 [simp]: "uint32_at (put_uint32 w) 0 = Some w"
  using uint32_at_append_put [of "[]" 0 w "[]"] by simp

lemma length4_put: "length a = 4 \<Longrightarrow> \<exists>w. a = put_uint32 w"
  using split_uint32_at [of a] by (metis append_Nil2 drop_all order_refl)

text \<open>
  C18: the registration server accepts a connection's header exactly if it is a header the plugin itself writes: a stream is
  accepted with key \<open>key\<close> and rest \<open>rest\<close> if and only if it is the length, the key and the key's authentication code, followed by
  \<open>rest\<close>, and the key is neither empty nor longer than 8192 bytes.  So the plugin's headers are read back unchanged,
  and a process that cannot compute the code for a key cannot register with it.
\<close>

theorem auth_header_authentic:
  assumes "\<forall>k. length (mac k) = 32"
  shows "readAuthHeader mac s = Inr (key, rest) \<longleftrightarrow> s = auth_header mac key @ rest \<and> key \<noteq> [] \<and> length key \<le> 8192"
proof
  assume "readAuthHeader mac s = Inr (key, rest)"
  then obtain lenBuf s1 n s2 where a: "s = lenBuf @ s1" "length lenBuf = 4" "n = the (uint32_at lenBuf 0)" "n \<noteq> 0" "\<not> n > 8192"
    "s1 = key @ s2" "length key = unat n" "s2 = mac key @ rest"
    by (auto simp: readAuthHeader_def bind_res_eq_Inr read_full_Inr Let_def split: if_splits)
  obtain w where w: "lenBuf = put_uint32 w"
    using length4_put [OF a(2)] by blast
  then have n: "n = w"
    using a(3) by simp
  have "unat n \<le> unat (8192 :: u32)"
    using a(5) by (simp add: word_le_nat_alt not_less)
  then have "length key \<le> 8192"
    using a(7) by simp
  moreover have "key \<noteq> []"
    using a(4,7) by (auto simp: unat_eq_0)
  moreover have "word_of_nat (length key) = n"
    using a(7) by simp
  ultimately show "s = auth_header mac key @ rest \<and> key \<noteq> [] \<and> length key \<le> 8192"
    using a(1,6,8) w n by (simp add: auth_header_def)
next
  assume s: "s = auth_header mac key @ rest \<and> key \<noteq> [] \<and> length key \<le> 8192"
  let ?n = "word_of_nat (length key) :: u32"
  have u: "unat ?n = length key"
    using s by (simp add: unat_of_nat)
  have "?n \<noteq> 0" "\<not> ?n > 8192"
    using s u by (auto simp: word_less_nat_alt unat_eq_0 [symmetric])
  moreover have "read_full 4 s = Inr (put_uint32 ?n, key @ mac key @ rest)"
    using s by (simp add: read_full_Inr auth_header_def)
  moreover have "read_full (unat ?n) (key @ mac key @ rest) = Inr (key, mac key @ rest)"
    "read_full 32 (mac key @ rest) = Inr (mac key, rest)"
    using assms u by (simp_all add: read_full_Inr)
  ultimately show "readAuthHeader mac s = Inr (key, rest)"
    by (simp add: readAuthHeader_def Let_def)
qed

theorem auth_header_authentic_witness:
  "readAuthHeader (\<lambda>k. replicate 32 (k ! 0)) (auth_header (\<lambda>k. replicate 32 (k ! 0)) [7, 8] @ [1]) = Inr ([7, 8], [1])"
  using auth_header_authentic [of "\<lambda>k. replicate 32 (k ! 0)" "auth_header (\<lambda>k. replicate 32 (k ! 0)) [7, 8] @ [1]" "[7, 8]" "[1]"] by simp

subsection \<open>Overrides\<close>

lemma live_Remove [simp]: "live (fst (Remove S g r)) = del (live r) g"
  by (simp add: Remove_def)








subsection \<open>Disconnection and quota\<close>

text \<open>The live tunnels of a connection, and the invariant of its handler.\<close>

definition owned :: "'s tunnels \<Rightarrow> nat \<Rightarrow> string set" where
  "owned r c = {g. \<exists>e. map_of (live r) g = Some e \<and> entry_conn e = Some c}"

definition handler_inv :: "registerServer \<Rightarrow> nat \<Rightarrow> connHandler \<times> 's tunnels \<Rightarrow> bool" where
  "handler_inv s c hr \<longleftrightarrow> sc (fst hr) = c \<and> owned (snd hr) c \<subseteq> set (guids (fst hr))
     \<and> (maxPerConn s > 0 \<longrightarrow> length (guids (fst hr)) \<le> maxPerConn s)"

text \<open>
  What happens on the connection, in any order: forward requests, cancellations, registrations that its session handles, and
  changes of the registry by others, which never add a tunnel for this connection.
\<close>

inductive conn_step :: "registerServer \<Rightarrow> connHandler \<times> 's tunnels \<Rightarrow> connHandler \<times> 's tunnels \<Rightarrow> bool" for s where
  step_forward: "conn_step s hr (fst (handleTcpipForward E s payload hr counter))"
| step_cancel: "conn_step s hr (fst (handleCancelTcpipForward S payload hr))"
| step_session: "conn_step s (h, r) (fst (handleRegistration S sess g (h\<lparr>guidCh := gs\<rparr>, r)))"
| step_others: "owned r' (sc h) \<subseteq> owned r (sc h) \<Longrightarrow> conn_step s (h, r) (h, r')"

lemma owned_del: "owned (fst (Remove S g r)) c = owned r c - {g}"
  by (auto simp: owned_def)

lemma owned_fold_Remove: "owned (fold (\<lambda>g r. fst (Remove S g r)) gs r) c = owned r c - set gs"
  by (induction gs arbitrary: r) (auto simp: owned_del)

lemma owned_update: "owned (fst (update_live S g e upd r)) c \<subseteq> owned r c" if "map_of (live r) g = Some e"
  using that by (auto simp: owned_def update_live_def split: prod.splits option.splits if_splits)

lemma owned_key: "owned (fst (UpdateConnectorKeyWire S g k r)) c \<subseteq> owned r c"
  using owned_update [of r g] by (auto simp: UpdateConnectorKeyWire_def split: option.splits)

lemma owned_password: "owned (fst (UpdateAllowPassword S g a r)) c \<subseteq> owned r c"
  using owned_update [of r g] by (auto simp: UpdateAllowPassword_def split: option.splits)

lemma owned_overrides: "owned (fst (applyEnvOverrides S sess g r)) c \<subseteq> owned r c"
proof -
  define key where "key = (case envConnKeyWire sess of None \<Rightarrow> [] | Some k \<Rightarrow> k)"
  obtain r1 ok1 where r1: "(if length key > 0 then UpdateConnectorKeyWire S g key r else (r, True)) = (r1, ok1)"
    by fastforce
  obtain r2 ok2 where r2: "(if envAllowPassword sess then UpdateAllowPassword S g True r1 else (r1, True)) = (r2, ok2)"
    by fastforce
  have s1: "owned r1 c \<subseteq> owned r c"
    using r1 owned_key [of S g key r c] by (auto split: if_splits)
  have s2: "owned r2 c \<subseteq> owned r1 c"
    using r2 owned_password [of S g True r1 c] by (auto split: if_splits)
  have "fst (applyEnvOverrides S sess g r) \<in> {r, r1, r2}"
    unfolding applyEnvOverrides_def key_def [symmetric] Let_def r1 by (simp add: r2)
  then show ?thesis
    using s1 s2 by auto
qed

lemma owned_Put:
  "owned (fst (Put S now rec (Some c) r)) c \<subseteq> insert (Guid rec) (owned r c)"
  by (auto simp: Put_def owned_def Let_def split: option.splits prod.splits if_splits)

lemma owned_Put_error: "Put S now rec conn r = (r', Some e) \<Longrightarrow> owned r' c \<subseteq> owned r c"
  by (auto simp: Put_def owned_def Let_def split: option.splits prod.splits if_splits)

lemma length_filter_trans: "length xs \<le> m \<Longrightarrow> length (filter P xs) \<le> m"
  using length_filter_le [of P xs] by linarith

lemma handler_inv_pruned:
  assumes "handler_inv s c (h, r)" "countLiveForwards (h, r) = (h1, n)"
  shows "handler_inv s c (h1, r)" "n = length (guids h1)"
proof -
  have h1: "guids h1 = filter (\<lambda>g. IsLive g r) (guids h)" "sc h1 = sc h" "n = length (guids h1)"
    using assms(2) by (auto simp: countLiveForwards_def Let_def)
  have "owned r c \<subseteq> {g. IsLive g r}"
    by (auto simp: owned_def IsLive_def)
  then show "handler_inv s c (h1, r)"
    using assms(1) h1 by (auto simp: handler_inv_def intro: length_filter_trans)
  show "n = length (guids h1)"
    by (rule h1(3))
qed

lemma handler_inv_revokeGuid:
  assumes "sc h = c" "owned r c \<subseteq> insert g (set (guids h))" "maxPerConn s > 0 \<longrightarrow> length (filter (\<lambda>x. x \<noteq> g) (guids h)) \<le> maxPerConn s"
  shows "handler_inv s c (revokeGuid S g (h, r))"
  using assms by (auto simp: handler_inv_def revokeGuid_def owned_del)

lemma handler_inv_mono:
  "handler_inv s c (h, r) \<Longrightarrow> owned r' c \<subseteq> owned r c \<Longrightarrow> handler_inv s c (h, r')"
  by (auto simp: handler_inv_def)

lemma handler_inv_session:
  assumes "handler_inv s c (h, r)"
  shows "handler_inv s c (fst (handleRegistration S sess g (h, r)))"
proof (cases "applyEnvOverrides S sess g r")
  case (Pair r1 err)
  have i: "handler_inv s c (h, r1)"
    using handler_inv_mono [OF assms] owned_overrides [of S sess g r c] Pair by simp
  then have "handler_inv s c (revokeGuid S g (h, r1))"
    by (intro handler_inv_revokeGuid) (auto simp: handler_inv_def intro: length_filter_trans)
  then show ?thesis
    using i Pair by (cases err) (auto simp: handleRegistration_def split: option.split)
qed

lemma handler_inv_cancel:
  assumes "handler_inv s c hr"
  shows "handler_inv s c (revokeForward S addr port hr)"
proof -
  obtain h r where hr: "hr = (h, r)"
    by fastforce
  show ?thesis
    using assms by (auto simp: hr handler_inv_def revokeForward_def Let_def owned_fold_Remove intro: length_filter_trans)
qed

lemma handler_inv_forwarded:
  assumes "handler_inv s c (h1, r)" "\<not> (maxPerConn s > 0 \<and> length (guids h1) \<ge> maxPerConn s)"
    and "Put S now rec (Some (sc h1)) r = (r1, None)" "Guid rec = g"
    and "enqueueRegistration s g (h1\<lparr>guids := guids h1 @ [g], forwards := f\<rparr>) = (h3, ok)"
  shows "handler_inv s c (if ok then (h3, r1) else revokeGuid S g (h3, r1))"
proof -
  have h3: "guids h3 = guids h1 @ [g]" "sc h3 = sc h1"
    using assms(5) by (auto simp: enqueueRegistration_def split: if_splits)
  have "owned r1 c \<subseteq> insert g (owned r c)"
    using owned_Put [of S now rec "sc h1" r] assms(1,3,4) by (auto simp: handler_inv_def)
  then have o: "owned r1 c \<subseteq> insert g (set (guids h1))"
    using assms(1) by (auto simp: handler_inv_def)
  then have "handler_inv s c (h3, r1)"
    using assms(1,2) h3 by (auto simp: handler_inv_def)
  moreover have "handler_inv s c (revokeGuid S g (h3, r1))"
    using assms(1) o h3 by (intro handler_inv_revokeGuid) (auto simp: handler_inv_def intro: length_filter_trans)
  ultimately show ?thesis
    by simp
qed

lemma handler_inv_forward:
  assumes "handler_inv s c (h, r)"
  shows "handler_inv s c (fst (handleTcpipForward E s payload (h, r) counter))"
proof (cases "payload = None \<or> length (defaultConnKeyWire h) = 0")
  case True
  then show ?thesis
    using assms by (cases payload) (auto simp: handleTcpipForward_def)
next
  case False
  then obtain addr port where p: "payload = Some (addr, port)" "length (defaultConnKeyWire h) \<noteq> 0"
    by auto
  obtain h1 n where cl: "countLiveForwards (h, r) = (h1, n)"
    by fastforce
  note i = handler_inv_pruned [OF assms cl]
  obtain counter' res where rp: "reserveForwardPort addr port h1 counter = (counter', res)"
    by fastforce
  show ?thesis
  proof (cases "maxPerConn s > 0 \<and> n \<ge> maxPerConn s \<or> srvMaxTotal s > 0 \<and> Count r \<ge> srvMaxTotal s \<or> res = None \<or> is_err (fe_key E)")
    case True
    then have "fst (handleTcpipForward E s payload (h, r) counter) = (h1, r)"
      using p by (auto simp: handleTcpipForward_def perConnLimitReached_def cl rp is_err_iff split: option.split bool.split)
    then show ?thesis
      using i(1) by simp
  next
    case F: False
    then obtain bound pem pub where b: "res = Some bound" "fe_key E = Inr (pem, pub)"
      by (cases "fe_key E") auto
    let ?rec = "new_record E h1 addr bound pem pub"
    have g: "Guid ?rec = fe_guid E"
      by (simp add: new_record_def)
    obtain r1 err where put: "Put (fe_store E) (fe_now E) ?rec (Some (sc h1)) r = (r1, err)"
      by fastforce
    let ?h2 = "h1\<lparr>guids := guids h1 @ [fe_guid E], forwards := put (forwards h1) (forwardKey addr bound) (fe_guid E)\<rparr>"
    obtain h3 ok where en: "enqueueRegistration s (fe_guid E) ?h2 = (h3, ok)"
      by fastforce
    have res: "fst (handleTcpipForward E s payload (h, r) counter) =
        (if err \<noteq> None then (h1, r1) else if ok then (h3, r1) else revokeGuid (fe_store E) (fe_guid E) (h3, r1))"
    proof -
      have "perConnLimitReached s (h, r) = (h1, False)"
        using F cl by (simp add: perConnLimitReached_def)
      moreover have "\<not> (srvMaxTotal s > 0 \<and> Count r \<ge> srvMaxTotal s)"
        using F by blast
      ultimately show ?thesis
        using p b(1) by (cases err; cases ok) (auto simp: handleTcpipForward_def rp b put en Let_def)
    qed
    show ?thesis
    proof (cases err)
      case None
      then show ?thesis
        using handler_inv_forwarded [OF i(1) _ put [unfolded None] g en] F i(2) res by simp
    next
      case (Some e)
      then show ?thesis
        using handler_inv_mono [OF i(1) owned_Put_error] put res by simp
    qed
  qed
qed

lemma conn_step_inv: "conn_step s hr hr' \<Longrightarrow> handler_inv s c hr \<Longrightarrow> handler_inv s c hr'"
proof (induction rule: conn_step.induct)
  case (step_forward hr E payload counter)
  then show ?case
    using handler_inv_forward [of s c "fst hr" "snd hr"] by simp
next
  case (step_cancel hr S payload)
  then show ?case
    by (auto simp: handleCancelTcpipForward_def handler_inv_cancel split: option.split)
next
  case (step_session h r S sess g gs)
  then have "handler_inv s c (h\<lparr>guidCh := gs\<rparr>, r)"
    by (simp add: handler_inv_def)
  then show ?case
    by (rule handler_inv_session)
next
  case (step_others r' h r)
  then show ?case
    by (auto simp: handler_inv_def)
qed

interpretation conn: step_invariant
  "\<lambda>hr. sc (fst hr) = c \<and> guids (fst hr) = [] \<and> owned (snd hr) c = {}" "conn_step s" "handler_inv s c" for s c
proof
  show "handler_inv s c hr" if "sc (fst hr) = c \<and> guids (fst hr) = [] \<and> owned (snd hr) c = {}" for hr :: "connHandler \<times> 's tunnels"
    using that by (simp add: handler_inv_def)
  show "handler_inv s c hr'" if "handler_inv s c hr" "conn_step s hr hr'" for hr hr' :: "connHandler \<times> 's tunnels"
    by (rule conn_step_inv [OF that(2,1)])
qed

text \<open>
  C20: a registrar connection never holds more live tunnels than it may, and none outlives it.  Whatever the registrar requests and
  cancels and whatever happens to the registry meanwhile, the live tunnels of the connection are among those its handler remembers
  and, if a limit is configured, no more than the limit; and when the connection ends, the clean-up leaves no live
  tunnel that belongs to it.
\<close>

theorem registrar_tunnels_bounded_and_cleaned:
  assumes "guids h0 = []" "owned r0 (sc h0) = {}" "(conn_step s)\<^sup>*\<^sup>* (h0, r0) (h, r)"
  shows "(maxPerConn s > 0 \<longrightarrow> card (owned r (sc h)) \<le> maxPerConn s) \<and> owned (snd (cleanup S (h, r))) (sc h) = {}"
proof -
  have i: "handler_inv s (sc h0) (h, r)"
    using conn.reachable_inv [of "(h0, r0)" "sc h0" s "(h, r)"] assms by simp
  then have c: "sc h = sc h0" "owned r (sc h) \<subseteq> set (guids h)"
    by (simp_all add: handler_inv_def)
  have "card (owned r (sc h)) \<le> length (guids h)"
    using card_mono [OF finite_set c(2)] card_length [of "guids h"] by linarith
  moreover have "owned (fold (\<lambda>g r. fst (Delete S g r)) gs r) c = owned r c - set gs" for gs c
    using owned_fold_Remove [of S gs r c] by (simp add: Remove_def)
  ultimately show ?thesis
    using i c by (auto simp: handler_inv_def cleanup_def)
qed

definition demo_forward_env :: "memory_store forward_env" where
  "demo_forward_env = \<lparr>fe_store = memory_ops, fe_now = 5, fe_guid = ''a'', fe_key = Inr ([2], ''k'')\<rparr>"

definition demo_server :: registerServer where
  "demo_server = \<lparr>piperHost = ''p'', piperPort = 0, maxPerConn = 1, srvMaxTotal = 0\<rparr>"

definition demo_fresh :: connHandler where
  "demo_fresh = \<lparr>guids = [], forwards = [], defaultConnKeyWire = [1], guidCh = [], sc = 7, scUser = ''root''\<rparr>"

theorem registrar_tunnels_bounded_and_cleaned_witness:
  "\<exists>h r. fst (handleTcpipForward demo_forward_env demo_server (Some (''localhost'', 22)) (demo_fresh, newRegistry (Some []) 0) 0) = (h, r)
    \<and> IsLive ''a'' r \<and> card (owned r 7) \<le> 1 \<and> owned (snd (cleanup memory_ops (h, r))) 7 = {}"
proof -
  obtain h r where e: "fst (handleTcpipForward demo_forward_env demo_server (Some (''localhost'', 22)) (demo_fresh, newRegistry (Some []) 0) 0) = (h, r)"
    by fastforce
  have "(conn_step demo_server)\<^sup>*\<^sup>* (demo_fresh, newRegistry (Some []) 0) (h, r)"
    unfolding e [symmetric] by (rule r_into_rtranclp, rule step_forward)
  moreover have "guids demo_fresh = []" "owned (newRegistry (Some [] :: memory_store option) 0) (sc demo_fresh) = {}"
    by (simp_all add: demo_fresh_def newRegistry_def owned_def)
  ultimately have t: "(maxPerConn demo_server > 0 \<longrightarrow> card (owned r (sc h)) \<le> maxPerConn demo_server)
      \<and> owned (snd (cleanup memory_ops (h, r))) (sc h) = {}"
    by (intro registrar_tunnels_bounded_and_cleaned)
  have "sc (fst (h, r)) = 7" "IsLive ''a'' (snd (h, r))"
    unfolding e [symmetric]
    by (simp_all add: handleTcpipForward_def demo_fresh_def demo_forward_env_def demo_server_def perConnLimitReached_def countLiveForwards_def
        newRegistry_def reserveForwardPort_def new_record_def Put_def store_put_def memory_ops_def memoryStore_Put_def
        enqueueRegistration_def notificationQueueCapacity_def IsLive_def Let_def)
  then show ?thesis
    using t e by (simp add: demo_server_def)
qed

subsection \<open>Ports\<close>

lemma allocPseudoPort_range:
  assumes "allocPseudoPort counter = (counter', p)"
  shows "40000 \<le> unat p \<and> unat p < 60000"
proof -
  have m: "unat ((counter + 1) mod 20000 :: u32) < 20000"
    by (simp add: unat_mod)
  then have "unat (40000 + (counter + 1) mod 20000 :: u32) = 40000 + unat ((counter + 1) mod 20000 :: u32)"
    by (subst unat_add_lem [THEN iffD1]) simp_all
  then show ?thesis
    using assms m by (auto simp: allocPseudoPort_def Let_def)
qed

lemma reserve_loop_free:
  "reserve_loop i addr h counter = (counter', Some p) \<Longrightarrow>
     map_of (forwards h) (forwardKey addr p) = None \<and> 40000 \<le> unat p \<and> unat p < 60000"
proof (induction i addr h counter rule: reserve_loop.induct)
  case (2 i addr h counter)
  obtain c1 p1 where a: "allocPseudoPort counter = (c1, p1)"
    by fastforce
  show ?case
  proof (cases "map_of (forwards h) (forwardKey addr p1) = None")
    case True
    then show ?thesis
      using 2(2) a allocPseudoPort_range [OF a] by auto
  next
    case False
    then show ?thesis
      using 2 a by auto
  qed
qed simp

text \<open>A reserved port is not yet forwarded on this connection, and one the server chose is in the advertised range.\<close>

lemma reserveForwardPort_free:
  assumes "reserveForwardPort addr req h counter = (counter', Some p)"
  shows "map_of (forwards h) (forwardKey addr p) = None" "req \<noteq> 0 \<Longrightarrow> p = req" "req = 0 \<Longrightarrow> 40000 \<le> unat p \<and> unat p < 60000"
  using assms reserve_loop_free [of 20000 addr h counter counter' p]
  by (auto simp: reserveForwardPort_def split: if_splits)

end
