(* ===== verification/Aggregator.thy ===== *)
theory Aggregator
  imports Admin_Registry
begin

text \<open>
  The admin client library (\<^verbatim>\<open>libadmin/aggregator.go\<close>): one view of the sessions of several daemons.

  A client is named by the address it was dialled for, so the map of clients is the list of its addresses.  The remote side is a
  parameter: \<open>cluster\<close> gives the result of dialling an address and of each RPC at an address.  Queries to several
  daemons run in parallel and their results are merged one at a time under a lock, in any order: \<open>sched\<close> is the order in which
  they complete.  \<^verbatim>\<open>Refresh\<close> holds the lock of the aggregator in two separate sections, \<open>refresh_open\<close> and
  \<open>refresh_commit\<close>.
\<close>

section \<open>Operations\<close>

record server_info =
  si_Id :: string
  si_Version :: string
  si_SshAddr :: string
  si_StartedAt :: int

record ServerInfoCache =
  ca_Addr :: string
  ca_Info :: server_info

record AggregatedSession =
  as_InstanceID :: string
  as_InstanceAddr :: string
  as_Session :: pb_session

datatype agg_error = AggregatorError (InstanceID: string) (InstanceAddr: string) (Err: goerr) | DiscoveryError goerr

record cluster =
  cl_dial :: "string \<Rightarrow> goerr option"
  cl_ServerInfo :: "string \<Rightarrow> server_info res"
  cl_ListSessions :: "string \<Rightarrow> pb_session list res"
  cl_KillSession :: "string \<Rightarrow> string \<Rightarrow> bool res"
  cl_StreamSession :: "string \<Rightarrow> string \<Rightarrow> bool \<Rightarrow> (session_frame list \<times> goerr option) res"

record aggregator =
  clients :: "string list"
  infos :: "(string \<times> ServerInfoCache) list"

definition NewAggregator :: aggregator where
  "NewAggregator = \<lparr>clients = [], infos = []\<rparr>"

text \<open>Dialling the endpoints that have no client yet: the clients, those to query, and the errors.\<close>

fun dial_loop :: "cluster \<Rightarrow> string list \<Rightarrow> string list \<Rightarrow> string list \<times> string list \<times> agg_error list" where
  "dial_loop C [] cs = (cs, [], [])"
| "dial_loop C (addr # addrs) cs =
     (if addr \<in> set cs then (case dial_loop C addrs cs of (cs', q, es) \<Rightarrow> (cs', addr # q, es))
      else case cl_dial C addr of
             Some e \<Rightarrow> (case dial_loop C addrs cs of (cs', q, es) \<Rightarrow> (cs', q, AggregatorError '''' addr e # es))
           | None \<Rightarrow> (case dial_loop C addrs (cs @ [addr]) of (cs', q, es) \<Rightarrow> (cs', addr # q, es)))"

definition refresh_open :: "cluster \<Rightarrow> string list \<Rightarrow> aggregator \<Rightarrow> aggregator \<times> string list \<times> agg_error list" where
  "refresh_open C addrs a =
     (let gone = filter (\<lambda>addr. addr \<notin> set addrs) (clients a);
          (cs, toQuery, errs) = dial_loop C addrs (filter (\<lambda>addr. addr \<in> set addrs) (clients a))
      in (\<lparr>clients = cs, infos = fold (\<lambda>addr m. del m addr) gone (infos a)\<rparr>, toQuery, errs))"

record queried =
  infoMap :: "(string \<times> ServerInfoCache) list"
  dupes :: "(string \<times> string list) list"
  infoErrors :: "agg_error list"

text \<open>The goroutine of one client, when it has its reply.\<close>

definition report :: "cluster \<Rightarrow> string \<Rightarrow> queried \<Rightarrow> queried" where
  "report C addr q =
     (case cl_ServerInfo C addr of
        Inl e \<Rightarrow> q\<lparr>infoErrors := infoErrors q @ [AggregatorError '''' addr e]\<rparr>
      | Inr i \<Rightarrow>
          (case map_of (infoMap q) (si_Id i) of
             Some existing \<Rightarrow>
               q\<lparr>dupes := put (dupes q) (si_Id i)
                    ((case map_of (dupes q) (si_Id i) of None \<Rightarrow> [] | Some as \<Rightarrow> as) @ [ca_Addr existing, addr]),
                 infoMap := del (infoMap q) (si_Id i)\<rparr>
           | None \<Rightarrow>
               (case map_of (dupes q) (si_Id i) of
                  Some as \<Rightarrow> q\<lparr>dupes := put (dupes q) (si_Id i) (as @ [addr])\<rparr>
                | None \<Rightarrow> q\<lparr>infoMap := put (infoMap q) (si_Id i) \<lparr>ca_Addr = addr, ca_Info = i\<rparr>\<rparr>)))"

definition query :: "cluster \<Rightarrow> string list \<Rightarrow> queried" where
  "query C completions = fold (report C) completions \<lparr>infoMap = [], dupes = [], infoErrors = []\<rparr>"

fun uniq :: "string list \<Rightarrow> string list \<Rightarrow> string list" where
  "uniq seen [] = []"
| "uniq seen (a # as) = (if a \<in> set seen then uniq seen as else a # uniq (a # seen) as)"

definition duplicate :: "string \<Rightarrow> string list \<Rightarrow> agg_error" where
  "duplicate iid as = AggregatorError iid '''' (Errorf ''duplicate instance id reported by multiple endpoints: %v'' as)"

definition refresh_commit :: "queried \<Rightarrow> aggregator \<Rightarrow> aggregator" where
  "refresh_commit q a = a\<lparr>infos := infoMap q\<rparr>"

definition Refresh ::
  "cluster \<Rightarrow> (string list \<Rightarrow> string list) \<Rightarrow> string list res \<Rightarrow> aggregator \<Rightarrow> aggregator \<times> (string \<times> ServerInfoCache) list option \<times> agg_error list" where
  "Refresh C sched endpoints a =
     (case endpoints of
        Inl e \<Rightarrow> (a, None, [DiscoveryError (Wrapf ''discovery: %w'' [] e)])
      | Inr addrs \<Rightarrow>
          let (a1, toQuery, errs) = refresh_open C addrs a;
              q = query C (sched toQuery)
          in (refresh_commit q a1, Some (infoMap q),
              errs @ infoErrors q @ map (\<lambda>(iid, as). duplicate iid (uniq [] as)) (dupes q)))"

definition Instances :: "aggregator \<Rightarrow> (string \<times> ServerInfoCache) list" where
  "Instances a = infos a"

definition ClientFor :: "string \<Rightarrow> aggregator \<Rightarrow> string option" where
  "ClientFor instanceID a =
     (case map_of (infos a) instanceID of
        None \<Rightarrow> None
      | Some c \<Rightarrow> if ca_Addr c \<in> set (clients a) then Some (ca_Addr c) else None)"

fun list_jobs :: "cluster \<Rightarrow> (string \<times> ServerInfoCache) list \<Rightarrow> AggregatedSession list \<times> agg_error list" where
  "list_jobs C [] = ([], [])"
| "list_jobs C ((iid, c) # js) =
     (let (out, errs) = list_jobs C js
      in case cl_ListSessions C (ca_Addr c) of
           Inl e \<Rightarrow> (out, AggregatorError iid (ca_Addr c) e # errs)
         | Inr ss \<Rightarrow> (map (\<lambda>s. \<lparr>as_InstanceID = iid, as_InstanceAddr = ca_Addr c, as_Session = s\<rparr>) ss @ out, errs))"

text \<open>A job for an instance whose client is gone calls a method of a nil client, which panics: \<open>None\<close>.\<close>

definition ListAllSessions ::
  "cluster \<Rightarrow> ((string \<times> ServerInfoCache) list \<Rightarrow> (string \<times> ServerInfoCache) list) \<Rightarrow> aggregator \<Rightarrow> (AggregatedSession list \<times> agg_error list) option" where
  "ListAllSessions C sched a =
     (if list_all (\<lambda>(iid, c). ca_Addr c \<in> set (clients a)) (infos a) then Some (list_jobs C (sched (infos a))) else None)"

text \<open>The result of a kill, and the address it was sent to, if any.\<close>

definition Aggregator_KillSession :: "cluster \<Rightarrow> string \<Rightarrow> string \<Rightarrow> aggregator \<Rightarrow> bool res \<times> string option" where
  "Aggregator_KillSession C instanceID sessionID a =
     (case ClientFor instanceID a of
        None \<Rightarrow> (Inl (Errorf ''unknown admin instance %q'' [instanceID]), None)
      | Some addr \<Rightarrow> (cl_KillSession C addr sessionID, Some addr))"

text \<open>The frames a stream delivers, and how it ends: \<open>None\<close> is \<^verbatim>\<open>io.EOF\<close>.\<close>

fun forward :: "('f \<Rightarrow> 's \<Rightarrow> 's \<times> goerr option) \<Rightarrow> 'f list \<Rightarrow> goerr option \<Rightarrow> 's \<Rightarrow> 's \<times> goerr option" where
  "forward handler [] fin s = (s, fin)"
| "forward handler (f # fs) fin s =
     (case handler f s of (s', Some e) \<Rightarrow> (s', Some e) | (s', None) \<Rightarrow> forward handler fs fin s')"

definition Aggregator_StreamSession ::
  "cluster \<Rightarrow> string \<Rightarrow> string \<Rightarrow> bool \<Rightarrow> (session_frame \<Rightarrow> 's \<Rightarrow> 's \<times> goerr option) \<Rightarrow> aggregator \<Rightarrow> 's \<Rightarrow> 's \<times> goerr option" where
  "Aggregator_StreamSession C instanceID sessionID replay handler a s =
     (case ClientFor instanceID a of
        None \<Rightarrow> (s, Some (Errorf ''unknown admin instance %q'' [instanceID]))
      | Some addr \<Rightarrow>
          (case cl_StreamSession C addr sessionID replay of
             Inl e \<Rightarrow> (s, Some e)
           | Inr (fs, fin) \<Rightarrow> forward handler fs fin s))"

definition Aggregator_Close :: "aggregator \<Rightarrow> aggregator" where
  "Aggregator_Close a = \<lparr>clients = [], infos = []\<rparr>"

section \<open>What a refresh finds\<close>

definition reports :: "cluster \<Rightarrow> string \<Rightarrow> string \<Rightarrow> bool" where
  "reports C iid addr = (case cl_ServerInfo C addr of Inl _ \<Rightarrow> False | Inr i \<Rightarrow> si_Id i = iid)"

definition reporters :: "cluster \<Rightarrow> string \<Rightarrow> string list \<Rightarrow> string list" where
  "reporters C iid addrs = filter (reports C iid) addrs"

lemma reporters_snoc: "reporters C iid (done @ [addr]) = (if reports C iid addr then reporters C iid done @ [addr] else reporters C iid done)"
  by (simp add: reporters_def)

definition found_once :: "cluster \<Rightarrow> string list \<Rightarrow> queried \<Rightarrow> bool" where
  "found_once C done q \<longleftrightarrow>
     (\<forall>iid c. map_of (infoMap q) iid = Some c \<longleftrightarrow> reporters C iid done = [ca_Addr c] \<and> cl_ServerInfo C (ca_Addr c) = Inr (ca_Info c))"

definition found_often :: "cluster \<Rightarrow> string list \<Rightarrow> queried \<Rightarrow> bool" where
  "found_often C done q \<longleftrightarrow>
     (\<forall>iid. map_of (dupes q) iid = None \<longrightarrow> length (reporters C iid done) \<le> 1) \<and>
     (\<forall>iid as. map_of (dupes q) iid = Some as \<longrightarrow> length (reporters C iid done) \<ge> 2 \<and> set as = set (reporters C iid done))"

lemma found_once_None:
  assumes "found_once C done q" "map_of (infoMap q) iid = None"
  shows "length (reporters C iid done) \<noteq> 1"
proof
  assume "length (reporters C iid done) = 1"
  then obtain a where a: "reporters C iid done = [a]"
    by (metis One_nat_def length_0_conv length_Suc_conv)
  then have "reports C iid a"
    unfolding reporters_def by (metis filter_eq_Cons_iff)
  then obtain i where "cl_ServerInfo C a = Inr i"
    by (auto simp: reports_def split: sum.splits)
  then have "map_of (infoMap q) iid = Some \<lparr>ca_Addr = a, ca_Info = i\<rparr>"
    using assms(1) a by (simp add: found_once_def)
  then show False
    using assms(2) by simp
qed

lemma report_error:
  assumes "cl_ServerInfo C addr = Inl e"
  shows "found_once C (done @ [addr]) (report C addr q) = found_once C done q"
    "found_often C (done @ [addr]) (report C addr q) = found_often C done q"
proof -
  have "reporters C iid (done @ [addr]) = reporters C iid done" for iid
    using assms by (simp add: reporters_snoc reports_def)
  then show "found_once C (done @ [addr]) (report C addr q) = found_once C done q"
    "found_often C (done @ [addr]) (report C addr q) = found_often C done q"
    using assms by (simp_all add: found_once_def found_often_def report_def)
qed

lemma report_info:
  assumes i: "cl_ServerInfo C addr = Inr i" and once: "found_once C done q" and often: "found_often C done q"
  shows "found_once C (done @ [addr]) (report C addr q) \<and> found_often C (done @ [addr]) (report C addr q)"
proof -
  let ?n = "si_Id i"
  have rep: "reporters C iid (done @ [addr]) = (if iid = ?n then reporters C ?n done @ [addr] else reporters C iid done)" for iid
    using i by (auto simp: reporters_snoc reports_def)
  have one: "map_of (infoMap q) iid = Some c \<longleftrightarrow> reporters C iid done = [ca_Addr c] \<and> cl_ServerInfo C (ca_Addr c) = Inr (ca_Info c)" for iid c
    using once by (simp add: found_once_def)
  have many: "map_of (dupes q) iid = None \<Longrightarrow> length (reporters C iid done) \<le> 1"
    "map_of (dupes q) iid = Some as \<Longrightarrow> length (reporters C iid done) \<ge> 2 \<and> set as = set (reporters C iid done)" for iid as
    using often by (simp_all add: found_often_def)
  show ?thesis
  proof (cases "map_of (infoMap q) ?n")
    case (Some c)
    then have r: "reporters C ?n done = [ca_Addr c]"
      using one by simp
    then have d: "map_of (dupes q) ?n = None"
      using many(2) [of ?n] by (cases "map_of (dupes q) ?n") auto
    have "report C addr q = q\<lparr>dupes := put (dupes q) ?n [ca_Addr c, addr], infoMap := del (infoMap q) ?n\<rparr>"
      using Some d i by (simp add: report_def)
    then show ?thesis
      unfolding found_once_def found_often_def using r one many by (auto simp: rep)
  next
    case n: None
    then have no1: "length (reporters C ?n done) \<noteq> 1"
      using found_once_None [OF once] by blast
    show ?thesis
    proof (cases "map_of (dupes q) ?n")
      case None
      then have "reporters C ?n done = []"
        using many(1) [of ?n] no1 by (cases "reporters C ?n done") auto
      moreover have "report C addr q = q\<lparr>infoMap := put (infoMap q) ?n \<lparr>ca_Addr = addr, ca_Info = i\<rparr>\<rparr>"
        using n None i by (simp add: report_def)
      ultimately show ?thesis
        unfolding found_once_def found_often_def using one many i None by (auto simp: rep)
    next
      case (Some as)
      then have two: "length (reporters C ?n done) \<ge> 2" "set as = set (reporters C ?n done)"
        using many(2) [of ?n] by simp_all
      have "report C addr q = q\<lparr>dupes := put (dupes q) ?n (as @ [addr])\<rparr>"
        using n Some i by (simp add: report_def)
      moreover have "reporters C ?n done \<noteq> []"
        using two(1) by auto
      ultimately show ?thesis
        unfolding found_once_def found_often_def using n one many two by (auto simp: rep)
    qed
  qed
qed

lemma report_found:
  assumes "found_once C done q" "found_often C done q"
  shows "found_once C (done @ [addr]) (report C addr q) \<and> found_often C (done @ [addr]) (report C addr q)"
  using assms by (cases "cl_ServerInfo C addr") (simp_all add: report_error report_info)

lemma query_found: "found_once C completions (query C completions) \<and> found_often C completions (query C completions)"
proof (induction completions rule: rev_induct)
  case Nil
  then show ?case
    by (simp add: query_def found_once_def found_often_def reporters_def)
next
  case (snoc addr completions)
  then show ?case
    using report_found by (simp add: query_def)
qed

lemma report_gomap: "gomap (infoMap q) \<Longrightarrow> gomap (dupes q) \<Longrightarrow> gomap (infoMap (report C addr q)) \<and> gomap (dupes (report C addr q))"
  by (auto simp: report_def split: sum.splits option.splits)

lemma query_gomap: "gomap (infoMap (query C completions)) \<and> gomap (dupes (query C completions))"
  by (induction completions rule: rev_induct) (simp_all add: query_def report_gomap)

definition asked :: "cluster \<Rightarrow> string list \<Rightarrow> aggregator \<Rightarrow> string list" where
  "asked C addrs a = filter (\<lambda>x. x \<in> set (clients a) \<or> cl_dial C x = None) addrs"

lemma dial_loop_result:
  assumes "dial_loop C addrs cs = (cs', q, es)"
  shows "q = filter (\<lambda>x. x \<in> set cs \<or> cl_dial C x = None) addrs \<and> set cs' = set cs \<union> set q"
  using assms
proof (induction C addrs cs arbitrary: cs' q es rule: dial_loop.induct)
  case (2 C addr addrs cs)
  show ?case
  proof (cases "addr \<in> set cs")
    case True
    then obtain q1 where "dial_loop C addrs cs = (cs', q1, es)" "q = addr # q1"
      using "2.prems" by (auto split: prod.splits)
    then show ?thesis
      using "2.IH"(1) [OF True] True by auto
  next
    case new: False
    show ?thesis
    proof (cases "cl_dial C addr")
      case None
      then obtain q1 where l: "dial_loop C addrs (cs @ [addr]) = (cs', q1, es)" "q = addr # q1"
        using "2.prems" new by (auto split: prod.splits)
      have "filter (\<lambda>x. x \<in> set (cs @ [addr]) \<or> cl_dial C x = None) addrs = filter (\<lambda>x. x \<in> set cs \<or> cl_dial C x = None) addrs"
        by (rule filter_cong) (auto simp: None)
      then show ?thesis
        using "2.IH"(2) [OF new None l(1)] l(2) None by auto
    next
      case (Some e)
      then obtain es1 where "dial_loop C addrs cs = (cs', q, es1)"
        using "2.prems" new by (auto split: prod.splits)
      then show ?thesis
        using "2.IH"(3) [OF new Some] new Some by auto
    qed
  qed
qed simp

lemma refresh_open_result:
  assumes "refresh_open C addrs a = (a1, toQuery, errs)"
  shows "toQuery = asked C addrs a" "set toQuery \<subseteq> set (clients a1)"
proof -
  let ?cs = "filter (\<lambda>addr. addr \<in> set addrs) (clients a)"
  obtain cs where l: "dial_loop C addrs ?cs = (cs, toQuery, errs)" "clients a1 = cs"
    using assms by (auto simp: refresh_open_def Let_def split: prod.splits)
  have "filter (\<lambda>x. x \<in> set ?cs \<or> cl_dial C x = None) addrs = asked C addrs a"
    unfolding asked_def by (rule filter_cong) auto
  then show "toQuery = asked C addrs a" "set toQuery \<subseteq> set (clients a1)"
    using dial_loop_result [OF l(1)] l(2) by auto
qed

lemma uniq_set: "set (uniq seen as) = set as - set seen \<and> distinct (uniq seen as)"
  by (induction seen as rule: uniq.induct) auto

lemma reporters_perm:
  assumes "mset xs = mset ys"
  shows "length (reporters C iid xs) = length (reporters C iid ys)" "set (reporters C iid xs) = set (reporters C iid ys)"
    "reporters C iid xs = [x] \<longleftrightarrow> reporters C iid ys = [x]"
proof -
  have m: "mset (reporters C iid xs) = mset (reporters C iid ys)"
    using assms by (simp add: reporters_def)
  show "length (reporters C iid xs) = length (reporters C iid ys)" "set (reporters C iid xs) = set (reporters C iid ys)"
    using m by (metis size_mset, metis set_mset_mset)
  show "reporters C iid xs = [x] \<longleftrightarrow> reporters C iid ys = [x]"
    using m by (metis mset_single_iff_right)
qed

lemma reporters_single: "reporters C iid xs = [x] \<Longrightarrow> x \<in> set xs"
  by (auto simp: reporters_def filter_eq_Cons_iff)

lemma found_often_None: "found_often C done q \<Longrightarrow> map_of (dupes q) iid = None \<Longrightarrow> \<not> 2 \<le> length (reporters C iid done)"
  by (auto simp: found_often_def dest: spec [of _ iid])

lemma refresh_ClientFor:
  assumes "\<forall>qs. mset (sched qs) = mset qs" and "Refresh C sched (Inr addrs) a = (a', found, errs)"
  shows "ClientFor iid a' = Some addr \<longleftrightarrow> reporters C iid (asked C addrs a) = [addr]"
proof -
  obtain a1 toQuery errs1 where o: "refresh_open C addrs a = (a1, toQuery, errs1)"
    by (cases "refresh_open C addrs a")
  define q where "q = query C (sched toQuery)"
  have a': "a' = refresh_commit q a1"
    using assms(2) o by (auto simp: Refresh_def q_def Let_def)
  note perm = reporters_perm [OF assms(1) [rule_format, of toQuery], of C iid]
  have q: "found_once C (sched toQuery) q"
    using query_found by (simp add: q_def)
  have "ClientFor iid a' = Some addr \<longleftrightarrow> reporters C iid toQuery = [addr]"
  proof (cases "map_of (infoMap q) iid")
    case None
    then have "reporters C iid toQuery \<noteq> [addr]"
      using found_once_None [OF q None] perm(1) by auto
    then show ?thesis
      using None by (simp add: a' ClientFor_def refresh_commit_def)
  next
    case (Some c)
    then have r: "reporters C iid toQuery = [ca_Addr c]"
      using q perm(3) by (simp add: found_once_def)
    then have "ca_Addr c \<in> set (clients a1)"
      using refresh_open_result(2) [OF o] reporters_single by blast
    then show ?thesis
      using Some r by (simp add: a' ClientFor_def refresh_commit_def)
  qed
  then show ?thesis
    unfolding refresh_open_result(1) [OF o] .
qed

text \<open>
  C23: a refresh knows an instance by its identifier exactly if one endpoint, and only one, reported that identifier.  In whatever order the
  replies arrive, after a refresh an identifier stands for the address of the only reachable endpoint that reports it, and its client is open;
  an identifier that several endpoints report stands for nothing, and the error for it names all of these endpoints.
\<close>

theorem instances_unambiguous:
  assumes "\<forall>qs. mset (sched qs) = mset qs" and "Refresh C sched (Inr addrs) a = (a', found, errs)"
  shows "(\<forall>iid addr. ClientFor iid a' = Some addr \<longleftrightarrow> reporters C iid (asked C addrs a) = [addr])
    \<and> (\<forall>iid c. map_of (Instances a') iid = Some c \<longrightarrow> ClientFor iid a' = Some (ca_Addr c) \<and> cl_ServerInfo C (ca_Addr c) = Inr (ca_Info c))
    \<and> (\<forall>iid. 2 \<le> length (reporters C iid (asked C addrs a)) \<longrightarrow>
          (\<exists>as. distinct as \<and> set as = set (reporters C iid (asked C addrs a)) \<and> duplicate iid as \<in> set errs))"
proof -
  obtain a1 toQuery errs1 where o: "refresh_open C addrs a = (a1, toQuery, errs1)"
    by (cases "refresh_open C addrs a")
  define q where "q = query C (sched toQuery)"
  have a': "a' = refresh_commit q a1" and errs: "errs = errs1 @ infoErrors q @ map (\<lambda>(iid, as). duplicate iid (uniq [] as)) (dupes q)"
    using assms(2) o by (auto simp: Refresh_def q_def Let_def)
  note perm = reporters_perm [OF assms(1) [rule_format, of toQuery]]
  have q: "found_once C (sched toQuery) q" "found_often C (sched toQuery) q"
    using query_found by (simp_all add: q_def)
  have once: "map_of (infoMap q) iid = Some c \<longleftrightarrow> reporters C iid toQuery = [ca_Addr c] \<and> cl_ServerInfo C (ca_Addr c) = Inr (ca_Info c)" for iid c
    using q(1) perm(3) by (simp add: found_once_def)
  have cl: "ClientFor iid a' = Some addr \<longleftrightarrow> reporters C iid toQuery = [addr]" for iid addr
    unfolding refresh_open_result(1) [OF o] by (rule refresh_ClientFor [OF assms])
  have dup: "\<exists>as. distinct as \<and> set as = set (reporters C iid toQuery) \<and> duplicate iid as \<in> set errs"
    if two: "2 \<le> length (reporters C iid toQuery)" for iid
  proof (cases "map_of (dupes q) iid")
    case None
    then show ?thesis
      using found_often_None [OF q(2) None] two perm(1) [of C iid] by simp
  next
    case (Some as)
    then have "set (uniq [] as) = set (reporters C iid toQuery)"
      using q(2) perm(2) [of C iid] uniq_set [of "[]" as] by (simp add: found_often_def)
    moreover have "duplicate iid (uniq [] as) \<in> (\<lambda>(iid, as). duplicate iid (uniq [] as)) ` set (dupes q)"
      using map_of_SomeD [OF Some] by (rule rev_image_eqI) simp
    then have "duplicate iid (uniq [] as) \<in> set errs"
      by (simp add: errs)
    ultimately show ?thesis
      using uniq_set [of "[]" as] by blast
  qed
  have "map_of (Instances a') iid = Some c \<longrightarrow> ClientFor iid a' = Some (ca_Addr c) \<and> cl_ServerInfo C (ca_Addr c) = Inr (ca_Info c)" for iid c
    using once [of iid c] cl [of iid "ca_Addr c"] by (simp add: a' Instances_def refresh_commit_def)
  then show ?thesis
    using cl dup unfolding refresh_open_result(1) [OF o] by blast
qed

definition demo_cluster :: cluster where
  "demo_cluster =
     \<lparr>cl_dial = \<lambda>_. None,
      cl_ServerInfo = \<lambda>addr. Inr \<lparr>si_Id = (if addr = ''h:1'' then ''one'' else ''two''), si_Version = '''', si_SshAddr = '''', si_StartedAt = 0\<rparr>,
      cl_ListSessions = \<lambda>_. Inr [], cl_KillSession = \<lambda>_ _. Inr True, cl_StreamSession = \<lambda>_ _ _. Inr ([], None)\<rparr>"

theorem instances_unambiguous_witness:
  "ClientFor ''one'' (fst (Refresh demo_cluster rev (Inr [''h:1'', ''h:2'', ''h:3'']) NewAggregator)) = Some ''h:1''
   \<and> ClientFor ''two'' (fst (Refresh demo_cluster rev (Inr [''h:1'', ''h:2'', ''h:3'']) NewAggregator)) \<noteq> Some ''h:2''"
proof -
  let ?r = "Refresh demo_cluster rev (Inr [''h:1'', ''h:2'', ''h:3'']) NewAggregator"
  have "\<forall>qs :: string list. mset (rev qs) = mset qs" and "?r = (fst ?r, fst (snd ?r), snd (snd ?r))"
    by simp_all
  from instances_unambiguous [OF this] show ?thesis
    by (simp add: reporters_def reports_def asked_def demo_cluster_def NewAggregator_def)
qed

section \<open>Clients of the known instances\<close>

definition clients_open :: "aggregator \<Rightarrow> bool" where
  "clients_open a \<longleftrightarrow> list_all (\<lambda>(iid, c). ca_Addr c \<in> set (clients a)) (infos a)"

lemma clients_open_close: "clients_open (Aggregator_Close a)" and clients_open_new: "clients_open NewAggregator"
  by (simp_all add: clients_open_def Aggregator_Close_def NewAggregator_def)

lemma refresh_clients_open:
  assumes "\<forall>qs. mset (sched qs) = mset qs" "Refresh C sched (Inr addrs) a = (a', found, errs)"
  shows "clients_open a'"
proof -
  obtain a1 toQuery errs1 where o: "refresh_open C addrs a = (a1, toQuery, errs1)"
    by (cases "refresh_open C addrs a")
  then have a': "a' = refresh_commit (query C (sched toQuery)) a1"
    using assms(2) by (auto simp: Refresh_def Let_def)
  have "ca_Addr c \<in> set (clients a1)" if "(iid, c) \<in> set (infoMap (query C (sched toQuery)))" for iid c
  proof -
    have "map_of (infoMap (query C (sched toQuery))) iid = Some c"
      using that gomap_mem [OF query_gomap [THEN conjunct1]] by simp
    then have "reporters C iid (sched toQuery) = [ca_Addr c]"
      using query_found by (simp add: found_once_def)
    then have "ca_Addr c \<in> set (sched toQuery)"
      by (rule reporters_single)
    then have "ca_Addr c \<in> set toQuery"
      using mset_eq_setD [OF assms(1) [rule_format, of toQuery]] by simp
    then show ?thesis
      using refresh_open_result(2) [OF o] by blast
  qed
  then show ?thesis
    by (auto simp: clients_open_def a' refresh_commit_def list_all_iff)
qed

text \<open>
  As long as no refresh is under way, listing the sessions does not panic, and every session it returns is one the daemon of the
  named instance reported.
\<close>

lemma list_jobs_sessions:
  "s \<in> set (fst (list_jobs C js)) \<longleftrightarrow>
     (\<exists>iid c ss. (iid, c) \<in> set js \<and> cl_ListSessions C (ca_Addr c) = Inr ss \<and> as_InstanceID s = iid \<and> as_InstanceAddr s = ca_Addr c
        \<and> as_Session s \<in> set ss)"
proof (induction C js rule: list_jobs.induct)
  case (2 C iid c js)
  have "s \<in> (\<lambda>x. \<lparr>as_InstanceID = iid, as_InstanceAddr = ca_Addr c, as_Session = x\<rparr>) ` set ss
      \<longleftrightarrow> as_InstanceID s = iid \<and> as_InstanceAddr s = ca_Addr c \<and> as_Session s \<in> set ss" for ss
    by (cases s) auto
  then show ?case
    using 2 by (auto simp: split_beta Let_def split: sum.splits)
qed simp

lemma list_sessions_of_instances:
  assumes "clients_open a" "set (sched (infos a)) = set (infos a)" "gomap (infos a)"
  obtains out errs where "ListAllSessions C sched a = Some (out, errs)"
    "\<And>s. s \<in> set out \<longleftrightarrow> (\<exists>ss. ClientFor (as_InstanceID s) a = Some (as_InstanceAddr s) \<and> cl_ListSessions C (as_InstanceAddr s) = Inr ss
        \<and> as_Session s \<in> set ss)"
proof (rule that)
  show "ListAllSessions C sched a = Some (fst (list_jobs C (sched (infos a))), snd (list_jobs C (sched (infos a))))"
    using assms(1) by (simp add: ListAllSessions_def clients_open_def)
  show "s \<in> set (fst (list_jobs C (sched (infos a)))) \<longleftrightarrow>
      (\<exists>ss. ClientFor (as_InstanceID s) a = Some (as_InstanceAddr s) \<and> cl_ListSessions C (as_InstanceAddr s) = Inr ss \<and> as_Session s \<in> set ss)" for s
  proof -
    have "ClientFor iid a = Some x \<longleftrightarrow> (\<exists>c. (iid, c) \<in> set (infos a) \<and> ca_Addr c = x)" for iid x
    proof (cases "map_of (infos a) iid")
      case None
      then show ?thesis
        using gomap_mem [OF assms(3), of iid] by (simp add: ClientFor_def)
    next
      case (Some c)
      then have "ca_Addr c \<in> set (clients a)"
        using assms(1) map_of_SomeD [OF Some] by (auto simp: clients_open_def list_all_iff)
      then show ?thesis
        using Some gomap_mem [OF assms(3), of iid] by (simp add: ClientFor_def)
    qed
    then show ?thesis
      unfolding list_jobs_sessions assms(2) by metis
  qed
qed

text \<open>
  While a refresh is under way this fails: its first section closes the clients of vanished endpoints but removes their instances under
  the wrong key (the address instead of the identifier), so until its second section a known instance has no client, and listing panics.
\<close>

lemma list_panics_during_refresh:
  assumes "(iid, c) \<in> set (infos a)" "ca_Addr c \<notin> set addrs" "iid \<notin> set (clients a)"
  shows "ListAllSessions C sched (fst (refresh_open C addrs a)) = None"
proof -
  let ?cs = "filter (\<lambda>addr. addr \<in> set addrs) (clients a)"
  have "(iid, c) \<in> set (fold (\<lambda>addr m. del m addr) gone m)" if "(iid, c) \<in> set m" "iid \<notin> set gone" for gone m
    using that by (induction gone arbitrary: m) (auto simp: set_del)
  then have "(iid, c) \<in> set (infos (fst (refresh_open C addrs a)))"
    using assms(1,3) by (auto simp: refresh_open_def Let_def split: prod.splits)
  moreover obtain cs q es where l: "dial_loop C addrs ?cs = (cs, q, es)"
    by (cases "dial_loop C addrs ?cs")
  then have "set cs \<subseteq> set addrs"
    using dial_loop_result [OF l] by auto
  then have "ca_Addr c \<notin> set (clients (fst (refresh_open C addrs a)))"
    using l assms(2) by (auto simp: refresh_open_def Let_def)
  ultimately show ?thesis
    by (force simp: ListAllSessions_def list_all_iff)
qed

text \<open>An endpoint that is configured twice reports its own identifier twice, and is dropped as a duplicate of itself.\<close>

lemma repeated_endpoint_dropped:
  assumes "cl_dial C x = None" "\<forall>qs. mset (sched qs) = mset qs"
  shows "ClientFor iid (fst (Refresh C sched (Inr [x, x]) NewAggregator)) = None"
proof -
  have o: "refresh_open C [x, x] NewAggregator = (\<lparr>clients = [x], infos = []\<rparr>, [x, x], [])"
    using assms(1) by (simp add: refresh_open_def NewAggregator_def)
  have "sched [x, x] = [x, x]"
    using replicate_eqI [of "sched [x, x]" 2 x] mset_eq_length [OF assms(2) [rule_format]] mset_eq_setD [OF assms(2) [rule_format]]
    by (auto simp: numeral_2_eq_2)
  then show ?thesis
    using o by (cases "cl_ServerInfo C x") (simp_all add: Refresh_def query_def report_def refresh_commit_def ClientFor_def Let_def)
qed

end
