(* ===== verification/Admin_Tools.thy ===== *)
theory Admin_Tools
  imports Aggregator Main_Config
begin

text \<open>
  The operators' tools over the admin client library: the commands of \<^verbatim>\<open>cmd/sshpiperd-admin/main.go\<close>, the HTTP handlers of
  \<^verbatim>\<open>cmd/sshpiperd-webadmin/internal/httpapi/httpapi.go\<close>, and the TLS options of both (\<^verbatim>\<open>Dial\<close> in \<^verbatim>\<open>libadmin/client.go\<close>).

  The options of the command line are arguments.  Output is a list of records; \<open>werr\<close> is the error of writing a record, if any.  Times are
  nanoseconds.
\<close>

section \<open>Connecting\<close>

record DialOptions =
  do_Insecure :: bool
  do_CertFile :: string
  do_KeyFile :: string
  do_CAFile :: string
  do_ServerName :: string

record client_tls =
  ct_certificate :: "string option"
  ct_rootCAs :: "bytes option"
  ct_ServerName :: string

text \<open>The transport of a client: \<open>None\<close> is plaintext.\<close>

definition Dial_credentials :: "tls_env \<Rightarrow> DialOptions \<Rightarrow> client_tls option res" where
  "Dial_credentials T opts =
     (if do_Insecure opts then Inr None
      else if (do_CertFile opts = '''') \<noteq> (do_KeyFile opts = '''') then
        Inl (Errorf ''admin client TLS: CertFile and KeyFile must be supplied together'' [])
      else
        bind_res
          (if do_CertFile opts \<noteq> '''' then
             (case LoadKeyPair T (do_CertFile opts) (do_KeyFile opts) of
                Inl e \<Rightarrow> Inl (Wrapf ''load admin client cert: %w'' [] e)
              | Inr c \<Rightarrow> Inr (Some c))
           else Inr None) (\<lambda>cert.
        bind_res
          (if do_CAFile opts \<noteq> '''' then
             (case ReadCA T (do_CAFile opts) of
                Inl e \<Rightarrow> Inl (Wrapf ''read admin CA: %w'' [] e)
              | Inr ca \<Rightarrow> if ValidCA T ca then Inr (Some ca) else Inl (Errorf ''invalid admin CA in %s'' [do_CAFile opts]))
           else Inr None) (\<lambda>ca.
        Inr (Some \<lparr>ct_certificate = cert, ct_rootCAs = ca, ct_ServerName = do_ServerName opts\<rparr>))))"


type_synonym ('i) completion = "'i list \<Rightarrow> 'i list"


section \<open>Killing a session from the command line\<close>



section \<open>Streaming a session from the command line\<close>

datatype cast_line =
    CastHeader int int int strmap
  | CastEvent int string bytes

record cast_state =
  lockedChannel :: "u32 option"
  headerEmitted :: bool
  start :: "int option"
  cast_out :: "cast_line list"



definition write_line :: "(cast_line \<Rightarrow> goerr option) \<Rightarrow> cast_line \<Rightarrow> cast_state \<Rightarrow> cast_state \<times> goerr option" where
  "write_line werr l s = (case werr l of Some e \<Rightarrow> (s, Some e) | None \<Rightarrow> (s\<lparr>cast_out := cast_out s @ [l]\<rparr>, None))"


text \<open>The handler of the format \<^verbatim>\<open>raw\<close>.\<close>

definition raw_handler :: "(bytes \<Rightarrow> goerr option) \<Rightarrow> session_frame \<Rightarrow> bytes \<Rightarrow> bytes \<times> goerr option" where
  "raw_handler werr frame out =
     (case frame of
        Event kind data ch \<Rightarrow>
          (if kind \<noteq> ''o'' then (out, None)
           else case werr data of Some e \<Rightarrow> (out, Some e) | None \<Rightarrow> (out @ data, None))
      | _ \<Rightarrow> (out, None))"

section \<open>The HTTP interface\<close>

text \<open>\<^verbatim>\<open>url.PathUnescape\<close>: \<open>None\<close> is an invalid escape.\<close>

definition hex_val :: "char \<Rightarrow> nat option" where
  "hex_val c =
     (let n = of_char c :: nat
      in if 48 \<le> n \<and> n \<le> 57 then Some (n - 48)
         else if 97 \<le> n \<and> n \<le> 102 then Some (n - 87)
         else if 65 \<le> n \<and> n \<le> 70 then Some (n - 55)
         else None)"

fun PathUnescape :: "string \<Rightarrow> string option" where
  "PathUnescape [] = Some []"
| "PathUnescape (c # s) =
     (if c = CHR ''%'' then
        (case s of
           h # l # r \<Rightarrow>
             (case (hex_val h, hex_val l) of
                (Some a, Some b) \<Rightarrow> map_option (\<lambda>t. char_of (16 * a + b) # t) (PathUnescape r)
              | _ \<Rightarrow> None)
         | _ \<Rightarrow> None)
      else map_option (\<lambda>t. c # t) (PathUnescape s))"

abbreviation sessions_prefix :: string where
  "sessions_prefix \<equiv> ''/api/v1/sessions/''"

definition parseSessionPath :: "string \<Rightarrow> (string \<times> string \<times> string) option" where
  "parseSessionPath escapedPath =
     (if \<not> has_prefix escapedPath sessions_prefix then None
      else
        let parts = split_on (CHR ''/'') (trim_prefix escapedPath sessions_prefix)
        in if length parts < 2 \<or> length parts > 3 \<or> parts ! 0 = '''' \<or> parts ! 1 = '''' then None
           else case PathUnescape (parts ! 0) of
                  None \<Rightarrow> None
                | Some inst \<Rightarrow>
                    (case PathUnescape (parts ! 1) of
                       None \<Rightarrow> None
                     | Some sid \<Rightarrow>
                         if length parts \<ge> 3 then
                           (if parts ! 2 = '''' then None
                            else map_option (\<lambda>act. (inst, sid, act)) (PathUnescape (parts ! 2)))
                         else Some (inst, sid, '''')))"

datatype sse_event =
    SseHeader session_frame
  | SseData string string u32
  | SseError goerr

datatype response =
    JsonError nat string
  | JsonKilled bool
  | JsonInstances "(string \<times> ServerInfoCache) list"
  | JsonSessions "AggregatedSession list" "agg_error list"
  | Sse "sse_event list"

record http_options =
  AllowKill :: bool
  CanFlush :: bool

definition http_instances :: "string \<Rightarrow> aggregator \<Rightarrow> response" where
  "http_instances meth agg = (if meth \<noteq> ''GET'' then JsonError 405 ''method not allowed'' else JsonInstances (Instances agg))"

definition http_sessions :: "cluster \<Rightarrow> (string \<times> ServerInfoCache) completion \<Rightarrow> string \<Rightarrow> aggregator \<Rightarrow> response option" where
  "http_sessions C sched meth agg =
     (if meth \<noteq> ''GET'' then Some (JsonError 405 ''method not allowed'')
      else map_option (\<lambda>(ss, errs). JsonSessions ss errs) (ListAllSessions C sched agg))"

text \<open>\<open>err_text\<close> is \<^verbatim>\<open>err.Error()\<close>.\<close>

definition http_killSession :: "(goerr \<Rightarrow> string) \<Rightarrow> cluster \<Rightarrow> http_options \<Rightarrow> string \<Rightarrow> string \<Rightarrow> aggregator \<Rightarrow> response \<times> string option" where
  "http_killSession err_text C opts inst sid agg =
     (if \<not> AllowKill opts then (JsonError 403 ''kill is disabled on this server (--allow-kill=false)'', None)
      else case Aggregator_KillSession C inst sid agg of
             (Inl e, a) \<Rightarrow> (JsonError 502 (err_text e), a)
           | (Inr killed, a) \<Rightarrow> (JsonKilled killed, a))"

text \<open>\<open>base64\<close> is \<^verbatim>\<open>StdEncoding.EncodeToString\<close>; \<open>gone\<close> is whether the client has gone when the stream ends.\<close>

definition sse_handler ::
  "(bytes \<Rightarrow> string) \<Rightarrow> (sse_event \<Rightarrow> goerr option) \<Rightarrow> session_frame \<Rightarrow> sse_event list \<Rightarrow> sse_event list \<times> goerr option" where
  "sse_handler base64 werr frame out =
     (let ev = (case frame of Header w h t env ch \<Rightarrow> SseHeader frame | Event kind data ch \<Rightarrow> SseData kind (base64 data) ch)
      in case werr ev of Some e \<Rightarrow> (out, Some e) | None \<Rightarrow> (out @ [ev], None))"

definition http_streamSession ::
  "(bytes \<Rightarrow> string) \<Rightarrow> (sse_event \<Rightarrow> goerr option) \<Rightarrow> bool \<Rightarrow> cluster \<Rightarrow> http_options \<Rightarrow> string \<Rightarrow> string \<Rightarrow> aggregator \<Rightarrow> response" where
  "http_streamSession base64 werr gone C opts inst sid agg =
     (if \<not> CanFlush opts then JsonError 500 ''streaming unsupported''
      else case Aggregator_StreamSession C inst sid True (sse_handler base64 werr) agg [] of
             (out, None) \<Rightarrow> Sse out
           | (out, Some e) \<Rightarrow> if gone \<or> werr (SseError e) \<noteq> None then Sse out else Sse (out @ [SseError e]))"

record http_env =
  he_err_text :: "goerr \<Rightarrow> string"
  he_base64 :: "bytes \<Rightarrow> string"
  he_werr :: "sse_event \<Rightarrow> goerr option"
  he_gone :: bool

definition sessionByID :: "http_env \<Rightarrow> cluster \<Rightarrow> http_options \<Rightarrow> string \<Rightarrow> string \<Rightarrow> aggregator \<Rightarrow> response \<times> string option" where
  "sessionByID H C opts meth path agg =
     (case parseSessionPath path of
        None \<Rightarrow> (JsonError 404 ''not found'', None)
      | Some (inst, sid, action) \<Rightarrow>
          if action = '''' then
            (if meth = ''DELETE'' then http_killSession (he_err_text H) C opts inst sid agg
             else (JsonError 405 ''method not allowed'', None))
          else if action = ''stream'' then
            (if meth \<noteq> ''GET'' then (JsonError 405 ''method not allowed'', None)
             else (http_streamSession (he_base64 H) (he_werr H) (he_gone H) C opts inst sid agg, None))
          else (JsonError 404 ''not found'', None))"

text \<open>
  Static files: \<open>fopen\<close> is the \<^verbatim>\<open>Open\<close> of the wrapped file system, with the result of \<^verbatim>\<open>Stat\<close> on the file: whether it is a directory.
\<close>

definition trim_slash :: "string \<Rightarrow> string" where
  "trim_slash name = (if name \<noteq> [] \<and> last name = CHR ''/'' then butlast name else name)"

definition noListing_Open :: "(string \<Rightarrow> ('f \<times> bool res) res) \<Rightarrow> string \<Rightarrow> 'f res" where
  "noListing_Open fopen name =
     bind_res (fopen name) (\<lambda>(f, st).
     bind_res st (\<lambda>isDir.
       if isDir then
         (case fopen (trim_slash name @ ''/index.html'') of
            Inl _ \<Rightarrow> Inl (Ext ''file does not exist'')
          | Inr _ \<Rightarrow> Inr f)
       else Inr f))"

fun validateStaticDir :: "(string \<Rightarrow> goerr option) \<Rightarrow> string \<Rightarrow> string list \<Rightarrow> goerr option" where
  "validateStaticDir stat dir [] = None"
| "validateStaticDir stat dir (name # names) =
     (case stat name of
        Some e \<Rightarrow> Some (Wrapf ''static path %q is missing %q (expected a built web/ directory): %w'' [dir, name] e)
      | None \<Rightarrow> validateStaticDir stat dir names)"

section \<open>Kills reach the daemon they name\<close>










section \<open>Recordings\<close>






definition locked :: "u32 \<Rightarrow> int \<Rightarrow> cast_state \<Rightarrow> bool" where
  "locked ch t0 s \<longleftrightarrow> lockedChannel s = Some ch \<and> headerEmitted s \<and> start s = Some t0"



lemma locked_write: "locked ch t0 s \<Longrightarrow> write_line werr l s = (s', r) \<Longrightarrow> locked ch t0 s'"
  by (auto simp: write_line_def locked_def split: option.splits)




section \<open>Paths of the HTTP interface\<close>

text \<open>
  How the browser writes an identifier into a path (\<^verbatim>\<open>encodeURIComponent\<close>): the bytes in \<open>keep\<close> stand for themselves, the others are escaped.
\<close>

definition hex_digit :: "nat \<Rightarrow> char" where
  "hex_digit n = char_of (if n < 10 then 48 + n else 55 + n)"

definition escape_byte :: "(char \<Rightarrow> bool) \<Rightarrow> char \<Rightarrow> string" where
  "escape_byte keep c =
     (if keep c then [c] else [CHR ''%'', hex_digit (of_char c div 16), hex_digit (of_char c mod 16)])"

definition PathEscape :: "(char \<Rightarrow> bool) \<Rightarrow> string \<Rightarrow> string" where
  "PathEscape keep s = concat (map (escape_byte keep) s)"

lemma hex_val_digit: "n < 16 \<Longrightarrow> hex_val (hex_digit n) = Some n"
  by (cases "n < 10") (auto simp: hex_val_def hex_digit_def Let_def)

lemma hex_digit_not_slash: "n < 16 \<Longrightarrow> hex_digit n \<noteq> CHR ''/''"
proof -
  assume "n < 16"
  then have "hex_val (hex_digit n) = Some n"
    by (rule hex_val_digit)
  moreover have "hex_val (CHR ''/'') = None"
    by (simp add: hex_val_def)
  ultimately show ?thesis
    by auto
qed

lemma of_char_div_16: "(of_char c :: nat) div 16 < 16"
  using nat_of_char_less_256 [of c] by linarith

lemma unescape_byte:
  assumes "\<not> keep (CHR ''%'')"
  shows "PathUnescape (escape_byte keep c @ s) = map_option (\<lambda>t. c # t) (PathUnescape s)"
proof (cases "keep c")
  case True
  then show ?thesis
    using assms by (auto simp: escape_byte_def)
next
  case False
  have "16 * (of_char c div 16) + of_char c mod 16 = (of_char c :: nat)"
    by simp
  then show ?thesis
    using False hex_val_digit [OF of_char_div_16 [of c]] hex_val_digit [of "of_char c mod 16"]
    by (simp add: escape_byte_def)
qed

lemma unescape_escape: "\<not> keep (CHR ''%'') \<Longrightarrow> PathUnescape (PathEscape keep s) = Some s"
  by (induction s) (simp_all add: PathEscape_def unescape_byte)

lemma escape_no_slash:
  assumes "\<not> keep (CHR ''/'')"
  shows "CHR ''/'' \<notin> set (PathEscape keep s)"
proof -
  have "CHR ''/'' \<notin> set (escape_byte keep c)" for c
    using assms hex_digit_not_slash [OF of_char_div_16 [of c]] hex_digit_not_slash [of "of_char c mod 16"]
    by (auto simp: escape_byte_def)
  then show ?thesis
    by (auto simp: PathEscape_def)
qed

lemma escape_nonempty: "s \<noteq> '''' \<Longrightarrow> PathEscape keep s \<noteq> ''''"
  by (cases s) (simp_all add: PathEscape_def escape_byte_def)

text \<open>
  The path of a session names its instance and its identifier, whatever bytes they have.  If the browser escapes at least the percent sign and the slash,
  the server reads back exactly the two names, also when they contain slashes, and the action, if there is one.
\<close>

theorem session_path_round_trip:
  assumes "\<not> keep (CHR ''%'')" "\<not> keep (CHR ''/'')" "inst \<noteq> ''''" "sid \<noteq> ''''"
  shows "parseSessionPath (sessions_prefix @ PathEscape keep inst @ ''/'' @ PathEscape keep sid) = Some (inst, sid, '''')
    \<and> parseSessionPath (sessions_prefix @ PathEscape keep inst @ ''/'' @ PathEscape keep sid @ ''/stream'') = Some (inst, sid, ''stream'')"
proof -
  let ?e = "PathEscape keep inst" and ?f = "PathEscape keep sid"
  have slash: "CHR ''/'' \<notin> set ?e" "CHR ''/'' \<notin> set ?f"
    using escape_no_slash [of keep, OF assms(2)] by simp_all
  have "split_on (CHR ''/'') (?e @ ''/'' @ ?f) = [?e, ?f]"
    using slash by (simp add: split_on_append_sep split_on_single)
  moreover have "split_on (CHR ''/'') (?e @ ''/'' @ ?f @ ''/stream'') = [?e, ?f, ''stream'']"
    using slash by (simp add: split_on_append_sep split_on_single)
  ultimately show ?thesis
    using unescape_escape [of keep, OF assms(1)] escape_nonempty [OF assms(3)] escape_nonempty [OF assms(4)]
    by (simp add: parseSessionPath_def has_prefix_def trim_prefix_def)
qed

definition plain_char :: "char \<Rightarrow> bool" where
  "plain_char c \<longleftrightarrow> c \<notin> {CHR ''%'', CHR ''/'', CHR '' ''}"

theorem session_path_round_trip_witness:
  "parseSessionPath ''/api/v1/sessions/host%2F:2222/a%20b'' = Some (''host/:2222'', ''a b'', '''')"
proof -
  have k: "\<not> plain_char (CHR ''%'')" "\<not> plain_char (CHR ''/'')" "''host/:2222'' \<noteq> ''''" "''a b'' \<noteq> ''''"
    by (simp_all add: plain_char_def)
  have e: "PathEscape plain_char ''host/:2222'' = ''host%2F:2222''" "PathEscape plain_char ''a b'' = ''a%20b''"
    by code_simp+
  from session_path_round_trip [OF k] show ?thesis
    unfolding e by simp
qed

text \<open>
  A session is killed through the HTTP interface only if that is allowed, by a \<^verbatim>\<open>DELETE\<close> on the path of that session without an action, and the kill goes
  to the daemon whose identifier the path names.  No other request kills anything.
\<close>

theorem web_kill_exact:
  "snd (sessionByID H C opts meth path agg) = Some addr \<longleftrightarrow>
     AllowKill opts \<and> meth = ''DELETE'' \<and> (\<exists>inst sid. parseSessionPath path = Some (inst, sid, '''') \<and> ClientFor inst agg = Some addr)"
  by (auto simp: sessionByID_def http_killSession_def Aggregator_KillSession_def split: option.splits prod.splits sum.splits if_splits)

end
