(* ===== verification/Admin_Shell.thy ===== *)
theory Admin_Shell
  imports Go_Strings
begin

text \<open>
  The SSH front end of the admin tool (\<^verbatim>\<open>cmd/sshpiperd-admin/ssh_server.go\<close>): who may connect, how a request of a session becomes a
  command line, and what is written back to a terminal.

  The commands themselves are a parameter: a command line runs in a state \<open>'s\<close>.  \<^verbatim>\<open>ssh.ParseAuthorizedKey\<close> is a parameter that gives the key in wire
  form and its options.  Terminal line editing is third-party code and not modelled.
\<close>

section \<open>Authorised keys\<close>

abbreviation LF :: byte where "LF \<equiv> 10"
abbreviation CR :: byte where "CR \<equiv> 13"

text \<open>The lines \<^verbatim>\<open>bufio.Scanner\<close> returns; a line of a megabyte or more stops it with an error.\<close>

definition scan_lines :: "bytes \<Rightarrow> bytes list" where
  "scan_lines b = (let ls = split_on LF b in if last ls = [] then butlast ls else ls)"

definition max_line :: nat where "max_line = 1024 * 1024"

definition trim_bytes :: "bytes \<Rightarrow> bytes" where
  "trim_bytes l = bytes_of (trim_space (str l))"

fun reload_loop :: "(bytes \<Rightarrow> (bytes \<times> string list) res) \<Rightarrow> string \<Rightarrow> nat \<Rightarrow> bytes list \<Rightarrow> bytes list res" where
  "reload_loop parse path n [] = Inr []"
| "reload_loop parse path n (raw # ls) =
     (if length raw \<ge> max_line then Inl (Ext ''bufio.Scanner: token too long'')
      else
        let line = trim_bytes raw
        in if line = [] \<or> hd line = 35 then reload_loop parse path (Suc n) ls
           else case parse line of
                  Inl e \<Rightarrow> Inl (Wrapf ''%s:%d: %w'' [path, itoa (int (Suc n))] e)
                | Inr (k, options) \<Rightarrow>
                    if length options > 0 then
                      Inl (Errorf ''%s:%d: key options (%s) are not supported by sshpiperd-admin serve; remove them or split into a separate file''
                             [path, itoa (int (Suc n)), join '','' options])
                    else bind_res (reload_loop parse path (Suc n) ls) (\<lambda>ks. Inr (k # ks)))"

definition keys_reload :: "(bytes \<Rightarrow> (bytes \<times> string list) res) \<Rightarrow> string \<Rightarrow> bytes res \<Rightarrow> bytes list res" where
  "keys_reload parse path content =
     bind_res content (\<lambda>b.
     bind_res (reload_loop parse path 0 (scan_lines b)) (\<lambda>ks.
       if ks = [] then Inl (Errorf ''no public keys parsed from %s'' [path]) else Inr ks))"

fun keys_callback :: "bytes list \<Rightarrow> bytes \<Rightarrow> goerr option" where
  "keys_callback [] marshaled = Some (Errorf ''public key not authorized'' [])"
| "keys_callback (k # ks) marshaled = (if k = marshaled then None else keys_callback ks marshaled)"

section \<open>Command lines\<close>

definition parseStringPayload :: "bytes \<Rightarrow> string" where
  "parseStringPayload p =
     (if length p < 4 then ''''
      else
        let n = unat (the (uint32_at p 0))
        in if 4 + n > length p then '''' else str (take n (drop 4 p)))"

record split_state =
  sp_out :: "string list"
  sp_cur :: string
  sp_in :: bool
  sp_quote :: "char option"
  sp_escape :: bool

definition flush :: "split_state \<Rightarrow> split_state" where
  "flush st = (if sp_in st then st\<lparr>sp_out := sp_out st @ [sp_cur st], sp_cur := [], sp_in := False\<rparr> else st)"

abbreviation SQUOTE :: char where "SQUOTE \<equiv> CHR 0x27"
abbreviation DQUOTE :: char where "DQUOTE \<equiv> CHR 0x22"
abbreviation BSLASH :: char where "BSLASH \<equiv> CHR 0x5C"

definition write_char :: "char \<Rightarrow> split_state \<Rightarrow> split_state" where
  "write_char c st = st\<lparr>sp_cur := sp_cur st @ [c], sp_in := True\<rparr>"

definition split_step :: "char \<Rightarrow> split_state \<Rightarrow> split_state" where
  "split_step c st =
     (if sp_escape st then (write_char c st)\<lparr>sp_escape := False\<rparr>
      else if sp_quote st = Some SQUOTE then
        (if c = SQUOTE then st\<lparr>sp_quote := None, sp_in := True\<rparr> else write_char c st)
      else if sp_quote st = Some DQUOTE then
        (if c = DQUOTE then st\<lparr>sp_quote := None, sp_in := True\<rparr>
         else if c = BSLASH then st\<lparr>sp_escape := True, sp_in := True\<rparr>
         else write_char c st)
      else if c = CHR '' '' \<or> c = CHR 0x09 then flush st
      else if c = SQUOTE \<or> c = DQUOTE then st\<lparr>sp_quote := Some c, sp_in := True\<rparr>
      else if c = BSLASH then st\<lparr>sp_escape := True\<rparr>
      else write_char c st)"

definition split_init :: split_state where
  "split_init = \<lparr>sp_out = [], sp_cur = [], sp_in = False, sp_quote = None, sp_escape = False\<rparr>"

definition splitArgs :: "string \<Rightarrow> string list res" where
  "splitArgs s =
     (let st = fold split_step s split_init
      in case sp_quote st of
           Some q \<Rightarrow> Inl (Errorf ''unterminated %c quote'' [[q]])
         | None \<Rightarrow>
             if sp_escape st then Inl (Errorf ''trailing backslash at end of input'' [])
             else Inr (sp_out (flush st)))"

text \<open>The global options handed on to every command: those that were set.\<close>

record global_flags =
  gf_sshpiperd :: "string list option"
  gf_insecure :: "bool option"
  gf_cacert :: "string option"
  gf_cert :: "string option"
  gf_key :: "string option"
  gf_server_name :: "string option"
  gf_timeout :: "string option"
  gf_log_level :: "string option"

definition flag :: "string \<Rightarrow> string option \<Rightarrow> string list" where
  "flag name v = (case v of None \<Rightarrow> [] | Some x \<Rightarrow> [name, x])"

definition inheritedGlobalArgs :: "global_flags \<Rightarrow> string list" where
  "inheritedGlobalArgs g =
     (case gf_sshpiperd g of None \<Rightarrow> [] | Some eps \<Rightarrow> concat (map (\<lambda>ep. [''--sshpiperd'', ep]) eps))
     @ (case gf_insecure g of None \<Rightarrow> [] | Some b \<Rightarrow> [''--insecure='' @ (if b then ''true'' else ''false'')])
     @ flag ''--tls-cacert'' (gf_cacert g) @ flag ''--tls-cert'' (gf_cert g) @ flag ''--tls-key'' (gf_key g)
     @ flag ''--tls-server-name'' (gf_server_name g) @ flag ''--timeout'' (gf_timeout g) @ flag ''--log-level'' (gf_log_level g)"

section \<open>Running commands\<close>

text \<open>\<open>app\<close> runs the command line of a fresh application, \<open>None\<close> is success; \<open>say\<close> writes a message.\<close>

record 's shell_env =
  app :: "string list \<Rightarrow> 's \<Rightarrow> 's \<times> goerr option"
  say :: "goerr \<Rightarrow> 's \<Rightarrow> 's"
  repl_help :: "'s \<Rightarrow> 's"
  inherited :: "string list"

definition runSubApp :: "'s shell_env \<Rightarrow> string list \<Rightarrow> 's \<Rightarrow> 's \<times> u32" where
  "runSubApp E args s =
     (case app E (''sshpiperd-admin'' # inherited E @ args) s of
        (s', Some e) \<Rightarrow> (say E e s', 1)
      | (s', None) \<Rightarrow> (s', 0))"

definition runRemoteCommand :: "'s shell_env \<Rightarrow> string \<Rightarrow> 's \<Rightarrow> 's \<times> u32" where
  "runRemoteCommand E cmd s =
     (case splitArgs cmd of
        Inl e \<Rightarrow> (say E e s, 2)
      | Inr args \<Rightarrow> runSubApp E (if args = [] then [''help''] else args) s)"

definition runShellLine :: "'s shell_env \<Rightarrow> string \<Rightarrow> 's \<Rightarrow> 's \<times> bool" where
  "runShellLine E raw s =
     (let line = trim_space raw
      in if line = '''' then (s, True)
         else if line \<in> {''exit'', ''quit''} then (s, False)
         else if line \<in> {''help'', ''?'', ''h''} then (repl_help E (fst (runSubApp E [''help''] s)), True)
         else case splitArgs line of
                Inl e \<Rightarrow> (say E e s, True)
              | Inr args \<Rightarrow> (fst (runSubApp E args s), True))"

text \<open>The shell without a terminal: the input arrives in chunks.  \<open>None\<close> in \<open>shell_drain\<close> is the exit of the shell.\<close>

abbreviation newline_char :: char where "newline_char \<equiv> CHR 0x0A"

definition trim_cr :: "string \<Rightarrow> string" where
  "trim_cr l = rev (dropWhile (\<lambda>c. c = CHR 0x0D) (rev l))"

function shell_drain :: "(string \<Rightarrow> 's \<Rightarrow> 's \<times> bool) \<Rightarrow> string \<Rightarrow> 's \<Rightarrow> string option \<times> 's" where
  "shell_drain run buf s =
     (case cut newline_char buf of
        None \<Rightarrow> (Some buf, s)
      | Some (line, rest) \<Rightarrow>
          (case run (trim_cr line) s of
             (s', False) \<Rightarrow> (None, s')
           | (s', True) \<Rightarrow> shell_drain run rest s'))"
  by auto

termination
  by (relation "measure (\<lambda>(run, buf, s). length buf)") (auto dest!: cut_Some)

declare shell_drain.simps [simp del]

fun shell_loop :: "(string \<Rightarrow> 's \<Rightarrow> 's \<times> bool) \<Rightarrow> string list \<Rightarrow> string \<Rightarrow> 's \<Rightarrow> 's" where
  "shell_loop run [] buf s = s"
| "shell_loop run (chunk # chunks) buf s =
     (case shell_drain run (buf @ chunk) s of
        (None, s') \<Rightarrow> s'
      | (Some buf', s') \<Rightarrow> shell_loop run chunks buf' s')"

text \<open>The requests of a session channel, in order.\<close>

datatype request =
    PtyReq bool
  | EnvReq bool
  | ExecReq bool bytes
  | ShellReq bool
  | OtherReq bool

datatype action = ReplyTo bool | RunExec string bool | RunShell bool | ExitStatus u32

definition reply_if :: "bool \<Rightarrow> bool \<Rightarrow> action list" where
  "reply_if want ok = (if want then [ReplyTo ok] else [])"

fun handleSession :: "(string \<Rightarrow> u32) \<Rightarrow> bool \<Rightarrow> request list \<Rightarrow> action list" where
  "handleSession status hasPTY [] = []"
| "handleSession status hasPTY (PtyReq want # reqs) = reply_if want True @ handleSession status True reqs"
| "handleSession status hasPTY (EnvReq want # reqs) = reply_if want True @ handleSession status hasPTY reqs"
| "handleSession status hasPTY (ExecReq want payload # reqs) =
     reply_if want True @ [RunExec (parseStringPayload payload) hasPTY, ExitStatus (status (parseStringPayload payload))]"
| "handleSession status hasPTY (ShellReq want # reqs) = reply_if want True @ [RunShell hasPTY, ExitStatus 0]"
| "handleSession status hasPTY (OtherReq want # reqs) = reply_if want False @ handleSession status hasPTY reqs"

section \<open>Terminals\<close>

text \<open>\<^verbatim>\<open>p[i] == '\n' && (i == 0 || p[i-1] != '\r')\<close>\<close>

definition lone_lf :: "bytes \<Rightarrow> nat \<Rightarrow> bool" where
  "lone_lf p i \<longleftrightarrow> p ! i = LF \<and> (i = 0 \<or> p ! (i - 1) \<noteq> CR)"

definition crlf_rewrites :: "bytes \<Rightarrow> nat" where
  "crlf_rewrites p = length (filter (lone_lf p) [0..<length p])"

definition crlf_expand :: "bytes \<Rightarrow> bytes" where
  "crlf_expand p = concat (map (\<lambda>i. if lone_lf p i then [CR, LF] else [p ! i]) [0..<length p])"

text \<open>\<open>w\<close> is the write of the wrapped writer, on its state.\<close>

definition crlf_Write :: "(bytes \<Rightarrow> 's \<Rightarrow> 's \<times> nat \<times> goerr option) \<Rightarrow> bytes \<Rightarrow> 's \<Rightarrow> 's \<times> nat \<times> goerr option" where
  "crlf_Write w p s =
     (if crlf_rewrites p = 0 then w p s
      else case w (crlf_expand p) s of
             (s', _, Some e) \<Rightarrow> (s', 0, Some e)
           | (s', _, None) \<Rightarrow> (s', length p, None))"

text \<open>
  The multiplexer of the terminal input: \<open>mux_cancel\<close> is the command that is running, if any.  What reaches the line editor and which
  commands were cancelled is recorded.
\<close>

record input_mux =
  mux_cancel :: "nat option"
  mux_terminal :: bytes
  mux_cancelled :: "nat list"

definition setCancel :: "nat \<Rightarrow> input_mux \<Rightarrow> input_mux" where
  "setCancel c m = m\<lparr>mux_cancel := Some c\<rparr>"

definition clearCancel :: "input_mux \<Rightarrow> input_mux" where
  "clearCancel m = m\<lparr>mux_cancel := None\<rparr>"

definition mux_feed :: "bytes \<Rightarrow> input_mux \<Rightarrow> input_mux" where
  "mux_feed b m =
     (case mux_cancel m of
        Some c \<Rightarrow> if 3 \<in> set b then m\<lparr>mux_cancelled := mux_cancelled m @ [c]\<rparr> else m
      | None \<Rightarrow> m\<lparr>mux_terminal := mux_terminal m @ b\<rparr>)"

section \<open>Who may connect\<close>

definition key_lines :: "bytes \<Rightarrow> bytes list" where
  "key_lines b = filter (\<lambda>l. l \<noteq> [] \<and> hd l \<noteq> 35) (map trim_bytes (scan_lines b))"

lemma reload_loop_keys:
  assumes "reload_loop parse path n ls = Inr ks"
  shows "map parse (filter (\<lambda>l. l \<noteq> [] \<and> hd l \<noteq> 35) (map trim_bytes ls)) = map (\<lambda>k. Inr (k, [])) ks"
  using assms
proof (induction parse path n ls arbitrary: ks rule: reload_loop.induct)
  case (2 parse path n raw ls)
  show ?case
  proof (cases "trim_bytes raw = [] \<or> hd (trim_bytes raw) = 35")
    case True
    then have "reload_loop parse path (Suc n) ls = Inr ks"
      using "2.prems" by (auto simp: Let_def split: if_splits)
    then show ?thesis
      using True "2.prems" "2.IH"(1) [OF _ refl True] by (auto split: if_splits)
  next
    case False
    then obtain k ks' where k: "parse (trim_bytes raw) = Inr (k, [])" "reload_loop parse path (Suc n) ls = Inr ks'" "ks = k # ks'"
      using "2.prems" by (auto simp: Let_def bind_res_eq_Inr split: if_splits sum.splits)
    have "\<not> length raw \<ge> max_line"
      using "2.prems" by (auto split: if_splits)
    then show ?thesis
      using False k "2.IH"(2) [OF _ refl False k(1)] by auto
  qed
qed simp

lemma keys_callback_accepts: "keys_callback ks key = None \<longleftrightarrow> key \<in> set ks"
  by (induction ks) auto

text \<open>
  C25: the SSH front end lets in exactly the listed keys.  If the file of authorised keys is accepted, then every line that is neither blank nor a comment holds a key
  without options, there is at least one, and a client key is accepted if and only if it is the key of such a line.  A file with an unreadable line or
  with a restricted key is refused as a whole.
\<close>

theorem admin_keys_exact:
  assumes "keys_reload parse path (Inr b) = Inr ks"
  shows "(\<forall>key. keys_callback ks key = None \<longleftrightarrow> Inr (key, []) \<in> parse ` set (key_lines b))
    \<and> (\<forall>l \<in> set (key_lines b). \<exists>k. parse l = Inr (k, [])) \<and> key_lines b \<noteq> []"
proof -
  have l: "reload_loop parse path 0 (scan_lines b) = Inr ks" and ne: "ks \<noteq> []"
    using assms by (auto simp: keys_reload_def bind_res_eq_Inr split: if_splits)
  have m: "map parse (key_lines b) = map (\<lambda>k. Inr (k, [])) ks"
    unfolding key_lines_def by (rule reload_loop_keys [OF l])
  have s: "parse ` set (key_lines b) = (\<lambda>k. Inr (k, [])) ` set ks"
    using arg_cong [OF m, of set] by simp
  then have "keys_callback ks key = None \<longleftrightarrow> Inr (key, []) \<in> parse ` set (key_lines b)" for key
    unfolding keys_callback_accepts by auto
  moreover have "\<exists>k. parse l = Inr (k, [])" if "l \<in> set (key_lines b)" for l
  proof -
    have "parse l \<in> (\<lambda>k. Inr (k, [])) ` set ks"
      unfolding s [symmetric] using that by simp
    then show ?thesis
      by blast
  qed
  moreover have "key_lines b \<noteq> []"
    using m ne by auto
  ultimately show ?thesis
    by blast
qed

definition demo_parse :: "bytes \<Rightarrow> (bytes \<times> string list) res" where
  "demo_parse l = Inr (l, [])"

theorem admin_keys_exact_witness:
  "keys_reload demo_parse ''keys'' (Inr [35, 9, 10, 65, 10, 10, 66]) = Inr [[65], [66]] \<and> keys_callback [[65], [66]] [66] = None
   \<and> Inr ([66], []) \<in> demo_parse ` set (key_lines [35, 9, 10, 65, 10, 10, 66])"
proof -
  have "scan_lines [35, 9, 10, 65, 10, 10, 66] = [[35, 9], [65], [], [66]]"
    "trim_bytes [35, 9] = [35]" "trim_bytes [65] = [65]" "trim_bytes [] = []" "trim_bytes [66] = [66]"
    by code_simp+
  then have r: "keys_reload demo_parse ''keys'' (Inr [35, 9, 10, 65, 10, 10, 66]) = Inr [[65], [66]]"
    by (simp add: keys_reload_def demo_parse_def max_line_def)
  moreover have "keys_callback [[65], [66]] [66] = None"
    by simp
  ultimately show ?thesis
    using admin_keys_exact [OF r] by blast
qed

section \<open>Splitting a command line\<close>

datatype style = Bare | Single | Double

definition dq_char :: "char \<Rightarrow> string" where
  "dq_char c = (if c = DQUOTE \<or> c = BSLASH then [BSLASH, c] else [c])"

fun quote :: "style \<times> string \<Rightarrow> string" where
  "quote (Bare, a) = a"
| "quote (Single, a) = [SQUOTE] @ a @ [SQUOTE]"
| "quote (Double, a) = [DQUOTE] @ concat (map dq_char a) @ [DQUOTE]"

definition special :: "char set" where
  "special = {CHR '' '', CHR 0x09, SQUOTE, DQUOTE, BSLASH}"

fun quotable :: "style \<times> string \<Rightarrow> bool" where
  "quotable (Bare, a) \<longleftrightarrow> a \<noteq> [] \<and> set a \<inter> special = {}"
| "quotable (Single, a) \<longleftrightarrow> SQUOTE \<notin> set a"
| "quotable (Double, a) \<longleftrightarrow> True"

definition between :: "string list \<Rightarrow> split_state" where
  "between out = \<lparr>sp_out = out, sp_cur = [], sp_in = False, sp_quote = None, sp_escape = False\<rparr>"

definition inside :: "string list \<Rightarrow> string \<Rightarrow> char option \<Rightarrow> split_state" where
  "inside out cur q = \<lparr>sp_out = out, sp_cur = cur, sp_in = True, sp_quote = q, sp_escape = False\<rparr>"

lemma inside_step:
  "c \<notin> special \<Longrightarrow> split_step c (inside out cur None) = inside out (cur @ [c]) None"
  "c \<noteq> SQUOTE \<Longrightarrow> split_step c (inside out cur (Some SQUOTE)) = inside out (cur @ [c]) (Some SQUOTE)"
  "fold split_step (dq_char c) (inside out cur (Some DQUOTE)) = inside out (cur @ [c]) (Some DQUOTE)"
  by (auto simp: split_step_def inside_def write_char_def special_def dq_char_def)

lemma bare_word: "set a \<inter> special = {} \<Longrightarrow> fold split_step a (inside out cur None) = inside out (cur @ a) None"
  by (induction a arbitrary: cur) (simp_all add: inside_step)

lemma single_quoted: "SQUOTE \<notin> set a \<Longrightarrow> fold split_step a (inside out cur (Some SQUOTE)) = inside out (cur @ a) (Some SQUOTE)"
proof (induction a arbitrary: cur)
  case (Cons c a)
  then show ?case
    using inside_step(2) [of c] by auto
qed simp

lemma double_quoted: "fold split_step (concat (map dq_char a)) (inside out cur (Some DQUOTE)) = inside out (cur @ a) (Some DQUOTE)"
  by (induction a arbitrary: cur) (simp_all add: inside_step)

lemma quoted_word:
  assumes "quotable w"
  shows "fold split_step (quote w) (between out) = inside out (snd w) None"
proof (cases w)
  case (Pair st a)
  show ?thesis
  proof (cases st)
    case Bare
    then obtain c a' where a: "a = c # a'" "c \<notin> special" "set a' \<inter> special = {}"
      using assms Pair by (cases a) auto
    then have "split_step c (between out) = inside out [c] None"
      by (simp add: split_step_def between_def inside_def write_char_def special_def)
    then show ?thesis
      using Pair Bare a bare_word [OF a(3)] by simp
  next
    case Single
    have "split_step SQUOTE (between out) = inside out [] (Some SQUOTE)" "split_step SQUOTE (inside out a (Some SQUOTE)) = inside out a None"
      by (simp_all add: split_step_def between_def inside_def)
    then show ?thesis
      using Pair Single assms single_quoted [of a] by simp
  next
    case Double
    have "split_step DQUOTE (between out) = inside out [] (Some DQUOTE)" "split_step DQUOTE (inside out a (Some DQUOTE)) = inside out a None"
      by (simp_all add: split_step_def between_def inside_def)
    then show ?thesis
      using Pair Double double_quoted by simp
  qed
qed

lemma split_words:
  assumes "list_all quotable ws" "ws \<noteq> []"
  shows "fold split_step (join '' '' (map quote ws)) (between out) = inside (out @ map snd (butlast ws)) (snd (last ws)) None"
  using assms
proof (induction ws arbitrary: out rule: induct_list012)
  case (2 w)
  then show ?case
    by (simp add: quoted_word)
next
  case (3 w v ws)
  have "split_step (CHR '' '') (inside out (snd w) None) = between (out @ [snd w])"
    by (simp add: split_step_def inside_def between_def flush_def)
  then show ?case
    using 3 by (simp add: quoted_word)
qed simp

text \<open>
  C33: a command line is split into the words that were quoted.  Whatever words, empty ones included, are written bare (without special characters), in single
  quotes (without a single quote) or in double quotes (with backslashes before double quotes and backslashes), and separated by spaces, splitting the line
  gives back these words.
\<close>

theorem split_args_round_trip:
  assumes "list_all quotable ws"
  shows "splitArgs (join '' '' (map quote ws)) = Inr (map snd ws)"
proof (cases "ws = []")
  case True
  then show ?thesis
    by (simp add: splitArgs_def split_init_def flush_def)
next
  case False
  have "split_init = between []"
    by (simp add: split_init_def between_def)
  moreover have "map snd (butlast ws) @ [snd (last ws)] = map snd ws"
    using False by (metis append_butlast_last_id list.simps(8) list.simps(9) map_append)
  ultimately show ?thesis
    using split_words [OF assms False, of "[]"] by (simp add: splitArgs_def inside_def flush_def)
qed

theorem split_args_round_trip_witness:
  "splitArgs (join '' '' (map quote [(Bare, ''kill''), (Double, ''a b''), (Single, '''')])) = Inr [''kill'', ''a b'', '''']"
proof -
  have "list_all quotable [(Bare, ''kill''), (Double, ''a b''), (Single, '''')]"
    by (simp add: special_def)
  from split_args_round_trip [OF this] show ?thesis
    by simp
qed

section \<open>The shell reads lines\<close>

lemma shell_drain_no_newline: "newline_char \<notin> set buf \<Longrightarrow> shell_drain run buf s = (Some buf, s)"
  by (subst shell_drain.simps) (simp add: cut_def)

lemma shell_drain_line:
  "newline_char \<notin> set l \<Longrightarrow> shell_drain run (l @ newline_char # rest) s =
     (case run (trim_cr l) s of (s', False) \<Rightarrow> (None, s') | (s', True) \<Rightarrow> shell_drain run rest s')"
  by (subst shell_drain.simps) simp

fun run_lines :: "(string \<Rightarrow> 's \<Rightarrow> 's \<times> bool) \<Rightarrow> string list \<Rightarrow> 's \<Rightarrow> 's \<times> bool" where
  "run_lines run [] s = (s, True)"
| "run_lines run (l # ls) s = (case run l s of (s', False) \<Rightarrow> (s', False) | (s', True) \<Rightarrow> run_lines run ls s')"

definition complete_lines :: "string \<Rightarrow> string list" where
  "complete_lines buf = map trim_cr (butlast (split_on newline_char buf))"

lemma run_lines_append:
  "run_lines run (ls @ ms) s = (case run_lines run ls s of (s', False) \<Rightarrow> (s', False) | (s', True) \<Rightarrow> run_lines run ms s')"
  by (induction ls arbitrary: s) (auto split: prod.splits bool.splits)

lemma split_first:
  obtains "c \<notin> set s" "split_on c s = [s]"
  | l r where "s = l @ c # r" "c \<notin> set l" "split_on c s = l # split_on c r"
  by (metis split_list_first split_on_append_sep split_on_single)

lemma shell_drain_lines:
  "shell_drain run buf s =
     (case run_lines run (complete_lines buf) s of
        (s', False) \<Rightarrow> (None, s')
      | (s', True) \<Rightarrow> (Some (last (split_on newline_char buf)), s'))"
proof (induction "length buf" arbitrary: buf s rule: less_induct)
  case less
  show ?case
  proof (cases rule: split_first [where c = newline_char and s = buf])
    case 1
    then show ?thesis
      by (simp add: shell_drain_no_newline complete_lines_def)
  next
    case (2 l r)
    then have "length r < length buf" "complete_lines buf = trim_cr l # complete_lines r"
      "last (split_on newline_char buf) = last (split_on newline_char r)"
      by (simp_all add: complete_lines_def)
    then show ?thesis
      using 2 less [of r] by (simp add: shell_drain_line split: prod.splits bool.splits)
  qed
qed

lemma split_on_joined:
  "split_on c (a @ b) = butlast (split_on c a) @ split_on c (last (split_on c a) @ b)"
proof (induction "length a" arbitrary: a rule: less_induct)
  case less
  show ?case
  proof (cases rule: split_first [where c = c and s = a])
    case (2 l r)
    then show ?thesis
      using less [of r] by (simp add: split_on_append_sep)
  qed simp
qed

lemma last_split_no_sep: "c \<notin> set (last (split_on c s))"
  by (rule split_on_no_sep [of _ c s]) simp

lemma shell_loop_lines:
  "newline_char \<notin> set buf \<Longrightarrow> shell_loop run chunks buf s = fst (run_lines run (complete_lines (buf @ concat chunks)) s)"
proof (induction chunks arbitrary: buf s)
  case Nil
  then show ?case
    by (simp add: complete_lines_def split_on_single)
next
  case (Cons chunk chunks)
  let ?b = "last (split_on newline_char (buf @ chunk))"
  have c: "complete_lines (buf @ chunk @ concat chunks) = complete_lines (buf @ chunk) @ complete_lines (?b @ concat chunks)"
    using split_on_joined [of newline_char "buf @ chunk" "concat chunks"] by (simp add: complete_lines_def butlast_append)
  show ?case
    using Cons.IH [OF last_split_no_sep [of newline_char "buf @ chunk"]]
    by (simp add: c shell_drain_lines run_lines_append split: prod.splits bool.splits)
qed

text \<open>
  C26: the shell without a terminal runs the lines of its input, however the input is cut into chunks.  Its effect is that of running each complete
  line of the whole input in order, without trailing carriage returns, up to the first line that ends the shell; an unfinished last line is not run.
\<close>

theorem shell_runs_the_lines:
  "shell_loop run chunks '''' s = fst (run_lines run (complete_lines (concat chunks)) s)"
  using shell_loop_lines [of "''''"] by simp

section \<open>Sessions and terminals\<close>

text \<open>A session channel runs at most one program, and its exit status is the last thing it sends.\<close>

definition is_run :: "action \<Rightarrow> bool" where
  "is_run a = (case a of RunExec _ _ \<Rightarrow> True | RunShell _ \<Rightarrow> True | _ \<Rightarrow> False)"

lemma reply_if_not_run: "filter is_run (reply_if want ok) = []"
  by (simp add: reply_if_def is_run_def)

lemma session_runs_once:
  "filter is_run (handleSession status pty reqs) = []
   \<or> (\<exists>pre run st. handleSession status pty reqs = pre @ [run, ExitStatus st] \<and> is_run run \<and> filter is_run pre = [])"
proof (induction status pty reqs rule: handleSession.induct)
  case (4 status pty want payload reqs)
  then show ?case
    by (auto simp: is_run_def reply_if_def)
next
  case (5 status pty want reqs)
  then show ?case
    by (auto simp: is_run_def reply_if_def)
next
  case (2 status pty want reqs)
  then show ?case
    by (auto simp: reply_if_not_run intro: exI [of _ "reply_if want True @ _"])
next
  case (3 status pty want reqs)
  then show ?case
    by (auto simp: reply_if_not_run intro: exI [of _ "reply_if want True @ _"])
next
  case (6 status pty want reqs)
  then show ?case
    by (auto simp: reply_if_not_run intro: exI [of _ "reply_if want False @ _"])
qed simp

text \<open>The command of an \<^verbatim>\<open>exec\<close> request is the string the client sent.\<close>

lemma exec_payload:
  assumes "length b < 2 ^ 32"
  shows "parseStringPayload (put_sshstring b) = str b"
proof -
  have "uint32_at (put_sshstring b) 0 = Some (word_of_nat (length b))"
    using uint32_at_append_put [of "[]"] by (simp add: put_sshstring_def)
  then show ?thesis
    using assms by (simp add: parseStringPayload_def put_sshstring_def unat_of_nat)
qed

text \<open>While a command runs nothing the user types reaches the next prompt, and only an interrupt has an effect.\<close>

lemma mux_feed_running:
  "mux_cancel m = Some c \<Longrightarrow> mux_feed b m = (if 3 \<in> set b then m\<lparr>mux_cancelled := mux_cancelled m @ [c]\<rparr> else m)"
  by (simp add: mux_feed_def)

lemma input_while_running:
  assumes "mux_cancel m = Some c"
  shows "mux_terminal (fold mux_feed bs m) = mux_terminal m \<and> mux_cancel (fold mux_feed bs m) = Some c
    \<and> (mux_cancelled (fold mux_feed bs m) \<noteq> mux_cancelled m \<longleftrightarrow> (\<exists>b \<in> set bs. 3 \<in> set b))"
proof -
  have "\<exists>k. fold mux_feed bs m = m\<lparr>mux_cancelled := mux_cancelled m @ replicate k c\<rparr> \<and> (k \<noteq> 0 \<longleftrightarrow> (\<exists>b \<in> set bs. 3 \<in> set b))"
    using assms
  proof (induction bs arbitrary: m)
    case Nil
    then show ?case
      by (intro exI [of _ 0]) simp
  next
    case (Cons b bs)
    show ?case
    proof (cases "3 \<in> set b")
      case True
      obtain k where "fold mux_feed bs (m\<lparr>mux_cancelled := mux_cancelled m @ [c]\<rparr>)
          = m\<lparr>mux_cancelled := (mux_cancelled m @ [c]) @ replicate k c\<rparr>"
        using Cons.IH [of "m\<lparr>mux_cancelled := mux_cancelled m @ [c]\<rparr>"] Cons.prems by auto
      then show ?thesis
        using True Cons.prems by (intro exI [of _ "Suc k"]) (simp add: mux_feed_running)
    next
      case False
      then show ?thesis
        using Cons.IH [OF Cons.prems] Cons.prems by (simp add: mux_feed_running)
    qed
  qed
  then show ?thesis
    using assms by auto
qed

text \<open>Text written to a raw terminal has no bare line feed, and both branches of the writer write the same.\<close>

fun crlf_go :: "bool \<Rightarrow> bytes \<Rightarrow> bytes" where
  "crlf_go cr [] = []"
| "crlf_go cr (c # p) = (if c = LF \<and> \<not> cr then [CR, LF] else [c]) @ crlf_go (c = CR) p"

fun no_bare_lf :: "bool \<Rightarrow> bytes \<Rightarrow> bool" where
  "no_bare_lf cr [] \<longleftrightarrow> True"
| "no_bare_lf cr (c # p) \<longleftrightarrow> (c = LF \<longrightarrow> cr) \<and> no_bare_lf (c = CR) p"

lemma crlf_go_no_bare_lf: "no_bare_lf cr (crlf_go cr p)"
  by (induction cr p rule: crlf_go.induct) auto

definition crlf_at :: "bytes \<Rightarrow> nat \<Rightarrow> bytes" where
  "crlf_at p i = (if lone_lf p i then [CR, LF] else [p ! i])"

lemma crlf_expand_at: "crlf_expand p = concat (map (crlf_at p) [0..<length p])"
  by (simp add: crlf_expand_def crlf_at_def [abs_def])

lemma crlf_expand_from:
  "concat (map (crlf_at (q @ p)) [length q..<length q + length p]) = crlf_go (q \<noteq> [] \<and> last q = CR) p"
proof (induction p arbitrary: q)
  case (Cons c p)
  have "[length q..<length q + length (c # p)] = length q # [length (q @ [c])..<length (q @ [c]) + length p]"
    using upt_conv_Cons [of "length q" "length q + length (c # p)"] by simp
  then have "concat (map (crlf_at (q @ c # p)) [length q..<length q + length (c # p)])
      = crlf_at (q @ c # p) (length q) @ concat (map (crlf_at ((q @ [c]) @ p)) [length (q @ [c])..<length (q @ [c]) + length p])"
    by (simp only: list.map concat.simps append_assoc append_Cons append_Nil)
  also have "crlf_at (q @ c # p) (length q) = (if c = LF \<and> \<not> (q \<noteq> [] \<and> last q = CR) then [CR, LF] else [c])"
    by (auto simp: crlf_at_def lone_lf_def nth_append last_conv_nth)
  finally show ?case
    unfolding Cons.IH [of "q @ [c]"] by simp
qed simp

lemma crlf_expand_go: "crlf_expand p = crlf_go False p"
  using crlf_expand_from [of "[]" p] by (simp add: crlf_expand_at)

lemma crlf_fast_path:
  assumes "crlf_rewrites p = 0"
  shows "crlf_expand p = p"
proof -
  have "map (crlf_at p) [0..<length p] = map (\<lambda>i. [p ! i]) [0..<length p]"
    using assms by (auto simp: crlf_rewrites_def filter_empty_conv crlf_at_def)
  also have "concat \<dots> = p"
    using concat_map_singleton [of "(!) p" "[0..<length p]"] by (simp add: map_nth)
  finally show ?thesis
    by (simp add: crlf_expand_at)
qed

lemma crlf_Write_expands:
  "fst (crlf_Write (\<lambda>b out. (out @ b, length b, None)) p out) = out @ crlf_expand p \<and> no_bare_lf False (crlf_expand p)"
  using crlf_fast_path [of p] crlf_go_no_bare_lf [of False p] by (simp add: crlf_Write_def crlf_expand_go)

text \<open>The writer does not remember the last byte of the write before: a pair that is split between two writes is not preserved.\<close>

lemma crlf_split_pair: "crlf_expand [CR, LF] = [CR, LF] \<and> crlf_expand [CR] @ crlf_expand [LF] = [CR, CR, LF]"
  by (simp add: crlf_expand_go)

end
