(* ===== verification/Kubernetes_Plugin.thy ===== *)
theory Kubernetes_Plugin
  imports Yaml_Plugin
begin

text \<open>
  The kubernetes plugin (\<^verbatim>\<open>plugin/kubernetes/skel.go\<close>, \<^verbatim>\<open>kubernetes.go\<close>, \<^verbatim>\<open>kubectl_exec_bridge.go\<close>): pipes from custom resources, credentials from
  secrets, and the keys by which the local bridge finds the pod to open a shell in.

  Parameters (\<open>kube_env\<close>) are the cluster (the list of pipes, the secrets), files, base64, regular expressions, \<^verbatim>\<open>htpasswd\<close> files, and for the
  routing part the outcome of registering a pipe at the bridge; the registration itself is modelled on the state of the bridge.  A nil byte slice in a secret
  is an absent field.
\<close>

section \<open>Resources\<close>

record kube_from =
  kf_Username :: string
  kf_UsernameRegexMatch :: bool
  kf_AuthorizedKeysData :: string
  kf_AuthorizedKeysFile :: string
  kf_AuthorizedKeysSecret :: string
  kf_HtpasswdData :: string
  kf_HtpasswdFile :: string

record kube_to =
  kt_Username :: string
  kt_Host :: string
  kt_PrivateKeySecret :: string
  kt_PasswordSecret :: string
  kt_KnownHostsData :: string

record kube_pipe =
  kp_Namespace :: string
  kp_Name :: string
  kp_Annotations :: strmap
  kp_From :: "kube_from list"
  kp_To :: kube_to

definition anno :: "kube_pipe \<Rightarrow> string \<Rightarrow> string" where
  "anno p k = (case kp_Annotations p k of None \<Rightarrow> '''' | Some v \<Rightarrow> v)"

definition equal_fold :: "string \<Rightarrow> string \<Rightarrow> bool" where
  "equal_fold a b \<longleftrightarrow> map to_lower a = map to_lower b"

definition isKubectlExecEnabled :: "kube_pipe \<Rightarrow> bool" where
  "isKubectlExecEnabled p \<longleftrightarrow> equal_fold (anno p ''sshpiper.com/kubectl_exec_cmd'') ''true'' \<or> equal_fold (anno p ''kubectl_exec_cmd'') ''true''"

record kube_env =
  k_list :: "kube_pipe list res"
  k_secret :: "string \<Rightarrow> string \<Rightarrow> (string \<rightharpoonup> bytes) res"
  k_decode :: "string \<Rightarrow> bytes res"
  k_readfile :: "string \<Rightarrow> bytes res"
  k_compile :: "string \<Rightarrow> regexp res"
  k_htpasswd :: "bytes \<Rightarrow> (string \<Rightarrow> string \<Rightarrow> bool) res"
  k_register :: "kube_pipe \<Rightarrow> (string \<times> string) res"

section \<open>Pipes\<close>

definition loadStringAndFile :: "kube_env \<Rightarrow> string \<Rightarrow> string \<Rightarrow> bytes list res" where
  "loadStringAndFile K base64orraw path =
     (let fromData = (if base64orraw \<noteq> '''' then
                        [case k_decode K base64orraw of Inl _ \<Rightarrow> bytes_of base64orraw | Inr d \<Rightarrow> d]
                      else [])
      in if path \<noteq> '''' then bind_res (k_readfile K path) (\<lambda>d. Inr (fromData @ [d])) else Inr fromData)"

fun first_field :: "(string \<rightharpoonup> bytes) \<Rightarrow> string list \<Rightarrow> bytes option" where
  "first_field data [] = None"
| "first_field data (k # ks) = (case data k of Some d \<Rightarrow> Some d | None \<Rightarrow> first_field data ks)"

fun htpasswd_loop :: "kube_env \<Rightarrow> string \<Rightarrow> string \<Rightarrow> bytes list \<Rightarrow> bool \<Rightarrow> bool res" where
  "htpasswd_loop K user password [] matched = Inr matched"
| "htpasswd_loop K user password (d # ds) matched =
     bind_res (k_htpasswd K d) (\<lambda>match. htpasswd_loop K user password ds (if match user password then True else matched))"

definition kube_TestPassword :: "kube_env \<Rightarrow> kube_from \<Rightarrow> conn_meta \<Rightarrow> bytes \<Rightarrow> bool res" where
  "kube_TestPassword K f conn password =
     bind_res (loadStringAndFile K (kf_HtpasswdData f) (kf_HtpasswdFile f)) (\<lambda>pwds.
       htpasswd_loop K (UserName conn) (str password) pwds (length pwds = 0))"

definition kube_AuthorizedKeys :: "kube_env \<Rightarrow> kube_pipe \<Rightarrow> kube_from \<Rightarrow> bytes res" where
  "kube_AuthorizedKeys K p f =
     bind_res (loadStringAndFile K (kf_AuthorizedKeysData f) (kf_AuthorizedKeysFile f)) (\<lambda>slices.
     bind_res
       (if kf_AuthorizedKeysSecret f \<noteq> '''' then
          bind_res (k_secret K (kp_Namespace p) (kf_AuthorizedKeysSecret f)) (\<lambda>data.
            Inr (case first_field data [anno p ''sshpiper.com/authorizedkeys_field_name'', anno p ''authorizedkeys_field_name'',
                                        ''authorized_keys'', ''authorizedkeys'', ''ssh-authorizedkeys''] of
                   None \<Rightarrow> slices | Some d \<Rightarrow> slices @ [d]))
        else Inr slices) (\<lambda>all.
     Inr (join (bytes_of [CHR 0x0A]) all)))"

definition kube_PrivateKey :: "kube_env \<Rightarrow> kube_pipe \<Rightarrow> string \<Rightarrow> (bytes \<times> bytes) res" where
  "kube_PrivateKey K p override =
     (if override \<noteq> '''' then bind_res (k_decode K override) (\<lambda>k. Inr (k, []))
      else
        bind_res (k_secret K (kp_Namespace p) (kt_PrivateKeySecret (kp_To p))) (\<lambda>data.
          let privateKey = first_field data [anno p ''sshpiper.com/privatekey_field_name'', anno p ''privatekey_field_name'', ''ssh-privatekey'', ''privatekey''];
              publicKey =
                (if anno p ''no_ca_publickey'' \<noteq> ''true'' \<and> anno p ''sshpiper.com/no_ca_publickey'' \<noteq> ''true'' then
                   first_field data [anno p ''sshpiper.com/publickey_field_name'', anno p ''publickey_field_name'',
                                     ''ssh-publickey-cert'', ''publickey-cert'', ''ssh-publickey'', ''publickey'']
                 else None)
          in Inr (case privateKey of None \<Rightarrow> [] | Some k \<Rightarrow> k, case publicKey of None \<Rightarrow> [] | Some k \<Rightarrow> k)))"

definition kube_OverridePassword :: "kube_env \<Rightarrow> kube_pipe \<Rightarrow> bytes option res" where
  "kube_OverridePassword K p =
     (if kt_PasswordSecret (kp_To p) \<noteq> '''' then
        bind_res (k_secret K (kp_Namespace p) (kt_PasswordSecret (kp_To p))) (\<lambda>data.
          Inr (first_field data [anno p ''password_field_name'', ''password'']))
      else Inr None)"

text \<open>\<open>override\<close> is the key and the address of the bridge, if the pipe opens a shell in a pod.\<close>

definition kube_skel_to :: "kube_env \<Rightarrow> kube_pipe \<Rightarrow> string \<Rightarrow> (string \<times> string) option \<Rightarrow> skel_to" where
  "kube_skel_to K p username override =
     (let key = (case override of None \<Rightarrow> '''' | Some (k, _) \<Rightarrow> k);
          host = (case override of None \<Rightarrow> '''' | Some (_, h) \<Rightarrow> h);
          byKey = (kt_PrivateKeySecret (kp_To p) \<noteq> '''' \<or> key \<noteq> '''')
      in \<lparr>to_Host = \<lambda>_. if host \<noteq> '''' then host else kt_Host (kp_To p),
          to_User = \<lambda>_. username,
          to_KnownHosts = \<lambda>_. if override \<noteq> None then Inr [] else k_decode K (kt_KnownHostsData (kp_To p)),
          to_OverridePassword = (if byKey then None else Some (\<lambda>_. kube_OverridePassword K p)),
          to_PrivateKey = (if byKey then Some (\<lambda>_. kube_PrivateKey K p key) else None)\<rparr>)"

definition kube_matched :: "kube_env \<Rightarrow> kube_pipe \<Rightarrow> kube_from \<Rightarrow> string \<Rightarrow> (bool \<times> string) res" where
  "kube_matched K p f user =
     (let target = (if kt_Username (kp_To p) = '''' then user else kt_Username (kp_To p))
      in if kf_UsernameRegexMatch f then
           bind_res (k_compile K (kf_Username f)) (\<lambda>re.
             Inr (if MatchString re user then (True, ReplaceAllString re user (kt_Username (kp_To p))) else (False, target)))
         else Inr (kf_Username f = user, target))"

definition kube_MatchConn :: "kube_env \<Rightarrow> kube_pipe \<Rightarrow> kube_from \<Rightarrow> conn_meta \<Rightarrow> skel_to option res" where
  "kube_MatchConn K p f conn =
     bind_res (kube_matched K p f (UserName conn)) (\<lambda>(matched, target).
       if matched then
         (if isKubectlExecEnabled p then bind_res (k_register K p) (\<lambda>kh. Inr (Some (kube_skel_to K p target (Some kh))))
          else Inr (Some (kube_skel_to K p target None)))
       else Inr None)"

definition by_public_key :: "kube_from \<Rightarrow> bool" where
  "by_public_key f \<longleftrightarrow> kf_AuthorizedKeysData f \<noteq> '''' \<or> kf_AuthorizedKeysFile f \<noteq> '''' \<or> kf_AuthorizedKeysSecret f \<noteq> ''''"

definition kube_skel_from :: "kube_env \<Rightarrow> kube_pipe \<Rightarrow> kube_from \<Rightarrow> skel_from" where
  "kube_skel_from K p f =
     \<lparr>MatchConn = kube_MatchConn K p f,
      TestPassword = (if by_public_key f then None else Some (kube_TestPassword K f)),
      from_PublicKey =
        (if by_public_key f then Some \<lparr>AuthorizedKeys = \<lambda>_. kube_AuthorizedKeys K p f, TrustedUserCAKeys = \<lambda>_. Inr []\<rparr> else None)\<rparr>"

definition kube_skel_pipe :: "kube_env \<Rightarrow> kube_pipe \<Rightarrow> skel_pipe" where
  "kube_skel_pipe K p = map (kube_skel_from K p) (kp_From p)"

definition kube_listPipe :: "kube_env \<Rightarrow> list_pipe" where
  "kube_listPipe K _ = bind_res (k_list K) (\<lambda>ps. Inr (map (kube_skel_pipe K) ps))"

section \<open>The bridge\<close>

record kubectlExecTarget =
  et_Namespace :: string
  et_Pod :: string
  et_Container :: string
  et_Default :: string

definition kubectlExecPipeKey :: "kube_pipe \<Rightarrow> string" where
  "kubectlExecPipeKey p = kp_Namespace p @ ''/'' @ kp_Name p"

definition parseKubectlExecTarget :: "kube_pipe \<Rightarrow> kube_to \<Rightarrow> kubectlExecTarget res" where
  "parseKubectlExecTarget p to =
     (let cmd = (if anno p ''sshpiper.com/kubectl_sshd_cmd'' \<noteq> '''' then anno p ''sshpiper.com/kubectl_sshd_cmd''
                 else if anno p ''kubectl_sshd_cmd'' \<noteq> '''' then anno p ''kubectl_sshd_cmd'' else ''/bin/sh'');
          target = (\<lambda>ns pod con.
            if pod = '''' then Inl (Errorf ''empty pod in kubectl exec host: %v'' [kt_Host to])
            else Inr \<lparr>et_Namespace = ns, et_Pod = pod, et_Container = con, et_Default = cmd\<rparr>)
      in case split_on (CHR ''/'') (kt_Host to) of
           [pod] \<Rightarrow> target (kp_Namespace p) pod ''''
         | [pod, con] \<Rightarrow> target (kp_Namespace p) pod con
         | [ns, pod, con] \<Rightarrow> target ns pod con
         | _ \<Rightarrow> Inl (Errorf ''invalid kubectl exec host format: %v'' [kt_Host to]))"

text \<open>The state under the mutex \<^verbatim>\<open>kubeExecMu\<close>; an operation that releases the mutex in between is split there.\<close>

record kube_bridge =
  kb_addr :: string
  PipeToKey :: "(string \<times> string) list"
  kb_PrivateKeys :: "string \<rightharpoonup> string"
  Targets :: "string \<rightharpoonup> kubectlExecTarget"


definition or_empty :: "string option \<Rightarrow> string" where
  "or_empty v = (case v of None \<Rightarrow> '''' | Some x \<Rightarrow> x)"

definition kube_ensure_first :: "kube_bridge \<Rightarrow> string option" where
  "kube_ensure_first b = (if kb_addr b \<noteq> '''' then Some (kb_addr b) else None)"

definition kube_ensure_second :: "string \<Rightarrow> kube_bridge \<Rightarrow> kube_bridge \<times> string" where
  "kube_ensure_second addr b = (if kb_addr b = '''' then (b\<lparr>kb_addr := addr\<rparr>, addr) else (b, kb_addr b))"

definition ensureKubectlExecBridge :: "string res \<Rightarrow> kube_bridge \<Rightarrow> kube_bridge \<times> string res" where
  "ensureKubectlExecBridge listen b =
     (case kube_ensure_first b of
        Some addr \<Rightarrow> (b, Inr addr)
      | None \<Rightarrow>
          (case listen of
             Inl e \<Rightarrow> (b, Inl e)
           | Inr addr \<Rightarrow> (case kube_ensure_second addr b of (b', a) \<Rightarrow> (b', Inr a))))"

text \<open>A registered pipe gets its key back, with the target it has now.\<close>

definition kube_known :: "string \<Rightarrow> kubectlExecTarget \<Rightarrow> kube_bridge \<Rightarrow> (kube_bridge \<times> string) option" where
  "kube_known pipeKey target b =
     (let k = or_empty (kb_PrivateKeys b pipeKey)
      in if k \<noteq> '''' then Some (b\<lparr>Targets := (Targets b)(or_empty (map_of (PipeToKey b) pipeKey) \<mapsto> target)\<rparr>, k) else None)"

definition kube_register_first :: "string \<Rightarrow> kubectlExecTarget \<Rightarrow> kube_bridge \<Rightarrow> kube_bridge \<times> string option" where
  "kube_register_first pipeKey target b = (case kube_known pipeKey target b of Some (b', k) \<Rightarrow> (b', Some k) | None \<Rightarrow> (b, None))"

definition kube_register_second :: "string \<Rightarrow> kubectlExecTarget \<Rightarrow> string \<Rightarrow> string \<Rightarrow> kube_bridge \<Rightarrow> kube_bridge \<times> string" where
  "kube_register_second pipeKey target privateKey publicKey b =
     (case kube_known pipeKey target b of
        Some r \<Rightarrow> r
      | None \<Rightarrow>
          (b\<lparr>kb_PrivateKeys := (kb_PrivateKeys b)(pipeKey \<mapsto> privateKey), PipeToKey := put (PipeToKey b) pipeKey publicKey,
             Targets := (Targets b)(publicKey \<mapsto> target)\<rparr>, privateKey))"

text \<open>\<open>gen\<close> is the generated private key with its public key in wire form.\<close>

definition registerKubectlExecPipe :: "(string \<times> string) res \<Rightarrow> string res \<Rightarrow> kube_pipe \<Rightarrow> kube_bridge \<Rightarrow> kube_bridge \<times> (string \<times> string) res" where
  "registerKubectlExecPipe gen listen p b =
     (case parseKubectlExecTarget p (kp_To p) of
        Inl e \<Rightarrow> (b, Inl e)
      | Inr target \<Rightarrow>
          (let finish = (\<lambda>b' k. case ensureKubectlExecBridge listen b' of
                 (b2, Inl e) \<Rightarrow> (b2, Inl e) | (b2, Inr addr) \<Rightarrow> (b2, Inr (k, addr)))
           in case kube_register_first (kubectlExecPipeKey p) target b of
                (b', Some k) \<Rightarrow> finish b' k
              | (_, None) \<Rightarrow>
                  (case gen of
                     Inl e \<Rightarrow> (b, Inl e)
                   | Inr (privateKey, publicKey) \<Rightarrow>
                       (case kube_register_second (kubectlExecPipeKey p) target privateKey publicKey b of (b', k) \<Rightarrow> finish b' k))))"

definition enabled_pipe :: "kube_pipe list \<Rightarrow> string \<Rightarrow> kube_pipe option" where
  "enabled_pipe ps pipeKey = find (\<lambda>p. kubectlExecPipeKey p = pipeKey) (rev (filter isKubectlExecEnabled ps))"

definition kube_forget :: "string \<Rightarrow> string \<Rightarrow> kube_bridge \<Rightarrow> kube_bridge" where
  "kube_forget pipeKey publicKey b =
     b\<lparr>PipeToKey := del (PipeToKey b) pipeKey, kb_PrivateKeys := (kb_PrivateKeys b)(pipeKey := None), Targets := (Targets b)(publicKey := None)\<rparr>"

fun kube_sync_loop :: "kube_pipe list \<Rightarrow> (string \<times> string) list \<Rightarrow> kube_bridge \<Rightarrow> kube_bridge" where
  "kube_sync_loop ps [] b = b"
| "kube_sync_loop ps ((pipeKey, publicKey) # es) b =
     kube_sync_loop ps es
       (case enabled_pipe ps pipeKey of
          None \<Rightarrow> kube_forget pipeKey publicKey b
        | Some p \<Rightarrow>
            (case parseKubectlExecTarget p (kp_To p) of
               Inl _ \<Rightarrow> kube_forget pipeKey publicKey b
             | Inr target \<Rightarrow> b\<lparr>Targets := (Targets b)(publicKey \<mapsto> target)\<rparr>))"

definition syncKubectlExecState :: "kube_pipe list \<Rightarrow> kube_bridge \<Rightarrow> kube_bridge" where
  "syncKubectlExecState ps b = kube_sync_loop ps (PipeToKey b) b"

definition kube_list :: "kube_pipe list res \<Rightarrow> kube_bridge \<Rightarrow> kube_bridge \<times> kube_pipe list res" where
  "kube_list lister b = (case lister of Inl e \<Rightarrow> (b, Inl e) | Inr ps \<Rightarrow> (syncKubectlExecState ps b, Inr ps))"


section \<open>Keys of the bridge\<close>




















definition demo_kube_pipe :: kube_pipe where
  "demo_kube_pipe =
     \<lparr>kp_Namespace = ''ns'', kp_Name = ''p'', kp_Annotations = [''kubectl_exec_cmd'' \<mapsto> ''TRUE''],
      kp_From = [\<lparr>kf_Username = ''u'', kf_UsernameRegexMatch = False, kf_AuthorizedKeysData = '''', kf_AuthorizedKeysFile = '''',
                  kf_AuthorizedKeysSecret = '''', kf_HtpasswdData = ''h'', kf_HtpasswdFile = ''''\<rparr>],
      kp_To = \<lparr>kt_Username = '''', kt_Host = ''pod/con'', kt_PrivateKeySecret = '''', kt_PasswordSecret = '''', kt_KnownHostsData = ''''\<rparr>\<rparr>"



section \<open>Routing\<close>

lemma kube_listed:
  assumes "kube_listPipe K conn = Inr pipes" "fr \<in> set (concat pipes)"
  obtains ps p f where "k_list K = Inr ps" "p \<in> set ps" "f \<in> set (kp_From p)" "fr = kube_skel_from K p f"
  using assms by (auto simp: kube_listPipe_def kube_skel_pipe_def bind_res_eq_Inr)

interpretation kube_skel: skel_plugin "kube_listPipe K" for K
proof
  show "TestPassword fr = None \<longleftrightarrow> from_PublicKey fr \<noteq> None"
    if "kube_listPipe K conn = Inr pipes" "fr \<in> set (concat pipes)" for conn pipes fr
    by (rule kube_listed [OF that]) (simp add: kube_skel_from_def)
  show "to_OverridePassword to = None \<longleftrightarrow> to_PrivateKey to \<noteq> None"
    if l: "kube_listPipe K conn = Inr pipes" "fr \<in> set (concat pipes)" and m: "MatchConn fr conn = Inr (Some to)" for conn pipes fr to
    by (rule kube_listed [OF l])
      (use m in \<open>auto simp: kube_skel_from_def kube_MatchConn_def kube_skel_to_def bind_res_eq_Inr Let_def split: if_splits\<close>)
qed

text \<open>Where a match leads.\<close>

text \<open>The upstream \<open>u\<close> is the one that pipe \<open>p\<close> names for the user.\<close>

definition kube_reached :: "kube_env \<Rightarrow> kube_pipe \<Rightarrow> kube_from \<Rightarrow> string \<Rightarrow> upstream \<Rightarrow> bool" where
  "kube_reached K p f user u \<longleftrightarrow>
     (\<exists>target. kube_matched K p f user = Inr (True, target) \<and> UpUserName u = (if target = '''' then user else target)) \<and>
     (if isKubectlExecEnabled p
       then \<exists>k h. k_register K p = Inr (k, h) \<and> (h \<noteq> '''' \<longrightarrow> SplitHostPortForSSH h = (Host u, Port u, None))
       else SplitHostPortForSSH (kt_Host (kp_To p)) = (Host u, Port u, None) \<and> k_decode K (kt_KnownHostsData (kp_To p)) = Inr (KnownHostsData u))"

lemma kube_match:
  assumes "kube_MatchConn K p f conn = Inr (Some to)" "skel_createUpstream conn to pw = Inr u"
  shows "kube_reached K p f (UserName conn) u"
proof -
  obtain target ov where t: "kube_matched K p f (UserName conn) = Inr (True, target)" "to = kube_skel_to K p target ov"
    and ov: "if isKubectlExecEnabled p then (\<exists>kh. k_register K p = Inr kh \<and> ov = Some kh) else ov = None"
    using assms(1) by (auto simp: kube_MatchConn_def bind_res_eq_Inr split: if_splits)
  note h = createUpstream_host [OF assms(2)]
  have "UpUserName u = (if target = '''' then UserName conn else target)"
    using h(2) t(2) by (simp add: kube_skel_to_def Let_def)
  moreover have "if isKubectlExecEnabled p
       then \<exists>k h. k_register K p = Inr (k, h) \<and> (h \<noteq> '''' \<longrightarrow> SplitHostPortForSSH h = (Host u, Port u, None))
       else SplitHostPortForSSH (kt_Host (kp_To p)) = (Host u, Port u, None) \<and> k_decode K (kt_KnownHostsData (kp_To p)) = Inr (KnownHostsData u)"
    using ov h(1,3) t(2) by (auto simp: kube_skel_to_def Let_def split: if_splits)
  ultimately show ?thesis
    using t(1) by (simp add: kube_reached_def)
qed

lemma htpasswd_loop_True:
  "htpasswd_loop K user password ds matched = Inr True \<Longrightarrow>
     matched \<or> (\<exists>d \<in> set ds. \<exists>match. k_htpasswd K d = Inr match \<and> match user password)"
proof (induction ds arbitrary: matched)
  case (Cons d ds)
  then obtain match where m: "k_htpasswd K d = Inr match" "htpasswd_loop K user password ds (if match user password then True else matched) = Inr True"
    by (auto simp: bind_res_eq_Inr)
  show ?case
    using Cons.IH [OF m(2)] m(1) by (cases "match user password") auto
qed simp

lemma kube_password_tested:
  assumes "kube_TestPassword K f conn password = Inr True"
  obtains pwds where "loadStringAndFile K (kf_HtpasswdData f) (kf_HtpasswdFile f) = Inr pwds"
    "pwds = [] \<or> (\<exists>d \<in> set pwds. \<exists>match. k_htpasswd K d = Inr match \<and> match (UserName conn) (str password))"
  using assms htpasswd_loop_True by (fastforce simp: kube_TestPassword_def bind_res_eq_Inr)

lemma kube_routes_key:
  assumes "skel_PublicKeyCallback X (kube_listPipe K) conn cred = Some (Inr ou)"
  shows "\<exists>u ps p f. ou = Some u \<and> k_list K = Inr ps \<and> p \<in> set ps \<and> f \<in> set (kp_From p) \<and> by_public_key f
    \<and> kube_reached K p f (UserName conn) u \<and> (\<exists>data. kube_AuthorizedKeys K p f = Inr data \<and> listed X data cred)"
proof -
  obtain pubKey fr to u where k: "ParsePublicKey X cred = Inr pubKey" "cert_ok X conn pubKey"
    and m: "skel_match (kube_listPipe K) conn (verify_key X conn cred pubKey) = Some (Inr (fr, to))"
    and u: "skel_createUpstream conn to [] = Inr u" "ou = Some u"
    by (rule publickey_callback_accepts [OF assms])
  obtain pipes where l: "kube_listPipe K conn = Inr pipes" "fr \<in> set (concat pipes)" and a: "accepts conn (verify_key X conn cred pubKey) fr to"
    by (rule skel_match_mem [OF m])
  obtain ps p f where p: "k_list K = Inr ps" "p \<in> set ps" "f \<in> set (kp_From p)" "fr = kube_skel_from K p f"
    by (rule kube_listed [OF l])
  have "key_allowed X conn cred fr"
    using a verify_key_allowed [OF k] by (simp add: accepts_def)
  then have keys: "by_public_key f" "\<exists>data. kube_AuthorizedKeys K p f = Inr data \<and> listed X data cred"
    using p(4) by (auto simp: key_allowed_def kube_skel_from_def not_listed_Nil split: if_splits)
  have "kube_MatchConn K p f conn = Inr (Some to)"
    using a p(4) by (simp add: accepts_def kube_skel_from_def)
  from kube_match [OF this u(1)] show ?thesis
    using keys p u(2) by blast
qed

lemma kube_routes_password:
  assumes "skel_PasswordCallback (kube_listPipe K) conn cred = Some (Inr ou)"
  shows "\<exists>u ps p f. ou = Some u \<and> k_list K = Inr ps \<and> p \<in> set ps \<and> f \<in> set (kp_From p) \<and> \<not> by_public_key f
    \<and> kube_reached K p f (UserName conn) u
    \<and> (\<exists>pwds. loadStringAndFile K (kf_HtpasswdData f) (kf_HtpasswdFile f) = Inr pwds
          \<and> (pwds = [] \<or> (\<exists>d \<in> set pwds. \<exists>match. k_htpasswd K d = Inr match \<and> match (UserName conn) (str cred))))"
proof -
  obtain fr to u where m: "skel_match (kube_listPipe K) conn (verify_password conn cred) = Some (Inr (fr, to))"
    and u: "skel_createUpstream conn to cred = Inr u" "ou = Some u"
    by (rule skel_password_accepts [OF assms])
  obtain pipes where l: "kube_listPipe K conn = Inr pipes" "fr \<in> set (concat pipes)" and a: "accepts conn (verify_password conn cred) fr to"
    by (rule skel_match_mem [OF m])
  obtain ps p f where p: "k_list K = Inr ps" "p \<in> set ps" "f \<in> set (kp_From p)" "fr = kube_skel_from K p f"
    by (rule kube_listed [OF l])
  have t: "\<not> by_public_key f" "kube_TestPassword K f conn cred = Inr True" "kube_MatchConn K p f conn = Inr (Some to)"
    using a p(4) by (auto simp: accepts_def verify_password_def kube_skel_from_def split: if_splits)
  obtain pwds where pw: "loadStringAndFile K (kf_HtpasswdData f) (kf_HtpasswdFile f) = Inr pwds"
    "pwds = [] \<or> (\<exists>d \<in> set pwds. \<exists>match. k_htpasswd K d = Inr match \<and> match (UserName conn) (str cred))"
    by (rule kube_password_tested [OF t(2)])
  from kube_match [OF t(3) u(1)] show ?thesis
    using t(1) pw p u(2) by blast
qed

text \<open>
  C13: the kubernetes plugin sends a client only where a pipe resource says.  If it answers a password or a key with an upstream, some pipe has a \<open>from\<close> that
  matches the user; the upstream is the user and host of that pipe, verified against its known hosts, or the local bridge if the pipe opens a shell in a pod.
  A key is accepted only if it is listed in the keys of that \<open>from\<close>, never by a certificate; a password only if no keys are configured there and, when password
  files are configured, one of them has the user with that password.
\<close>

theorem kube_routes_as_specified:
  assumes "(if byKey then skel_PublicKeyCallback X (kube_listPipe K) conn cred
            else skel_PasswordCallback (kube_listPipe K) conn cred) = Some (Inr ou)"
  shows "\<exists>u ps p f. ou = Some u \<and> k_list K = Inr ps \<and> p \<in> set ps \<and> f \<in> set (kp_From p) \<and> by_public_key f = byKey
    \<and> kube_reached K p f (UserName conn) u
    \<and> (if byKey then \<exists>data. kube_AuthorizedKeys K p f = Inr data \<and> listed X data cred
       else \<exists>pwds. loadStringAndFile K (kf_HtpasswdData f) (kf_HtpasswdFile f) = Inr pwds
              \<and> (pwds = [] \<or> (\<exists>d \<in> set pwds. \<exists>match. k_htpasswd K d = Inr match \<and> match (UserName conn) (str cred))))"
proof (cases byKey)
  case True
  then show ?thesis
    using kube_routes_key [of X K conn cred ou] assms by simp
next
  case False
  then show ?thesis
    using kube_routes_password [of K conn cred ou] assms by simp
qed

definition demo_kube :: kube_env where
  "demo_kube = \<lparr>k_list = Inr [demo_kube_pipe], k_secret = \<lambda>_ _. Inl (Ext ''secret''), k_decode = \<lambda>_. Inr [7], k_readfile = \<lambda>_. Inr [],
     k_compile = \<lambda>_. Inl (Ext ''regexp''), k_htpasswd = \<lambda>_. Inr (\<lambda>user password. password = ''a''),
     k_register = \<lambda>_. Inr (''key'', ''127.0.0.1:1'')\<rparr>"

theorem kube_routes_as_specified_witness:
  "\<exists>u. skel_PasswordCallback (kube_listPipe demo_kube) demo_meta (bytes_of ''a'') = Some (Inr (Some u))
    \<and> SplitHostPortForSSH ''127.0.0.1:1'' = (Host u, Port u, None)"
proof -
  let ?r = "skel_PasswordCallback (kube_listPipe demo_kube) demo_meta (bytes_of ''a'')"
  have "case ?r of Some (Inr _) \<Rightarrow> True | _ \<Rightarrow> False"
    by code_simp
  then obtain ou where ou: "?r = Some (Inr ou)"
    by (auto split: option.splits sum.splits)
  have "(if False then skel_PublicKeyCallback demo_skel_ssh (kube_listPipe demo_kube) demo_meta (bytes_of ''a'') else ?r) = Some (Inr ou)"
    using ou by simp
  from kube_routes_as_specified [OF this] obtain u ps p f where u: "ou = Some u" "k_list demo_kube = Inr ps" "p \<in> set ps"
    "kube_reached demo_kube p f (UserName demo_meta) u"
    by (elim exE conjE)
  have p: "p = demo_kube_pipe"
    using u(2,3) by (auto simp: demo_kube_def)
  have "isKubectlExecEnabled demo_kube_pipe"
    by code_simp
  then show ?thesis
    using u(1,4) p ou by (auto simp: kube_reached_def demo_kube_def)
qed

end
