(* ===== verification/Lua_Plugin.thy ===== *)
theory Lua_Plugin
  imports Plugin_Server Go_Path "HOL-Library.AList"
begin

text \<open>
  The lua plugin (\<^verbatim>\<open>plugin/lua/lua.go\<close>): callbacks that run functions of a script.

  The interpreter is a third-party package and a parameter, \<open>lua_rt\<close>: how a file is loaded, what a global variable holds, and what a protected call of a
  global function does to the interpreter's state \<open>'s\<close> and returns.  A number is represented by its text; tables are plain tables without a metatable, as a
  list of their entries in the order in which they are visited.  The mutexes of the plugin are part of its state; an operation that waits for a mutex ends
  in \<open>Waits\<close>, with the mutexes it holds at that moment.
\<close>

section \<open>Values of the interpreter\<close>

datatype lvalue =
    LNil
  | LBool bool
  | LNumber string
  | LString string
  | LTable "(lvalue \<times> lvalue) list"
  | LOther string

fun lua_type :: "lvalue \<Rightarrow> string" where
  "lua_type LNil = ''nil''"
| "lua_type (LBool _) = ''boolean''"
| "lua_type (LNumber _) = ''number''"
| "lua_type (LString _) = ''string''"
| "lua_type (LTable _) = ''table''"
| "lua_type (LOther t) = t"

definition raw_get :: "(lvalue \<times> lvalue) list \<Rightarrow> lvalue \<Rightarrow> lvalue" where
  "raw_get t k = (case map_of t k of None \<Rightarrow> LNil | Some v \<Rightarrow> v)"

definition GetField :: "(lvalue \<times> lvalue) list \<Rightarrow> string \<Rightarrow> lvalue" where
  "GetField t k = raw_get t (LString k)"

text \<open>The script while it handles keyboard-interactive: it returns, or calls the challenge function with some arguments.\<close>

datatype 's script =
    Finished 's "lvalue list res"
  | Challenge "lvalue list" "lvalue list res \<Rightarrow> 's script"

record 's lua_rt =
  rt_Error :: "goerr \<Rightarrow> string"
  os_Stat :: "string \<Rightarrow> goerr option"
  rt_package :: lvalue
  rt_DoFile :: "string \<Rightarrow> lvalue \<Rightarrow> 's res"
  rt_global :: "'s \<Rightarrow> string \<Rightarrow> lvalue"
  rt_call :: "string \<Rightarrow> lvalue list \<Rightarrow> 's \<Rightarrow> 's \<times> lvalue list res"
  rt_interact :: "string \<Rightarrow> lvalue list \<Rightarrow> 's \<Rightarrow> 's script"

text \<open>A call asks for a number of results; those the function did not return are nil.\<close>

definition result :: "lvalue list \<Rightarrow> nat \<Rightarrow> lvalue" where
  "result vs i = (if i < length vs then vs ! i else LNil)"

section \<open>The plugin and its states\<close>

record 's luaPlugin =
  ScriptPath :: string
  SearchPath :: string
  statePool :: "'s list option"
  sharedState :: "'s option"
  stateMu :: bool
  mu :: bool
  reloadMu :: bool


datatype ('p, 'a) run = Waits 'p | Crashes 'p | Done 'p 'a

definition luaModulePattern :: string where "luaModulePattern = ''?.lua''"
definition luaModuleInitPattern :: string where "luaModuleInitPattern = ''?/init.lua''"

definition lua_dir :: "string \<Rightarrow> string" where
  "lua_dir p = path_clean (case last_index_byte slash p of None \<Rightarrow> '''' | Some i \<Rightarrow> take (Suc i) p)"

definition custom_paths :: "string \<Rightarrow> string list" where
  "custom_paths search = (if search \<noteq> '''' then filter (\<lambda>e. e \<noteq> '''') (map trim_space (split_on CHR '';'' search)) else [])"

definition script_paths :: "string \<Rightarrow> string list" where
  "script_paths scriptPath =
     (if scriptPath \<noteq> '''' then [lua_dir scriptPath @ ''/'' @ luaModulePattern, lua_dir scriptPath @ ''/'' @ luaModuleInitPattern] else [])"

definition setLuaSearchPath :: "string \<Rightarrow> string \<Rightarrow> lvalue \<Rightarrow> lvalue" where
  "setLuaSearchPath search scriptPath package =
     (case package of
        LTable pkg \<Rightarrow>
          let currentPath = (case raw_get pkg (LString ''path'') of LString cur \<Rightarrow> cur | _ \<Rightarrow> '''');
              scriptPaths = script_paths scriptPath;
              customPaths = custom_paths search
          in if scriptPaths = [] \<and> customPaths = [] then package
             else LTable (AList.update (LString ''path'')
                    (LString (join '';'' (scriptPaths @ customPaths @ (if currentPath \<noteq> '''' then [currentPath] else [])))) pkg)
      | _ \<Rightarrow> package)"

definition newStateWithScriptPath :: "'s lua_rt \<Rightarrow> string \<Rightarrow> 's luaPlugin \<Rightarrow> 's res" where
  "newStateWithScriptPath R scriptPath p = rt_DoFile R scriptPath (setLuaSearchPath (SearchPath p) scriptPath (rt_package R))"

definition initPool :: "'s luaPlugin \<Rightarrow> 's luaPlugin" where
  "initPool p = p\<lparr>statePool := Some []\<rparr>"

text \<open>\<^verbatim>\<open>Get\<close> on the pool: an idle state, or what the function \<^verbatim>\<open>New\<close> of the pool makes, which takes the read lock of \<open>mu\<close>.\<close>

definition pool_New :: "'s lua_rt \<Rightarrow> 's luaPlugin \<Rightarrow> ('s luaPlugin, 's option) run" where
  "pool_New R p =
     (if mu p then Waits p
      else case newStateWithScriptPath R (ScriptPath p) p of Inl _ \<Rightarrow> Done p None | Inr L \<Rightarrow> Done p (Some L))"

definition getLuaState :: "'s lua_rt \<Rightarrow> 's luaPlugin \<Rightarrow> ('s luaPlugin, 's res) run" where
  "getLuaState R p =
     (if stateMu p then Waits p
      else case sharedState p of
             Some L \<Rightarrow> Done (p\<lparr>stateMu := True\<rparr>) (Inr L)
           | None \<Rightarrow>
               (case statePool p of
                  None \<Rightarrow> Crashes p
                | Some (L # Ls) \<Rightarrow> Done (p\<lparr>statePool := Some Ls\<rparr>) (Inr L)
                | Some [] \<Rightarrow>
                    (case pool_New R p of
                       Waits p' \<Rightarrow> Waits p'
                     | Crashes p' \<Rightarrow> Crashes p'
                     | Done p' None \<Rightarrow> Done p' (Inl (Errorf ''failed to get Lua state from pool'' []))
                     | Done p' (Some L) \<Rightarrow> Done p' (Inr L))))"

text \<open>The state is one object: what a call did to it is visible wherever the object is kept.\<close>

definition putLuaState :: "'s \<Rightarrow> 's luaPlugin \<Rightarrow> 's luaPlugin" where
  "putLuaState L p =
     (if sharedState p \<noteq> None then p\<lparr>sharedState := Some L, stateMu := False\<rparr>
      else p\<lparr>statePool := map_option ((#) L) (statePool p)\<rparr>)"

text \<open>The loop that empties a pool: it goes on until \<^verbatim>\<open>Get\<close> returns nil, which is only when \<^verbatim>\<open>New\<close> fails.\<close>

partial_function (option) drain :: "'s lua_rt \<Rightarrow> 's list \<Rightarrow> 's luaPlugin \<Rightarrow> ('s luaPlugin, unit) run option" where
  "drain R Ls p =
     (case Ls of
        L # Ls' \<Rightarrow> drain R Ls' p
      | [] \<Rightarrow>
          (case pool_New R p of
             Waits p' \<Rightarrow> Some (Waits p')
           | Crashes p' \<Rightarrow> Some (Crashes p')
           | Done p' None \<Rightarrow> Some (Done p' ())
           | Done p' (Some L) \<Rightarrow> drain R [] p'))"

definition reload_unlock :: "'s luaPlugin \<Rightarrow> 's luaPlugin" where
  "reload_unlock p = p\<lparr>mu := False, reloadMu := False\<rparr>"

definition reloadScript :: "'s lua_rt \<Rightarrow> 's luaPlugin \<Rightarrow> ('s luaPlugin, unit res) run option" where
  "reloadScript R p =
     (if reloadMu p then Some (Waits p)
      else
        let p1 = p\<lparr>reloadMu := True\<rparr>
        in if mu p1 then Some (Waits p1)
           else
             let p2 = p1\<lparr>mu := True\<rparr>
             in case os_Stat R (ScriptPath p2) of
                  Some e \<Rightarrow> Some (Done (reload_unlock p2) (Inl (Wrapf ''lua script not found: %w'' [] e)))
                | None \<Rightarrow>
                    (case newStateWithScriptPath R (ScriptPath p2) p2 of
                       Inl e \<Rightarrow> Some (Done (reload_unlock p2) (Inl (Wrapf ''failed to reload lua script: %w'' [] e)))
                     | Inr testState \<Rightarrow>
                         (case statePool p2 of
                            None \<Rightarrow> Some (Crashes (reload_unlock (initPool p2)))
                          | Some old \<Rightarrow>
                              (case drain R old (initPool p2) of
                                 None \<Rightarrow> None
                               | Some (Waits p3) \<Rightarrow> Some (Waits p3)
                               | Some (Crashes p3) \<Rightarrow> Some (Crashes (reload_unlock p3))
                               | Some (Done p3 _) \<Rightarrow> Some (Done (reload_unlock p3) (Inr ()))))))"

section \<open>Configuration\<close>

definition lua_callbacks :: "string list" where
  "lua_callbacks =
     [''sshpiper_on_noauth'', ''sshpiper_on_password'', ''sshpiper_on_publickey'', ''sshpiper_on_keyboard_interactive'',
      ''sshpiper_on_new_connection'', ''sshpiper_on_next_auth_methods'', ''sshpiper_on_upstream_auth_failure'', ''sshpiper_on_banner'',
      ''sshpiper_on_verify_hostkey'', ''sshpiper_on_pipe_create_error'', ''sshpiper_on_pipe_start'', ''sshpiper_on_pipe_error'']"

definition is_function :: "lvalue \<Rightarrow> bool" where
  "is_function v \<longleftrightarrow> v = LOther ''function''"

text \<open>The configuration is the list of the callbacks that are installed; each stands for the handler of that name below.\<close>

definition CreateConfig :: "'s lua_rt \<Rightarrow> 's luaPlugin \<Rightarrow> 's luaPlugin \<times> string list res" where
  "CreateConfig R p =
     (case os_Stat R (ScriptPath p) of
        Some e \<Rightarrow> (p, Inl (Wrapf ''lua script not found: %w'' [] e))
      | None \<Rightarrow>
          (case newStateWithScriptPath R (ScriptPath p) p of
             Inl e \<Rightarrow> (p, Inl (Wrapf ''failed to load lua script: %w'' [] e))
           | Inr prime \<Rightarrow>
               let assigned = filter (\<lambda>n. is_function (rt_global R prime n)) lua_callbacks
               in if assigned = [] then
                    (p, Inl (Errorf ''no callbacks defined in Lua script (must define at least one of: %s)'' [join '', '' lua_callbacks]))
                  else ((initPool p)\<lparr>sharedState := Some prime\<rparr>, Inr assigned)))"

section \<open>Calls into the script\<close>

definition createConnTable :: "conn_meta \<Rightarrow> lvalue" where
  "createConnTable conn =
     LTable [(LString ''sshpiper_user'', LString (UserName conn)), (LString ''sshpiper_remote_addr'', LString (FromAddr conn)),
             (LString ''sshpiper_unique_id'', LString (UniqId conn))]"

text \<open>The parts that every handler has: take the state, look the function up, call it, give the state back.\<close>

definition with_state :: "'s lua_rt \<Rightarrow> ('s \<Rightarrow> 's \<times> 'a res) \<Rightarrow> 's luaPlugin \<Rightarrow> ('s luaPlugin, 'a res) run" where
  "with_state R f p =
     (case getLuaState R p of
        Waits p' \<Rightarrow> Waits p'
      | Crashes p' \<Rightarrow> Crashes p'
      | Done p' (Inl e) \<Rightarrow> Done p' (Inl e)
      | Done p' (Inr L) \<Rightarrow> (case f L of (L', r) \<Rightarrow> Done (putLuaState L' p') r))"

definition call_global :: "'s lua_rt \<Rightarrow> string \<Rightarrow> lvalue list \<Rightarrow> 's \<Rightarrow> 's \<times> lvalue list res" where
  "call_global R name args L =
     (if rt_global R L name = LNil then (L, Inl (Errorf (name @ '' function not defined in Lua script'') []))
      else case rt_call R name args L of
             (L', Inl e) \<Rightarrow> (L', Inl (Wrapf (''lua error in '' @ name @ '': %w'') [] e))
           | (L', Inr vs) \<Rightarrow> (L', Inr vs))"

definition handle :: "'s lua_rt \<Rightarrow> string \<Rightarrow> lvalue list \<Rightarrow> (lvalue list \<Rightarrow> 'a res) \<Rightarrow> 's luaPlugin \<Rightarrow> ('s luaPlugin, 'a res) run" where
  "handle R name args f = with_state R (\<lambda>L. case call_global R name args L of (L', r) \<Rightarrow> (L', bind_res r f))"

definition rejected :: goerr where "rejected = Errorf ''connection rejected'' []"

fun new_connection_result :: "lvalue \<Rightarrow> unit res" where
  "new_connection_result LNil = Inr ()"
| "new_connection_result (LBool b) = (if b then Inr () else Inl rejected)"
| "new_connection_result (LString msg) = Inl (if msg = '''' then rejected else Errorf msg [])"
| "new_connection_result v = Inl (Errorf ''unexpected return type from sshpiper_on_new_connection: %s'' [lua_type v])"

definition handleNewConnection :: "'s lua_rt \<Rightarrow> conn_meta \<Rightarrow> 's luaPlugin \<Rightarrow> ('s luaPlugin, unit res) run" where
  "handleNewConnection R conn =
     handle R ''sshpiper_on_new_connection'' [createConnTable conn] (\<lambda>vs. new_connection_result (result vs 0))"

text \<open>The names at the indexes 1, 2, and so on, up to the first that is nil.\<close>

lemma itoa_nat_eq_iff [simp]: "itoa (int i) = itoa (int j) \<longleftrightarrow> i = j"
proof
  assume "itoa (int i) = itoa (int j)"
  then have "utoa (int i) = utoa (int j)"
    by (simp add: itoa_def)
  moreover have "parse_uint_loop (int i + int j) 0 (utoa (int i)) = Inr (int i)" "parse_uint_loop (int i + int j) 0 (utoa (int j)) = Inr (int j)"
    by (simp_all add: parse_uint_loop_utoa)
  ultimately have "(Inr (int i) :: int res) = Inr (int j)"
    by metis
  then show "i = j"
    by simp
qed simp

definition numbered :: "(lvalue \<times> lvalue) list \<Rightarrow> nat \<Rightarrow> nat set" where
  "numbered t i = {j. i \<le> j \<and> raw_get t (LNumber (itoa (int j))) \<noteq> LNil}"

lemma finite_numbered: "finite (numbered t i)"
proof (rule finite_imageD)
  have "(\<lambda>j. LNumber (itoa (int j))) ` numbered t i \<subseteq> fst ` set t"
    by (auto simp: numbered_def raw_get_def split: option.splits dest!: map_of_SomeD) force
  then show "finite ((\<lambda>j. LNumber (itoa (int j))) ` numbered t i)"
    by (rule finite_subset) simp
qed (auto simp: inj_on_def)

lemma numbered_less: "raw_get t (LNumber (itoa (int i))) \<noteq> LNil \<Longrightarrow> card (numbered t (Suc i)) < card (numbered t i)"
proof (rule psubset_card_mono [OF finite_numbered])
  assume "raw_get t (LNumber (itoa (int i))) \<noteq> LNil"
  then have "i \<in> numbered t i" "i \<notin> numbered t (Suc i)" "numbered t (Suc i) \<subseteq> numbered t i"
    by (auto simp: numbered_def)
  then show "numbered t (Suc i) \<subset> numbered t i"
    by blast
qed

function method_loop :: "(lvalue \<times> lvalue) list \<Rightarrow> nat \<Rightarrow> string list res" where
  "method_loop t i =
     (let value = raw_get t (LNumber (itoa (int i)))
      in if value = LNil then Inr []
         else case value of
                LString m \<Rightarrow> bind_res (method_loop t (Suc i)) (\<lambda>ms. Inr (m # ms))
              | v \<Rightarrow> Inl (Errorf ''expected auth method name as string, got %s'' [lua_type v]))"
  by auto

termination
  by (relation "measure (\<lambda>(t, i). card (numbered t i))") (auto intro: numbered_less)

declare method_loop.simps [simp del]

definition next_methods_result :: "lvalue \<Rightarrow> string list res" where
  "next_methods_result v =
     (case v of LTable t \<Rightarrow> method_loop t 1 | _ \<Rightarrow> Inl (Errorf ''expected table return value, got %s'' [lua_type v]))"

definition handleNextAuthMethods :: "'s lua_rt \<Rightarrow> conn_meta \<Rightarrow> 's luaPlugin \<Rightarrow> ('s luaPlugin, string list res) run" where
  "handleNextAuthMethods R conn =
     handle R ''sshpiper_on_next_auth_methods'' [createConnTable conn] (\<lambda>vs. next_methods_result (result vs 0))"

section \<open>Upstreams\<close>

fun env_loop :: "(lvalue \<times> lvalue) list \<Rightarrow> strmap \<Rightarrow> strmap res" where
  "env_loop [] env = Inr env"
| "env_loop ((k, v) # es) env =
     (case k of
        LString ks \<Rightarrow>
          (case v of
             LString vs \<Rightarrow> env_loop es (env(ks \<mapsto> vs))
           | _ \<Rightarrow> Inl (Errorf ''env value for %q must be a string, got %s'' [ks, lua_type v]))
      | _ \<Rightarrow> Inl (Errorf ''env keys must be strings, got %s'' [lua_type k]))"

definition table_user :: "conn_meta \<Rightarrow> (lvalue \<times> lvalue) list \<Rightarrow> string" where
  "table_user conn t = (case GetField t ''username'' of LNil \<Rightarrow> UserName conn | LString u \<Rightarrow> u | _ \<Rightarrow> '''')"

definition table_known_hosts :: "(lvalue \<times> lvalue) list \<Rightarrow> bytes res" where
  "table_known_hosts t =
     (case GetField t ''known_hosts_data'' of
        LNil \<Rightarrow> Inr []
      | LString kh \<Rightarrow> Inr (bytes_of kh)
      | _ \<Rightarrow> Inl (Errorf ''known_hosts_data must be a string'' []))"

definition table_env :: "(lvalue \<times> lvalue) list \<Rightarrow> strmap res" where
  "table_env t =
     (case GetField t ''env'' of
        LNil \<Rightarrow> Inr Map.empty
      | LTable e \<Rightarrow> env_loop e Map.empty
      | _ \<Rightarrow> Inl (Errorf ''env must be a table'' []))"

text \<open>The password of the client is \<open>None\<close> when it is nil; a password of the script that is not a string leaves the authentication unset.\<close>

definition table_auth :: "bytes option \<Rightarrow> (lvalue \<times> lvalue) list \<Rightarrow> upstream_auth option res" where
  "table_auth password t =
     (case GetField t ''private_key_data'' of
        LNil \<Rightarrow>
          (case GetField t ''password'' of
             LNil \<Rightarrow>
               (case password of
                  Some pw \<Rightarrow> Inr (Some (CreatePasswordAuth pw))
                | None \<Rightarrow> Inl (Errorf ''no authentication method specified'' []))
           | LString pwd \<Rightarrow> Inr (Some (CreatePasswordAuth (bytes_of pwd)))
           | _ \<Rightarrow> Inr None)
      | LString pk \<Rightarrow>
          if pk = '''' then Inl (Errorf ''private key data is empty'' [])
          else Inr (Some (CreatePrivateKeyAuth (bytes_of pk) [[]]))
      | _ \<Rightarrow> Inl (Errorf ''private_key_data must be a string'' []))"

definition parseUpstreamTable :: "lvalue \<Rightarrow> conn_meta \<Rightarrow> bytes option \<Rightarrow> upstream res" where
  "parseUpstreamTable value conn password =
     (case value of
        LTable t \<Rightarrow>
          (case GetField t ''host'' of
             LNil \<Rightarrow> Inl (Errorf ''host field is required in upstream table'' [])
           | LString hostStr \<Rightarrow>
               (case SplitHostPortForSSH hostStr of
                  (host, port, Some e) \<Rightarrow> Inl (Wrapf ''invalid host:port format: %w'' [] e)
                | (host, port, None) \<Rightarrow>
                    bind_res (table_known_hosts t) (\<lambda>kh.
                    bind_res (table_env t) (\<lambda>env.
                    bind_res (table_auth password t) (\<lambda>auth.
                      Inr (empty_upstream\<lparr>Uri := ''tcp://'' @ host @ '':'' @ itoa port, UpUserName := table_user conn t,
                             KnownHostsData := kh, UpEnv := env, Auth := auth\<rparr>)))))
           | _ \<Rightarrow> Inl (Errorf ''host must be a string'' []))
      | _ \<Rightarrow> Inl (Errorf ''expected table return value, got %s'' [lua_type value]))"

definition upstream_result :: "conn_meta \<Rightarrow> bytes option \<Rightarrow> lvalue \<Rightarrow> upstream res" where
  "upstream_result conn password ret =
     (if ret = LNil then Inl (Errorf ''authentication failed: no upstream returned'' []) else parseUpstreamTable ret conn password)"

text \<open>An empty field of a message arrives as nil.\<close>

definition handlePassword :: "'s lua_rt \<Rightarrow> conn_meta \<Rightarrow> bytes \<Rightarrow> 's luaPlugin \<Rightarrow> ('s luaPlugin, upstream res) run" where
  "handlePassword R conn password =
     handle R ''sshpiper_on_password'' [createConnTable conn, LString (str password)]
       (\<lambda>vs. upstream_result conn (if password = [] then None else Some password) (result vs 0))"

definition handlePublicKey :: "'s lua_rt \<Rightarrow> conn_meta \<Rightarrow> bytes \<Rightarrow> 's luaPlugin \<Rightarrow> ('s luaPlugin, upstream res) run" where
  "handlePublicKey R conn key =
     handle R ''sshpiper_on_publickey'' [createConnTable conn, LString (str key)] (\<lambda>vs. upstream_result conn None (result vs 0))"

definition handleNoAuth :: "'s lua_rt \<Rightarrow> conn_meta \<Rightarrow> 's luaPlugin \<Rightarrow> ('s luaPlugin, upstream res) run" where
  "handleNoAuth R conn = handle R ''sshpiper_on_noauth'' [createConnTable conn] (\<lambda>vs. upstream_result conn None (result vs 0))"

section \<open>Keyboard-interactive\<close>

text \<open>
  The dialogue with the client, seen from outside: at each question, the state of the plugin while it waits for the answer.
\<close>

datatype 's dialog =
    DWaits "'s luaPlugin"
  | DCrashes "'s luaPlugin"
  | DDone "'s luaPlugin" "upstream res"
  | DAsk "'s luaPlugin" string string string bool "string res \<Rightarrow> 's dialog"

fun CheckString :: "lvalue \<Rightarrow> string option" where
  "CheckString (LString s) = Some s"
| "CheckString (LNumber s) = Some s"
| "CheckString _ = None"

fun CheckBool :: "lvalue \<Rightarrow> bool option" where
  "CheckBool (LBool b) = Some b"
| "CheckBool _ = None"

definition challenge_args :: "lvalue list \<Rightarrow> (string \<times> string \<times> string \<times> bool) option" where
  "challenge_args args =
     (case (CheckString (result args 0), CheckString (result args 1), CheckString (result args 2), CheckBool (result args 3)) of
        (Some user, Some instruction, Some question, Some echo) \<Rightarrow> Some (user, instruction, question, echo)
      | _ \<Rightarrow> None)"

definition challenge_result :: "'s lua_rt \<Rightarrow> string res \<Rightarrow> lvalue list" where
  "challenge_result R r = (case r of Inl e \<Rightarrow> [LNil, LString (rt_Error R e)] | Inr answer \<Rightarrow> [LString answer, LNil])"

primrec lua_dialog :: "'s lua_rt \<Rightarrow> conn_meta \<Rightarrow> 's luaPlugin \<Rightarrow> 's script \<Rightarrow> 's dialog" where
  "lua_dialog R conn p (Finished L r) =
     DDone (putLuaState L p)
       (case r of
          Inl e \<Rightarrow> Inl (Wrapf ''lua error in sshpiper_on_keyboard_interactive: %w'' [] e)
        | Inr vs \<Rightarrow> upstream_result conn None (result vs 0))"
| "lua_dialog R conn p (Challenge args k) =
     (case challenge_args args of
        None \<Rightarrow> lua_dialog R conn p (k (Inl (Ext ''bad argument'')))
      | Some (user, instruction, question, echo) \<Rightarrow>
          DAsk p user instruction question echo (\<lambda>a. lua_dialog R conn p (k (Inr (challenge_result R a)))))"

definition handleKeyboardInteractive :: "'s lua_rt \<Rightarrow> conn_meta \<Rightarrow> 's luaPlugin \<Rightarrow> 's dialog" where
  "handleKeyboardInteractive R conn p =
     (case getLuaState R p of
        Waits p' \<Rightarrow> DWaits p'
      | Crashes p' \<Rightarrow> DCrashes p'
      | Done p' (Inl e) \<Rightarrow> DDone p' (Inl e)
      | Done p' (Inr L) \<Rightarrow>
          if rt_global R L ''sshpiper_on_keyboard_interactive'' = LNil
          then DDone (putLuaState L p') (Inl (Errorf ''sshpiper_on_keyboard_interactive function not defined in Lua script'' []))
          else lua_dialog R conn p' (rt_interact R ''sshpiper_on_keyboard_interactive'' [createConnTable conn, LOther ''function''] L))"

section \<open>Host keys, banner and notices\<close>

definition hostkey_failed :: goerr where "hostkey_failed = Errorf ''host key verification failed'' []"

definition verify_result :: "lvalue \<Rightarrow> lvalue \<Rightarrow> unit res" where
  "verify_result res luaErr =
     (if luaErr \<noteq> LNil then
        Inl (case luaErr of LString msg \<Rightarrow> if msg = '''' then hostkey_failed else Errorf msg [] | _ \<Rightarrow> hostkey_failed)
      else if res = LBool True then Inr () else Inl hostkey_failed)"

definition handleVerifyHostKey ::
  "'s lua_rt \<Rightarrow> conn_meta \<Rightarrow> string \<Rightarrow> string \<Rightarrow> bytes \<Rightarrow> 's luaPlugin \<Rightarrow> ('s luaPlugin, unit res) run" where
  "handleVerifyHostKey R conn hostname netaddr key =
     handle R ''sshpiper_on_verify_hostkey'' [createConnTable conn, LString hostname, LString netaddr, LString (str key)]
       (\<lambda>vs. verify_result (result vs 0) (result vs 1))"

definition banner_of :: "lvalue res \<Rightarrow> string" where
  "banner_of r = (case r of Inr (LString v) \<Rightarrow> v | _ \<Rightarrow> '''')"

definition handleBanner :: "'s lua_rt \<Rightarrow> conn_meta \<Rightarrow> 's luaPlugin \<Rightarrow> ('s luaPlugin, string) run" where
  "handleBanner R conn p = map_run (\<lambda>p. p) banner_of (handle R ''sshpiper_on_banner'' [createConnTable conn] (\<lambda>vs. Inr (result vs 0)) p)"

text \<open>A notice returns nothing: what goes wrong is logged.\<close>

definition notice :: "'s lua_rt \<Rightarrow> string \<Rightarrow> lvalue list \<Rightarrow> 's luaPlugin \<Rightarrow> ('s luaPlugin, unit) run" where
  "notice R name args p = map_run (\<lambda>p. p) (\<lambda>_. ()) (handle R name args Inr p)"

definition err_msg :: "'s lua_rt \<Rightarrow> goerr option \<Rightarrow> lvalue" where
  "err_msg R e = LString (case e of None \<Rightarrow> '''' | Some err \<Rightarrow> rt_Error R err)"

definition lua_array :: "string list \<Rightarrow> lvalue" where
  "lua_array xs = LTable (map (\<lambda>i. (LNumber (itoa (int (Suc i))), LString (xs ! i))) [0..<length xs])"

definition handleUpstreamAuthFailure ::
  "'s lua_rt \<Rightarrow> conn_meta \<Rightarrow> string \<Rightarrow> goerr option \<Rightarrow> string list \<Rightarrow> 's luaPlugin \<Rightarrow> ('s luaPlugin, unit) run" where
  "handleUpstreamAuthFailure R conn meth callbackErr allowmethods =
     notice R ''sshpiper_on_upstream_auth_failure'' [createConnTable conn, LString meth, err_msg R callbackErr, lua_array allowmethods]"

definition handlePipeCreateError :: "'s lua_rt \<Rightarrow> string \<Rightarrow> goerr option \<Rightarrow> 's luaPlugin \<Rightarrow> ('s luaPlugin, unit) run" where
  "handlePipeCreateError R remoteAddr callbackErr = notice R ''sshpiper_on_pipe_create_error'' [LString remoteAddr, err_msg R callbackErr]"

definition handlePipeStart :: "'s lua_rt \<Rightarrow> conn_meta \<Rightarrow> 's luaPlugin \<Rightarrow> ('s luaPlugin, unit) run" where
  "handlePipeStart R conn = notice R ''sshpiper_on_pipe_start'' [createConnTable conn]"

definition handlePipeError :: "'s lua_rt \<Rightarrow> conn_meta \<Rightarrow> goerr option \<Rightarrow> 's luaPlugin \<Rightarrow> ('s luaPlugin, unit) run" where
  "handlePipeError R conn callbackErr = notice R ''sshpiper_on_pipe_error'' [createConnTable conn, err_msg R callbackErr]"

section \<open>Histories\<close>

text \<open>
  The daemon calls the callbacks in some order, and at some points the operator asks for a reload; the files may have changed by then, so a reload has its
  own \<open>lua_rt\<close>.  A reload that waits stays where it is while the callbacks go on.
\<close>

datatype 's lua_event =
    OnNewConnection conn_meta
  | OnNextAuthMethods conn_meta
  | OnNoAuth conn_meta
  | OnPassword conn_meta bytes
  | OnPublicKey conn_meta bytes
  | OnUpstreamAuthFailure conn_meta string "goerr option" "string list"
  | OnBanner conn_meta
  | OnVerifyHostKey conn_meta string string bytes
  | OnPipeCreateError string "goerr option"
  | OnPipeStart conn_meta
  | OnPipeError conn_meta "goerr option"
  | Reload "'s lua_rt"

fun is_reload :: "'s lua_event \<Rightarrow> bool" where
  "is_reload (Reload _) = True"
| "is_reload _ = False"

definition void :: "('p, 'a) run \<Rightarrow> ('p, unit) run option" where
  "void r = Some (map_run (\<lambda>p. p) (\<lambda>_. ()) r)"

fun lua_exec :: "'s lua_rt \<Rightarrow> 's lua_event \<Rightarrow> 's luaPlugin \<Rightarrow> ('s luaPlugin, unit) run option" where
  "lua_exec R (OnNewConnection c) p = void (handleNewConnection R c p)"
| "lua_exec R (OnNextAuthMethods c) p = void (handleNextAuthMethods R c p)"
| "lua_exec R (OnNoAuth c) p = void (handleNoAuth R c p)"
| "lua_exec R (OnPassword c pw) p = void (handlePassword R c pw p)"
| "lua_exec R (OnPublicKey c k) p = void (handlePublicKey R c k p)"
| "lua_exec R (OnUpstreamAuthFailure c m e as) p = void (handleUpstreamAuthFailure R c m e as p)"
| "lua_exec R (OnBanner c) p = void (handleBanner R c p)"
| "lua_exec R (OnVerifyHostKey c h a k) p = void (handleVerifyHostKey R c h a k p)"
| "lua_exec R (OnPipeCreateError a e) p = void (handlePipeCreateError R a e p)"
| "lua_exec R (OnPipeStart c) p = void (handlePipeStart R c p)"
| "lua_exec R (OnPipeError c e) p = void (handlePipeError R c e p)"
| "lua_exec R (Reload R') p = map_option (map_run (\<lambda>p. p) (\<lambda>_. ())) (reloadScript R' p)"

fun run_state :: "('p, 'a) run \<Rightarrow> 'p" where
  "run_state (Waits p) = p"
| "run_state (Crashes p) = p"
| "run_state (Done p _) = p"

lemma run_state_map [simp]: "run_state (map_run (\<lambda>p. p) g r) = run_state r"
  by (cases r) simp_all

definition lua_after :: "'s lua_rt \<Rightarrow> 's lua_event \<Rightarrow> 's luaPlugin \<Rightarrow> 's luaPlugin" where
  "lua_after R ev p = (case lua_exec R ev p of None \<Rightarrow> p | Some r \<Rightarrow> run_state r)"

text \<open>The call that an event makes, as a function of the state of the interpreter.\<close>

fun lua_calls :: "'s lua_rt \<Rightarrow> 's lua_event \<Rightarrow> 's \<Rightarrow> 's" where
  "lua_calls R (OnNewConnection c) = fst \<circ> call_global R ''sshpiper_on_new_connection'' [createConnTable c]"
| "lua_calls R (OnNextAuthMethods c) = fst \<circ> call_global R ''sshpiper_on_next_auth_methods'' [createConnTable c]"
| "lua_calls R (OnNoAuth c) = fst \<circ> call_global R ''sshpiper_on_noauth'' [createConnTable c]"
| "lua_calls R (OnPassword c pw) = fst \<circ> call_global R ''sshpiper_on_password'' [createConnTable c, LString (str pw)]"
| "lua_calls R (OnPublicKey c k) = fst \<circ> call_global R ''sshpiper_on_publickey'' [createConnTable c, LString (str k)]"
| "lua_calls R (OnUpstreamAuthFailure c m e as) =
     fst \<circ> call_global R ''sshpiper_on_upstream_auth_failure'' [createConnTable c, LString m, err_msg R e, lua_array as]"
| "lua_calls R (OnBanner c) = fst \<circ> call_global R ''sshpiper_on_banner'' [createConnTable c]"
| "lua_calls R (OnVerifyHostKey c h a k) =
     fst \<circ> call_global R ''sshpiper_on_verify_hostkey'' [createConnTable c, LString h, LString a, LString (str k)]"
| "lua_calls R (OnPipeCreateError a e) = fst \<circ> call_global R ''sshpiper_on_pipe_create_error'' [LString a, err_msg R e]"
| "lua_calls R (OnPipeStart c) = fst \<circ> call_global R ''sshpiper_on_pipe_start'' [createConnTable c]"
| "lua_calls R (OnPipeError c e) = fst \<circ> call_global R ''sshpiper_on_pipe_error'' [createConnTable c, err_msg R e]"
| "lua_calls R (Reload _) = (\<lambda>L. L)"

text \<open>The plugin after its configuration: one shared state, its mutex free, nothing in the pool.\<close>

definition lua_ready :: "'s \<Rightarrow> 's luaPlugin \<Rightarrow> bool" where
  "lua_ready L p \<longleftrightarrow> sharedState p = Some L \<and> \<not> stateMu p \<and> statePool p = Some []"

lemma with_state_ready:
  "lua_ready L p \<Longrightarrow> with_state R f p = Done (p\<lparr>sharedState := Some (fst (f L))\<rparr>) (snd (f L))"
  by (cases p) (auto simp: lua_ready_def with_state_def getLuaState_def putLuaState_def split: prod.splits)

lemma handle_ready:
  assumes "lua_ready L p"
  shows "handle R name args f p =
    Done (p\<lparr>sharedState := Some (fst (call_global R name args L))\<rparr>) (bind_res (snd (call_global R name args L)) f)"
  by (simp add: handle_def with_state_ready [OF assms] case_prod_beta)

lemmas lua_handlers =
  handleNewConnection_def handleNextAuthMethods_def handleNoAuth_def handlePassword_def handlePublicKey_def handleVerifyHostKey_def
  handleBanner_def notice_def handleUpstreamAuthFailure_def handlePipeCreateError_def handlePipeStart_def handlePipeError_def

lemma callback_ready:
  assumes "lua_ready L p" "\<not> is_reload ev"
  shows "lua_exec R ev p = Some (Done (p\<lparr>sharedState := Some (lua_calls R ev L)\<rparr>) ())"
  using assms(2) by (cases ev) (simp_all add: lua_handlers handle_ready [OF assms(1)] void_def)

lemma drain_waits: "mu p \<Longrightarrow> drain R Ls p = Some (Waits p)"
  by (induction Ls) (simp_all add: drain.simps pool_New_def)

text \<open>A reload of a script that loads never gets past its drain: the pool makes a new state for every \<^verbatim>\<open>Get\<close>, and for that waits for the lock the reload holds.\<close>

lemma reload_deadlock:
  assumes "lua_ready L p" "\<not> mu p" "\<not> reloadMu p" "os_Stat R (ScriptPath p) = None" "newStateWithScriptPath R (ScriptPath p) p = Inr L'"
  shows "reloadScript R p = Some (Waits (p\<lparr>mu := True, reloadMu := True\<rparr>))"
proof -
  have "newStateWithScriptPath R (ScriptPath p) (p\<lparr>reloadMu := True, mu := True\<rparr>) = Inr L'"
    using assms(5) by (simp add: newStateWithScriptPath_def)
  moreover have "initPool (p\<lparr>reloadMu := True, mu := True\<rparr>) = p\<lparr>mu := True, reloadMu := True\<rparr>"
    using assms(1) by (cases p) (simp add: initPool_def lua_ready_def)
  ultimately show ?thesis
    using assms by (simp add: reloadScript_def drain_waits lua_ready_def)
qed



lemma CreateConfig_ready:
  assumes "CreateConfig R p0 = (p, Inr names)" "\<not> stateMu p0"
  obtains L where "newStateWithScriptPath R (ScriptPath p0) p0 = Inr L" "p = p0\<lparr>statePool := Some [], sharedState := Some L\<rparr>"
    "names = filter (\<lambda>n. is_function (rt_global R L n)) lua_callbacks" "lua_ready L p"
  using assms by (auto simp: CreateConfig_def initPool_def lua_ready_def Let_def split: option.splits sum.splits if_splits)



definition demo_conn :: conn_meta where
  "demo_conn = \<lparr>UserName = ''u'', FromAddr = ''a'', UniqId = ''i'', Metadata = Map.empty\<rparr>"


lemma callbacks_keep:
  assumes "lua_ready L p" "\<forall>ev \<in> set evs. \<not> is_reload ev"
  shows "\<exists>L'. fold (lua_after R) evs p = p\<lparr>sharedState := Some L'\<rparr>"
  using assms
proof (induction evs arbitrary: L p)
  case Nil
  then show ?case
    by (cases p) (simp add: lua_ready_def)
next
  case (Cons ev evs)
  have "lua_after R ev p = p\<lparr>sharedState := Some (lua_calls R ev L)\<rparr>"
    using callback_ready [OF Cons.prems(1)] Cons.prems(2) by (simp add: lua_after_def)
  moreover have "lua_ready (lua_calls R ev L) (p\<lparr>sharedState := Some (lua_calls R ev L)\<rparr>)"
    using Cons.prems(1) by (simp add: lua_ready_def)
  ultimately show ?case
    using Cons.IH [of "lua_calls R ev L" "p\<lparr>sharedState := Some (lua_calls R ev L)\<rparr>"] Cons.prems(2) by auto
qed

text \<open>
  A reload never completes.  In a configured plugin, after any callbacks, a reload of a script that exists and loads waits for ever, with both locks of the
  reload held: the pool makes a new state at every \<^verbatim>\<open>Get\<close>, and for that needs the lock that the reload itself holds.
\<close>

lemma lua_reload_never_completes:
  assumes "CreateConfig R p0 = (p, Inr names)" "\<not> stateMu p0" "\<not> mu p0" "\<not> reloadMu p0" "\<forall>ev \<in> set evs. \<not> is_reload ev"
    and "os_Stat R' (ScriptPath p0) = None" "newStateWithScriptPath R' (ScriptPath p0) p0 = Inr L'"
  shows "\<exists>p'. reloadScript R' (fold (lua_after R) evs p) = Some (Waits p') \<and> mu p' \<and> reloadMu p'"
proof -
  obtain L where p: "p = p0\<lparr>statePool := Some [], sharedState := Some L\<rparr>" "lua_ready L p"
    by (rule CreateConfig_ready [OF assms(1,2)])
  obtain L1 where q: "fold (lua_after R) evs p = p\<lparr>sharedState := Some L1\<rparr>"
    using callbacks_keep [OF p(2) assms(5)] by blast
  have "lua_ready L1 (p\<lparr>sharedState := Some L1\<rparr>)"
    using p(2) by (simp add: lua_ready_def)
  from reload_deadlock [OF this, of R' L'] show ?thesis
    using assms(3,4,6,7) p(1) q by (simp add: newStateWithScriptPath_def)
qed

lemma with_state_locked: "stateMu p \<Longrightarrow> with_state R f p = Waits p"
  by (simp add: with_state_def getLuaState_def)

lemma callback_locked:
  assumes "stateMu p" "\<not> is_reload ev"
  shows "lua_exec R ev p = Some (Waits p)"
  using assms(2) by (cases ev) (simp_all add: lua_handlers handle_def with_state_locked [OF assms(1)] void_def)

text \<open>The states in which a dialogue asks, and those in which it ends, for all answers.\<close>

primrec asks :: "('s luaPlugin \<Rightarrow> bool) \<Rightarrow> 's dialog \<Rightarrow> bool" where
  "asks P (DWaits p) \<longleftrightarrow> True"
| "asks P (DCrashes p) \<longleftrightarrow> True"
| "asks P (DDone p r) \<longleftrightarrow> True"
| "asks P (DAsk p u i q e k) \<longleftrightarrow> P p \<and> (\<forall>a. asks P (k a))"

primrec ends :: "('s luaPlugin \<Rightarrow> bool) \<Rightarrow> 's dialog \<Rightarrow> bool" where
  "ends P (DWaits p) \<longleftrightarrow> False"
| "ends P (DCrashes p) \<longleftrightarrow> False"
| "ends P (DDone p r) \<longleftrightarrow> P p"
| "ends P (DAsk p u i q e k) \<longleftrightarrow> (\<forall>a. ends P (k a))"

lemma lua_dialog_asks: "asks (\<lambda>p'. p' = p) (lua_dialog R conn p s)"
  by (induction s) (auto split: option.splits)

lemma lua_dialog_ends:
  assumes "sharedState p \<noteq> None"
  shows "ends (\<lambda>p'. \<not> stateMu p' \<and> sharedState p' \<noteq> None) (lua_dialog R conn p s)"
  using assms by (induction s) (auto simp: putLuaState_def split: option.splits)

lemma asks_mono: "asks P d \<Longrightarrow> (\<And>p. P p \<Longrightarrow> Q p) \<Longrightarrow> asks Q d"
  by (induction d) auto

text \<open>
  A question blocks the plugin.  While a keyboard-interactive client has not answered a question of the script, every other callback waits, for all connections;
  whatever the answers are, the dialogue releases the state when it ends.
\<close>

lemma lua_prompt_blocks_others:
  assumes "lua_ready L p"
  shows "asks (\<lambda>p'. \<forall>ev. \<not> is_reload ev \<longrightarrow> lua_exec R ev p' = Some (Waits p')) (handleKeyboardInteractive R conn p)"
    and "ends (\<lambda>p'. \<not> stateMu p' \<and> sharedState p' \<noteq> None) (handleKeyboardInteractive R conn p)"
proof -
  have g: "getLuaState R p = Done (p\<lparr>stateMu := True\<rparr>) (Inr L)"
    using assms by (simp add: lua_ready_def getLuaState_def)
  have s: "sharedState (p\<lparr>stateMu := True\<rparr>) \<noteq> None"
    using assms by (simp add: lua_ready_def)
  show "asks (\<lambda>p'. \<forall>ev. \<not> is_reload ev \<longrightarrow> lua_exec R ev p' = Some (Waits p')) (handleKeyboardInteractive R conn p)"
    using asks_mono [OF lua_dialog_asks [of "p\<lparr>stateMu := True\<rparr>"]] callback_locked [of "p\<lparr>stateMu := True\<rparr>"]
    by (simp add: handleKeyboardInteractive_def g)
  show "ends (\<lambda>p'. \<not> stateMu p' \<and> sharedState p' \<noteq> None) (handleKeyboardInteractive R conn p)"
    using lua_dialog_ends [OF s] s by (simp add: handleKeyboardInteractive_def g putLuaState_def)
qed

section \<open>Upstream tables\<close>

fun auth_fields :: "upstream_auth \<Rightarrow> (lvalue \<times> lvalue) list" where
  "auth_fields (PasswordAuth pw) = [(LString ''password'', LString pw)]"
| "auth_fields (PrivateKeyAuth k ca) = [(LString ''private_key_data'', LString (str k))]"
| "auth_fields _ = []"

fun expressible :: "upstream_auth \<Rightarrow> bool" where
  "expressible (PasswordAuth pw) = True"
| "expressible (PrivateKeyAuth k ca) \<longleftrightarrow> k \<noteq> [] \<and> ca = []"
| "expressible _ = False"

definition upstream_table :: "string \<Rightarrow> int \<Rightarrow> string \<Rightarrow> bytes \<Rightarrow> (string \<times> string) list \<Rightarrow> upstream_auth \<Rightarrow> lvalue" where
  "upstream_table h port user kh env auth =
     LTable ([(LString ''host'', LString (join_host_port h (itoa port))), (LString ''username'', LString user),
              (LString ''known_hosts_data'', LString (str kh)), (LString ''env'', LTable (map (\<lambda>(k, v). (LString k, LString v)) env))]
             @ auth_fields auth)"

lemma env_loop_strings: "distinct (map fst env) \<Longrightarrow> fst ` set env \<inter> dom m = {} \<Longrightarrow>
  env_loop (map (\<lambda>(k, v). (LString k, LString v)) env) m = Inr (m ++ map_of env)"
proof (induction env arbitrary: m)
  case (Cons e env)
  obtain k v where e: "e = (k, v)"
    by (cases e)
  have "env_loop (map (\<lambda>(k, v). (LString k, LString v)) env) (m(k \<mapsto> v)) = Inr (m(k \<mapsto> v) ++ map_of env)"
  proof (rule Cons.IH)
    show "distinct (map fst env)"
      using Cons.prems(1) by simp
    have "k \<notin> fst ` set env" "fst ` set env \<inter> dom m = {}"
      using Cons.prems by (auto simp: e)
    then show "fst ` set env \<inter> dom (m(k \<mapsto> v)) = {}"
      by simp
  qed
  moreover have "m(k \<mapsto> v) ++ map_of env = m ++ map_of (e # env)"
  proof -
    have "map_of env k = None"
      using Cons.prems(1) by (simp add: e map_of_eq_None_iff)
    then show ?thesis
      by (auto simp: e map_add_def fun_eq_iff split: option.splits)
  qed
  moreover have "env_loop (map (\<lambda>(k, v). (LString k, LString v)) (e # env)) m = env_loop (map (\<lambda>(k, v). (LString k, LString v)) env) (m(k \<mapsto> v))"
    by (simp add: e)
  ultimately show ?case
    by metis
qed simp

text \<open>
  C36: an upstream survives its description as a table.  For a host name or IPv4 address, a port, a user, known hosts, an environment and a password or private key,
  the table with those fields is parsed to the upstream with exactly that address, user, known hosts, environment and credential, whoever connects and whatever
  password the client sent.
\<close>

theorem lua_upstream_round_trip:
  assumes "h \<noteq> ''''" "set h \<inter> {CHR '':'', CHR ''['', CHR '']''} = {}" "0 < port" "port < 2 ^ 31" "distinct (map fst env)" "expressible auth"
  shows "parseUpstreamTable (upstream_table h port user kh env auth) conn password =
    Inr (empty_upstream\<lparr>Uri := GetOrGenerateUri (empty_upstream\<lparr>Host := h, Port := port\<rparr>), UpUserName := user, KnownHostsData := kh,
           UpEnv := map_of env, Auth := Some auth\<rparr>)"
proof -
  have s: "SplitHostPortForSSH (join_host_port h (itoa port)) = (h, port, None)"
    using assms by (intro SplitHostPortForSSH_port) auto
  have e: "env_loop (map (\<lambda>(k, v). (LString k, LString v)) env) Map.empty = Inr (map_of env)"
    using env_loop_strings [OF assms(5), of Map.empty] by simp
  have j: "join_host_port h (itoa port) = h @ '':'' @ itoa port"
    using assms(2) by (auto simp: join_host_port_def)
  show ?thesis
    using assms(1,3,4,6) s e by (cases auth)
      (auto simp: parseUpstreamTable_def upstream_table_def GetField_def raw_get_def table_known_hosts_def table_env_def table_auth_def table_user_def
        GetOrGenerateUri_def empty_upstream_def CreatePasswordAuth_def CreatePrivateKeyAuth_def j)
qed

theorem lua_upstream_round_trip_witness:
  "parseUpstreamTable (upstream_table ''h'' 22 ''u'' [7] [(''A'', ''1'')] (PrivateKeyAuth [1] [])) demo_conn None =
    Inr (empty_upstream\<lparr>Uri := ''tcp://h:22'', UpUserName := ''u'', KnownHostsData := [7], UpEnv := [''A'' \<mapsto> ''1''], Auth := Some (PrivateKeyAuth [1] [])\<rparr>)"
proof -
  have "GetOrGenerateUri (empty_upstream\<lparr>Host := ''h'', Port := 22\<rparr>) = ''tcp://h:22''"
    by code_simp
  then show ?thesis
    using lua_upstream_round_trip [of "''h''" 22 "[(''A'', ''1'')]" "PrivateKeyAuth [1] []" "''u''" "[7]" demo_conn None] by simp
qed

text \<open>
  An IPv6 address of a table loses its brackets: the URI it becomes has a host and port part that the dialler cannot split, whereas the URI that is generated from
  the same host and port has one.
\<close>

lemma lua_ipv6_target_undialable:
  "(case parseUpstreamTable (LTable [(LString ''host'', LString ''[::1]:22''), (LString ''password'', LString ''p'')]) demo_conn None of
      Inl _ \<Rightarrow> False
    | Inr u \<Rightarrow> Uri u = ''tcp://::1:22'') \<and> is_err (split_host_port ''::1:22'')
    \<and> GetOrGenerateUri (empty_upstream\<lparr>Host := ''::1'', Port := 22\<rparr>) = ''tcp://[::1]:22''"
  by code_simp

text \<open>A user name or password in a table that is not a string is dropped without an error, although other fields of a wrong type are refused.\<close>

lemma lua_wrong_types_dropped:
  "(case parseUpstreamTable (LTable [(LString ''host'', LString ''h''), (LString ''username'', LNumber ''1''), (LString ''password'', LNumber ''2'')]) demo_conn None of
      Inl _ \<Rightarrow> False
    | Inr u \<Rightarrow> UpUserName u = '''' \<and> Auth u = None)"
  by code_simp

lemma handle_Inr: "handle R name args f p = Done p' (Inr x) \<Longrightarrow> \<exists>L. bind_res (snd (call_global R name args L)) f = Inr x"
  unfolding handle_def with_state_def case_prod_beta by (cases "getLuaState R p") (auto split: sum.splits)

text \<open>A host key passes only if the script ran without an error, returned true and no message.\<close>

lemma lua_hostkey_fail_closed:
  assumes "handleVerifyHostKey R conn hostname netaddr key p = Done p' (Inr ())"
  shows "\<exists>L vs. snd (call_global R ''sshpiper_on_verify_hostkey'' [createConnTable conn, LString hostname, LString netaddr, LString (str key)] L) = Inr vs
    \<and> result vs 0 = LBool True \<and> result vs 1 = LNil"
proof -
  let ?c = "call_global R ''sshpiper_on_verify_hostkey'' [createConnTable conn, LString hostname, LString netaddr, LString (str key)]"
  obtain L where "bind_res (snd (?c L)) (\<lambda>vs. verify_result (result vs 0) (result vs 1)) = Inr ()"
    using handle_Inr [OF assms [unfolded handleVerifyHostKey_def]] by (rule exE)
  then obtain vs where "snd (?c L) = Inr vs" "verify_result (result vs 0) (result vs 1) = Inr ()"
    by (auto simp: bind_res_eq_Inr)
  then show ?thesis
    by (auto simp: verify_result_def split: if_splits)
qed

text \<open>Modules beside the script come first, then those of the configured path, then the default.\<close>

lemma search_path_order:
  assumes "scriptPath \<noteq> ''''" "raw_get pkg (LString ''path'') = LString cur" "cur \<noteq> ''''"
  shows "\<exists>t. setLuaSearchPath search scriptPath (LTable pkg) = LTable t \<and> raw_get t (LString ''path'') =
    LString (join '';'' ([lua_dir scriptPath @ ''/?.lua'', lua_dir scriptPath @ ''/?/init.lua''] @ custom_paths search @ [cur]))"
proof -
  have "setLuaSearchPath search scriptPath (LTable pkg) =
    LTable (AList.update (LString ''path'')
      (LString (join '';'' ([lua_dir scriptPath @ ''/?.lua'', lua_dir scriptPath @ ''/?/init.lua''] @ custom_paths search @ [cur]))) pkg)"
    using assms by (simp add: setLuaSearchPath_def script_paths_def luaModulePattern_def luaModuleInitPattern_def)
  then show ?thesis
    by (simp add: raw_get_def update_conv)
qed

end
