(* ===== verification/Spec2Isabelle.thy ===== *)
theory Spec2Isabelle
  imports Plugin_Wire Pipe_Hooks Main_Config Yaml_Plugin Workingdir_Plugin Docker_Plugin Revtunnel_Plugin Revtunnel_Server
    Admin_Tools Admin_Shell Kubernetes_Plugin Lua_Plugin
begin

text \<open>
  \<^bold>\<open>sshpiper\<close>: an SSH proxy whose routing is decided by plugins.

  \<^bold>\<open>The program.\<close>  The daemon (\<^verbatim>\<open>cmd/sshpiperd\<close>) accepts a client, the downstream.  For every authentication attempt it asks its
  plugins over gRPC; a plugin answers with an upstream (address, user, credential, known hosts, environment), hands over to the next plugin, or fails.  The daemon
  dials the upstream, checks its host key, and from then on copies packets in both directions through a chain of hooks: the port-forwarding filter,
  the environment injector, the screen recorder and the stream to live viewers.  An admin service lists, kills and streams the sessions of a daemon; a
  client library and two tools do that for several daemons.  Plugins are built on \<^verbatim>\<open>libplugin\<close>, most of them on the skeleton in
  \<^verbatim>\<open>libplugin/skel\<close>.

  \<^bold>\<open>Shared theories.\<close>
  \<^item> \<open>Go_Base\<close>: bytes, 32-bit integers, errors and results, slices with bounds checks, big-endian integers; the locale \<open>step_invariant\<close> for the
    invariants of all state machines below.
  \<^item> \<open>Go_Strings\<close>, \<open>Go_Path\<close>: the functions of \<^verbatim>\<open>strings\<close>, \<^verbatim>\<open>strconv\<close>, \<^verbatim>\<open>net\<close> and \<^verbatim>\<open>path/filepath\<close> the program
    uses, with their round trips.

  \<^bold>\<open>The plugin wire.\<close>
  \<^item> \<open>Plugin_Api\<close> (\<^verbatim>\<open>libplugin/util.go\<close>, \<^verbatim>\<open>plugin_ext.go\<close>): messages, method names, addresses and URIs.
  \<^item> \<open>Plugin_Server\<close> (\<^verbatim>\<open>libplugin/pluginbase.go\<close>): the RPC handlers of a plugin around its callbacks.
  \<^item> \<open>Grpc_Plugin\<close> (\<^verbatim>\<open>internal/plugin/grpc.go\<close>): the daemon's callbacks for one plugin and the construction of an upstream.  The upstream is exactly
    what the reply says, and a host key that cannot be checked is refused.
  \<^item> \<open>Plugin_Wire\<close>: both ends together.  The daemon installs what a plugin announces, and the keyboard-interactive dialogue over the wire has the
    result of the dialogue the plugin describes.
  \<^item> \<open>Chain_Plugins\<close> (\<^verbatim>\<open>internal/plugin/chain.go\<close>): several plugins in a row.  The context of an attempt always names an existing plugin, and an
    offer ends with the answer of the plugin it reached.

  \<^bold>\<open>The daemon.\<close>
  \<^item> \<open>Host_Keys\<close>, \<open>Daemon\<close> (\<^verbatim>\<open>daemon.go\<close>): host keys and certificates, banners, installation of the plugins.  A configured certificate is never
    silently left out; an upstream only comes from a plugin.
  \<^item> \<open>Main_Config\<close> (\<^verbatim>\<open>main.go\<close>, \<^verbatim>\<open>grpc.go\<close>): the command line split into plugins, and the credentials of the admin service.
  \<^item> \<open>Hook_Chain\<close> (\<^verbatim>\<open>hook.go\<close>): the chain of hooks, and the locale \<open>packet_tap\<close> for hooks that only watch.
  \<^item> \<open>Forwarding\<close> (\<^verbatim>\<open>forwarding.go\<close>): the filter, with both directions of a pipe interleaved at the wait on its condition variable.  Every request
    that wants a reply gets exactly one in every interleaving; the replies come in order if the reply of a hook is written before the other direction decides, and a
    counterexample shows that they may be reordered otherwise.
  \<^item> \<open>Env_Inject\<close> (\<^verbatim>\<open>envinject.go\<close>), \<open>Recording\<close> (\<^verbatim>\<open>asciicast.go\<close>, \<^verbatim>\<open>typescript.go\<close>): environment before a session starts; recordings stay
    below the configured directory.
  \<^item> \<open>Connection\<close>, \<open>Pipe_Hooks\<close>: one connection from acceptance to its end, and what all hooks together do to a packet.  A session that must be recorded is
    not served without its recorder.
  \<^item> \<open>Broadcaster\<close>, \<open>Stream_Hook\<close>, \<open>Admin_Registry\<close> (\<^verbatim>\<open>internal/admin\<close>): live viewers over buffered channels, and the registry of sessions.  A viewer sees
    a subsequence of the frames in order, no channel is used after it is closed, and a kill closes a session once.

  \<^bold>\<open>The admin tools.\<close>
  \<^item> \<open>Aggregator\<close> (\<^verbatim>\<open>libadmin/aggregator.go\<close>): the view over several daemons.  An instance is known exactly if one endpoint reports it, in every order in
    which the parallel queries complete.
  \<^item> \<open>Admin_Tools\<close> (\<^verbatim>\<open>libadmin/client.go\<close>, \<^verbatim>\<open>cmd/sshpiperd-admin/main.go\<close>, \<^verbatim>\<open>cmd/sshpiperd-webadmin/internal/httpapi\<close>): a kill reaches only the
    named instance; the recording written by \<^verbatim>\<open>stream\<close> equals a reference; the HTTP paths and handlers.
  \<^item> \<open>Admin_Shell\<close> (\<^verbatim>\<open>cmd/sshpiperd-admin/ssh_server.go\<close>): authorised keys, the splitting of command lines, and a shell that runs the lines of its input
    however they are cut into reads.

  \<^bold>\<open>The plugins.\<close>
  \<^item> \<open>Skel\<close> (\<^verbatim>\<open>libplugin/skel/skel.go\<close>): the match of a connection to a pipe.  The locale \<open>skel_plugin\<close> is what a routing plugin gets from it; it is interpreted on
    the plugins below that use the skeleton.
  \<^item> \<open>Yaml_Plugin\<close>, \<open>Workingdir_Plugin\<close>, \<open>Docker_Plugin\<close>, \<open>Kubernetes_Plugin\<close> (\<^verbatim>\<open>plugin/yaml\<close>, \<^verbatim>\<open>workingdir\<close>, \<^verbatim>\<open>docker\<close>, \<^verbatim>\<open>kubernetes\<close>): an upstream
    comes only from a configured pipe that matches; user names cannot leave their directory; the keys of the local bridges open only what they were made for.
  \<^item> \<open>Session_Store\<close>, \<open>Tunnel_Registry\<close>, \<open>Revtunnel_Plugin\<close>, \<open>Revtunnel_Server\<close> (\<^verbatim>\<open>plugin/revtunnel\<close>): reverse tunnels.  The locale \<open>session_store\<close> is
    interpreted on the memory and on the file store; clients reach only the tunnel they name, registrations fail closed and are cleaned up.
  \<^item> \<open>Lua_Plugin\<close> (\<^verbatim>\<open>plugin/lua/lua.go\<close>): the callbacks of a script share one interpreter state and run one after the other; upstream tables round trip;
    the reload of a script never completes.

  \<^bold>\<open>Modelling.\<close>  A struct is a record, an operation a function from the state to the new state and its result; an error is the left side of a sum, a panic a
  value of its own.  Goroutines are interleavings: an operation that releases its mutex is split there, and a state machine has a step relation whose invariants hold
  in every reachable state.  Code outside the repository (the SSH library, gRPC, container and cluster APIs, the Lua interpreter, files, clocks and random numbers)
  is an argument of the definitions that use it; what is assumed of it is a hypothesis of the theorem, and the witness of that theorem instantiates it.

  \<^bold>\<open>Bounds.\<close>  Recursion is structural or has a termination proof, with two exceptions, which are partial functions where no value means no return: the
  loop over authorised keys in \<open>Skel\<close>, for which it is proved that it returns, because the parser consumes its input, and the loop that drains the pool of
  interpreters in \<open>Lua_Plugin\<close>, for which it is proved that it waits for ever under the lock of the reload.  The constants of the code are kept: the
  capacities of the frame buffers, the number of attempts to find a free port, the longest line of a key file.

  \<^bold>\<open>Not modelled.\<close>  Generated code (protocol buffers, cluster clients); the transport of plugins over pipes and gRPC streams, the accept loops, process start-up and
  signal handlers, which are I/O; log output; the metrics and failtoban plugins, whose state is in third-party packages; the fixed, simplemath and
  username-router plugins, which are demonstrations; the one-time passwords of the workingdir plugin and the line editor of the admin shell, which are third-party
  packages; packaging and test fixtures.
\<close>

end
